(* ===== verification/Prelude.thy ===== *)
theory Prelude
  imports Main "HOL-Library.Word" "HOL-Library.Char_ord"
begin

unbundle bit_operations_syntax

text \<open>
  Shared vocabulary of the development: names for the machine integer types of the C and
  C++ sources, the characters the sources name, reads of NUL-terminated strings, and generic
  lemmas on characters, words and lists that the component theories use.

  A C \<open>char\<close> is an Isabelle \<open>char\<close> (eight bits).  The sources compare characters only
  with ASCII constants or after a cast to \<open>unsigned char\<close>, so whether plain \<open>char\<close> is
  signed does not matter unless a definition says so.
\<close>

named_theorems class_simps \<open>unfolding of the character-class macros\<close>
named_theorems step_defs \<open>definitions of the single steps of a state machine\<close>

type_synonym u8 = "8 word"
type_synonym u16 = "16 word"
type_synonym u32 = "32 word"
type_synonym u64 = "64 word"

abbreviation NUL :: char where "NUL \<equiv> CHR 0x00"
abbreviation TAB :: char where "TAB \<equiv> CHR 0x09"
abbreviation LF :: char where "LF \<equiv> CHR 0x0A"
abbreviation FF :: char where "FF \<equiv> CHR 0x0C"
abbreviation CR :: char where "CR \<equiv> CHR 0x0D"
abbreviation SP :: char where "SP \<equiv> CHR '' ''"

text \<open>Reading \<open>s[i]\<close> of a C string literal: the terminating NUL is part of the array,
  anything beyond it is out of bounds.\<close>

definition cstr_at :: "string \<Rightarrow> nat \<Rightarrow> char option" where
  "cstr_at s i = (if i < length s then Some (s ! i) else if i = length s then Some NUL else None)"

lemma cstr_at_less [simp]: "i < length s \<Longrightarrow> cstr_at s i = Some (s ! i)"
  by (simp add: cstr_at_def)

lemma cstr_at_length [simp]: "cstr_at s (length s) = Some NUL"
  by (simp add: cstr_at_def)

lemma cstr_at_Some_iff: "(\<exists>c. cstr_at s i = Some c) \<longleftrightarrow> i \<le> length s"
  by (auto simp: cstr_at_def)

text \<open>A property of all characters is decided by its 256 instances.\<close>

lemma all_char_iff:
  "(\<forall>c. P c) \<longleftrightarrow> (\<forall>b0 b1 b2 b3 b4 b5 b6 b7. P (Char b0 b1 b2 b3 b4 b5 b6 b7))"
  by (metis char.exhaust)

lemma of_char_less_256: "(of_char c :: nat) < 256"
  by simp

lemma char_le_iff: "(c :: char) \<le> d \<longleftrightarrow> (of_char c :: nat) \<le> of_char d"
  by (simp add: less_eq_char_def)

lemma char_less_iff: "(c :: char) < d \<longleftrightarrow> (of_char c :: nat) < of_char d"
  by (simp add: less_char_def)

text \<open>A character as a byte, as the casts to and from \<open>uint8_t\<close> do it.\<close>

definition byte_of :: "char \<Rightarrow> u8" where
  "byte_of c = of_nat (of_char c)"

definition char_of_byte :: "u8 \<Rightarrow> char" where
  "char_of_byte b = char_of (unat b)"

lemma unat_u8_less: "unat (b :: u8) < 256"
proof -
  have "unat b < 2 ^ LENGTH(8)"
    by (rule unsigned_less)
  then show ?thesis
    by simp
qed

lemma unat_byte_of [simp]: "unat (byte_of c) = of_char c"
  unfolding byte_of_def unat_of_nat by (simp add: take_bit_nat_eq_self)

lemma char_of_byte_of [simp]: "char_of_byte (byte_of c) = c"
  by (simp add: char_of_byte_def)

lemma byte_of_char_of_byte [simp]: "byte_of (char_of_byte b) = b"
  using unat_u8_less [of b] by (simp add: byte_of_def char_of_byte_def)

lemma unat_low_nibble [simp]: "unat (b AND 15 :: u8) = unat b mod 16"
proof -
  have "b AND 15 = take_bit 4 b"
    by (simp add: take_bit_eq_mask mask_eq_exp_minus_1)
  then show ?thesis
    by (simp only: unsigned_take_bit_eq) (simp add: take_bit_eq_mod)
qed

lemma unat_drop_4 [simp]: "unat (drop_bit 4 b :: u8) = unat b div 16"
  by (simp only: unsigned_drop_bit_eq) (simp add: drop_bit_eq_div take_bit_nat_eq_self unat_u8_less)

lemma unat_high_nibble [simp]: "unat (drop_bit 4 (b AND 0xF0 :: u8)) = unat b div 16"
proof -
  have "drop_bit 4 (0xF0 :: u8) = 15"
    unfolding word_unat_eq_iff by simp
  then have "drop_bit 4 (b AND 0xF0) = drop_bit 4 b AND 15"
    by (simp only: drop_bit_and)
  then have "unat (drop_bit 4 (b AND 0xF0 :: u8)) = unat b div 16 mod 16"
    by (simp only: unat_low_nibble unat_drop_4)
  then show ?thesis
    using unat_u8_less [of b] by simp
qed
end
