(* ===== verification/HttpTypes.thy ===== *)
theory HttpTypes
  imports Prelude
begin

text \<open>
  The data model of \<open>src/base/net/http/http_parser.h\<close> and the constant tables and
  character-class macros of \<open>src/base/net/http/http_parser.c\<close>, as compiled by this
  repository: no build file defines \<open>HTTP_PARSER_STRICT\<close> or
  \<open>HTTP_MAX_HEADER_SIZE\<close>, so the header's defaults (strict mode, 80 KiB) apply.

  Enumerations are datatypes with the source's constructors, together with the numbering
  the compiler gives them where the code relies on it; bit-fields keep their width.
  The array tables of the source list fewer initialisers than elements; C fills the rest
  with zero, which \<open>array_at\<close> makes explicit.
\<close>

section \<open>Enumerations of the header\<close>

subsection \<open>Request methods\<close>

datatype (plugins only: code) http_method =
    HTTP_DELETE | HTTP_GET | HTTP_HEAD | HTTP_POST
  | HTTP_PUT | HTTP_CONNECT | HTTP_OPTIONS | HTTP_TRACE
  | HTTP_COPY | HTTP_LOCK | HTTP_MKCOL | HTTP_MOVE
  | HTTP_PROPFIND | HTTP_PROPPATCH | HTTP_SEARCH | HTTP_UNLOCK
  | HTTP_BIND | HTTP_REBIND | HTTP_UNBIND | HTTP_ACL
  | HTTP_REPORT | HTTP_MKACTIVITY | HTTP_CHECKOUT | HTTP_MERGE
  | HTTP_MSEARCH | HTTP_NOTIFY | HTTP_SUBSCRIBE | HTTP_UNSUBSCRIBE
  | HTTP_PATCH | HTTP_PURGE | HTTP_MKCALENDAR | HTTP_LINK
  | HTTP_UNLINK

primrec http_method_num :: "http_method \<Rightarrow> nat" where
  "http_method_num HTTP_DELETE = 0"
| "http_method_num HTTP_GET = 1"
| "http_method_num HTTP_HEAD = 2"
| "http_method_num HTTP_POST = 3"
| "http_method_num HTTP_PUT = 4"
| "http_method_num HTTP_CONNECT = 5"
| "http_method_num HTTP_OPTIONS = 6"
| "http_method_num HTTP_TRACE = 7"
| "http_method_num HTTP_COPY = 8"
| "http_method_num HTTP_LOCK = 9"
| "http_method_num HTTP_MKCOL = 10"
| "http_method_num HTTP_MOVE = 11"
| "http_method_num HTTP_PROPFIND = 12"
| "http_method_num HTTP_PROPPATCH = 13"
| "http_method_num HTTP_SEARCH = 14"
| "http_method_num HTTP_UNLOCK = 15"
| "http_method_num HTTP_BIND = 16"
| "http_method_num HTTP_REBIND = 17"
| "http_method_num HTTP_UNBIND = 18"
| "http_method_num HTTP_ACL = 19"
| "http_method_num HTTP_REPORT = 20"
| "http_method_num HTTP_MKACTIVITY = 21"
| "http_method_num HTTP_CHECKOUT = 22"
| "http_method_num HTTP_MERGE = 23"
| "http_method_num HTTP_MSEARCH = 24"
| "http_method_num HTTP_NOTIFY = 25"
| "http_method_num HTTP_SUBSCRIBE = 26"
| "http_method_num HTTP_UNSUBSCRIBE = 27"
| "http_method_num HTTP_PATCH = 28"
| "http_method_num HTTP_PURGE = 29"
| "http_method_num HTTP_MKCALENDAR = 30"
| "http_method_num HTTP_LINK = 31"
| "http_method_num HTTP_UNLINK = 32"

definition method_strings :: "string list" where
  "method_strings =
    [''DELETE'', ''GET'', ''HEAD'', ''POST'', ''PUT'',
     ''CONNECT'', ''OPTIONS'', ''TRACE'', ''COPY'', ''LOCK'',
     ''MKCOL'', ''MOVE'', ''PROPFIND'', ''PROPPATCH'', ''SEARCH'',
     ''UNLOCK'', ''BIND'', ''REBIND'', ''UNBIND'', ''ACL'',
     ''REPORT'', ''MKACTIVITY'', ''CHECKOUT'', ''MERGE'', ''M-SEARCH'',
     ''NOTIFY'', ''SUBSCRIBE'', ''UNSUBSCRIBE'', ''PATCH'', ''PURGE'',
     ''MKCALENDAR'', ''LINK'', ''UNLINK'']"

subsection \<open>Parser type, flags and error numbers\<close>

datatype http_parser_type = HTTP_REQUEST | HTTP_RESPONSE | HTTP_BOTH

definition F_CHUNKED :: u8 where "F_CHUNKED = push_bit 0 1"
definition F_CONNECTION_KEEP_ALIVE :: u8 where "F_CONNECTION_KEEP_ALIVE = push_bit 1 1"
definition F_CONNECTION_CLOSE :: u8 where "F_CONNECTION_CLOSE = push_bit 2 1"
definition F_CONNECTION_UPGRADE :: u8 where "F_CONNECTION_UPGRADE = push_bit 3 1"
definition F_TRAILING :: u8 where "F_TRAILING = push_bit 4 1"
definition F_UPGRADE :: u8 where "F_UPGRADE = push_bit 5 1"
definition F_SKIPBODY :: u8 where "F_SKIPBODY = push_bit 6 1"
definition F_CONTENTLENGTH :: u8 where "F_CONTENTLENGTH = push_bit 7 1"

lemmas F_defs = F_CHUNKED_def F_CONNECTION_KEEP_ALIVE_def F_CONNECTION_CLOSE_def
  F_CONNECTION_UPGRADE_def F_TRAILING_def F_UPGRADE_def F_SKIPBODY_def F_CONTENTLENGTH_def

datatype (plugins only: code) http_errno =
    HPE_OK | HPE_CB_message_begin | HPE_CB_url
  | HPE_CB_header_field | HPE_CB_header_value | HPE_CB_headers_complete
  | HPE_CB_body | HPE_CB_message_complete | HPE_CB_status
  | HPE_CB_chunk_header | HPE_CB_chunk_complete | HPE_INVALID_EOF_STATE
  | HPE_HEADER_OVERFLOW | HPE_CLOSED_CONNECTION | HPE_INVALID_VERSION
  | HPE_INVALID_STATUS | HPE_INVALID_METHOD | HPE_INVALID_URL
  | HPE_INVALID_HOST | HPE_INVALID_PORT | HPE_INVALID_PATH
  | HPE_INVALID_QUERY_STRING | HPE_INVALID_FRAGMENT | HPE_LF_EXPECTED
  | HPE_INVALID_HEADER_TOKEN | HPE_INVALID_CONTENT_LENGTH | HPE_UNEXPECTED_CONTENT_LENGTH
  | HPE_INVALID_CHUNK_SIZE | HPE_INVALID_CONSTANT | HPE_INVALID_INTERNAL_STATE
  | HPE_STRICT | HPE_PAUSED | HPE_UNKNOWN

primrec http_errno_num :: "http_errno \<Rightarrow> nat" where
  "http_errno_num HPE_OK = 0"
| "http_errno_num HPE_CB_message_begin = 1"
| "http_errno_num HPE_CB_url = 2"
| "http_errno_num HPE_CB_header_field = 3"
| "http_errno_num HPE_CB_header_value = 4"
| "http_errno_num HPE_CB_headers_complete = 5"
| "http_errno_num HPE_CB_body = 6"
| "http_errno_num HPE_CB_message_complete = 7"
| "http_errno_num HPE_CB_status = 8"
| "http_errno_num HPE_CB_chunk_header = 9"
| "http_errno_num HPE_CB_chunk_complete = 10"
| "http_errno_num HPE_INVALID_EOF_STATE = 11"
| "http_errno_num HPE_HEADER_OVERFLOW = 12"
| "http_errno_num HPE_CLOSED_CONNECTION = 13"
| "http_errno_num HPE_INVALID_VERSION = 14"
| "http_errno_num HPE_INVALID_STATUS = 15"
| "http_errno_num HPE_INVALID_METHOD = 16"
| "http_errno_num HPE_INVALID_URL = 17"
| "http_errno_num HPE_INVALID_HOST = 18"
| "http_errno_num HPE_INVALID_PORT = 19"
| "http_errno_num HPE_INVALID_PATH = 20"
| "http_errno_num HPE_INVALID_QUERY_STRING = 21"
| "http_errno_num HPE_INVALID_FRAGMENT = 22"
| "http_errno_num HPE_LF_EXPECTED = 23"
| "http_errno_num HPE_INVALID_HEADER_TOKEN = 24"
| "http_errno_num HPE_INVALID_CONTENT_LENGTH = 25"
| "http_errno_num HPE_UNEXPECTED_CONTENT_LENGTH = 26"
| "http_errno_num HPE_INVALID_CHUNK_SIZE = 27"
| "http_errno_num HPE_INVALID_CONSTANT = 28"
| "http_errno_num HPE_INVALID_INTERNAL_STATE = 29"
| "http_errno_num HPE_STRICT = 30"
| "http_errno_num HPE_PAUSED = 31"
| "http_errno_num HPE_UNKNOWN = 32"

section \<open>State enumerations of the parser\<close>

datatype (plugins only: code) state =
    s_dead | s_start_req_or_res | s_res_or_resp_H
  | s_start_res | s_res_H | s_res_HT
  | s_res_HTT | s_res_HTTP | s_res_first_http_major
  | s_res_http_major | s_res_first_http_minor | s_res_http_minor
  | s_res_first_status_code | s_res_status_code | s_res_status_start
  | s_res_status | s_res_line_almost_done | s_start_req
  | s_req_method | s_req_spaces_before_url | s_req_schema
  | s_req_schema_slash | s_req_schema_slash_slash | s_req_server_start
  | s_req_server | s_req_server_with_at | s_req_path
  | s_req_query_string_start | s_req_query_string | s_req_fragment_start
  | s_req_fragment | s_req_http_start | s_req_http_H
  | s_req_http_HT | s_req_http_HTT | s_req_http_HTTP
  | s_req_first_http_major | s_req_http_major | s_req_first_http_minor
  | s_req_http_minor | s_req_line_almost_done | s_header_field_start
  | s_header_field | s_header_value_discard_ws | s_header_value_discard_ws_almost_done
  | s_header_value_discard_lws | s_header_value_start | s_header_value
  | s_header_value_lws | s_header_almost_done | s_chunk_size_start
  | s_chunk_size | s_chunk_parameters | s_chunk_size_almost_done
  | s_headers_almost_done | s_headers_done | s_chunk_data
  | s_chunk_data_almost_done | s_chunk_data_done | s_body_identity
  | s_body_identity_eof | s_message_done

primrec state_num :: "state \<Rightarrow> nat" where
  "state_num s_dead = 1"
| "state_num s_start_req_or_res = 2"
| "state_num s_res_or_resp_H = 3"
| "state_num s_start_res = 4"
| "state_num s_res_H = 5"
| "state_num s_res_HT = 6"
| "state_num s_res_HTT = 7"
| "state_num s_res_HTTP = 8"
| "state_num s_res_first_http_major = 9"
| "state_num s_res_http_major = 10"
| "state_num s_res_first_http_minor = 11"
| "state_num s_res_http_minor = 12"
| "state_num s_res_first_status_code = 13"
| "state_num s_res_status_code = 14"
| "state_num s_res_status_start = 15"
| "state_num s_res_status = 16"
| "state_num s_res_line_almost_done = 17"
| "state_num s_start_req = 18"
| "state_num s_req_method = 19"
| "state_num s_req_spaces_before_url = 20"
| "state_num s_req_schema = 21"
| "state_num s_req_schema_slash = 22"
| "state_num s_req_schema_slash_slash = 23"
| "state_num s_req_server_start = 24"
| "state_num s_req_server = 25"
| "state_num s_req_server_with_at = 26"
| "state_num s_req_path = 27"
| "state_num s_req_query_string_start = 28"
| "state_num s_req_query_string = 29"
| "state_num s_req_fragment_start = 30"
| "state_num s_req_fragment = 31"
| "state_num s_req_http_start = 32"
| "state_num s_req_http_H = 33"
| "state_num s_req_http_HT = 34"
| "state_num s_req_http_HTT = 35"
| "state_num s_req_http_HTTP = 36"
| "state_num s_req_first_http_major = 37"
| "state_num s_req_http_major = 38"
| "state_num s_req_first_http_minor = 39"
| "state_num s_req_http_minor = 40"
| "state_num s_req_line_almost_done = 41"
| "state_num s_header_field_start = 42"
| "state_num s_header_field = 43"
| "state_num s_header_value_discard_ws = 44"
| "state_num s_header_value_discard_ws_almost_done = 45"
| "state_num s_header_value_discard_lws = 46"
| "state_num s_header_value_start = 47"
| "state_num s_header_value = 48"
| "state_num s_header_value_lws = 49"
| "state_num s_header_almost_done = 50"
| "state_num s_chunk_size_start = 51"
| "state_num s_chunk_size = 52"
| "state_num s_chunk_parameters = 53"
| "state_num s_chunk_size_almost_done = 54"
| "state_num s_headers_almost_done = 55"
| "state_num s_headers_done = 56"
| "state_num s_chunk_data = 57"
| "state_num s_chunk_data_almost_done = 58"
| "state_num s_chunk_data_done = 59"
| "state_num s_body_identity = 60"
| "state_num s_body_identity_eof = 61"
| "state_num s_message_done = 62"

definition PARSING_HEADER :: "state \<Rightarrow> bool" where
  "PARSING_HEADER s = (state_num s \<le> state_num s_headers_done)"

datatype (plugins only: code) header_states =
    h_general | h_C | h_CO
  | h_CON | h_matching_connection | h_matching_proxy_connection
  | h_matching_content_length | h_matching_transfer_encoding | h_matching_upgrade
  | h_connection | h_content_length | h_transfer_encoding
  | h_upgrade | h_matching_transfer_encoding_chunked | h_matching_connection_token_start
  | h_matching_connection_keep_alive | h_matching_connection_close | h_matching_connection_upgrade
  | h_matching_connection_token | h_transfer_encoding_chunked | h_connection_keep_alive
  | h_connection_close | h_connection_upgrade

datatype (plugins only: code) http_host_state =
    s_http_host_dead | s_http_userinfo_start | s_http_userinfo
  | s_http_host_start | s_http_host_v6_start | s_http_host
  | s_http_host_v6 | s_http_host_v6_end | s_http_host_v6_zone_start
  | s_http_host_v6_zone | s_http_host_port_start | s_http_host_port

section \<open>The parser object and its settings\<close>

text \<open>
  \<open>http_parser\<close> with its bit-field widths.  The \<open>data\<close> pointer of the C struct leads
  to the application's object; the model stores that object's value, of the type parameter
  \<open>'d\<close>, so that a callback can change it.
\<close>

record 'd http_parser =
  ptype :: http_parser_type
  flags :: u8
  state :: state
  header_state :: header_states
  index :: "7 word"
  lenient_http_headers :: bool
  nread :: u32
  content_length :: u64
  http_major :: u16
  http_minor :: u16
  status_code :: u16 "method" :: http_method
  http_errno :: http_errno
  upgrade :: bool
  data :: 'd

text \<open>A callback gets the parser and returns an \<open>int\<close> and the parser as it left it; a
  data callback also gets the bytes from \<open>at\<close> to \<open>at + length\<close>.  A null function
  pointer is \<open>None\<close>.\<close>

type_synonym 'd http_cb = "'d http_parser \<Rightarrow> int \<times> 'd http_parser"
type_synonym 'd http_data_cb = "'d http_parser \<Rightarrow> string \<Rightarrow> int \<times> 'd http_parser"

record 'd http_parser_settings =
  on_message_begin :: "'d http_cb option"
  on_url :: "'d http_data_cb option"
  on_status :: "'d http_data_cb option"
  on_header_field :: "'d http_data_cb option"
  on_header_value :: "'d http_data_cb option"
  on_headers_complete :: "'d http_cb option"
  on_body :: "'d http_data_cb option"
  on_message_complete :: "'d http_cb option"
  on_chunk_header :: "'d http_cb option"
  on_chunk_complete :: "'d http_cb option"

section \<open>Constant tables\<close>

definition array_at :: "'a \<Rightarrow> 'a list \<Rightarrow> nat \<Rightarrow> 'a" where
  "array_at z tab i = (if i < length tab then tab ! i else z)"

definition tokens_tab :: "char list" where
  "tokens_tab =
    [NUL, NUL, NUL, NUL, NUL, NUL, NUL, NUL,
     NUL, NUL, NUL, NUL, NUL, NUL, NUL, NUL,
     NUL, NUL, NUL, NUL, NUL, NUL, NUL, NUL,
     NUL, NUL, NUL, NUL, NUL, NUL, NUL, NUL,
     NUL, CHR ''!'', NUL, CHR ''#'', CHR ''$'', CHR ''%'', CHR ''&'', CHR 0x27,
     NUL, NUL, CHR ''*'', CHR ''+'', NUL, CHR ''-'', CHR ''.'', NUL,
     CHR 0x30, CHR 0x31, CHR 0x32, CHR 0x33, CHR 0x34, CHR 0x35, CHR 0x36, CHR 0x37,
     CHR 0x38, CHR 0x39, NUL, NUL, NUL, NUL, NUL, NUL,
     NUL, CHR ''a'', CHR ''b'', CHR ''c'', CHR ''d'', CHR ''e'', CHR ''f'', CHR ''g'',
     CHR ''h'', CHR ''i'', CHR ''j'', CHR ''k'', CHR ''l'', CHR ''m'', CHR ''n'', CHR ''o'',
     CHR ''p'', CHR ''q'', CHR ''r'', CHR ''s'', CHR ''t'', CHR ''u'', CHR ''v'', CHR ''w'',
     CHR ''x'', CHR ''y'', CHR ''z'', NUL, NUL, NUL, CHR ''^'', CHR ''_'',
     CHR 0x60, CHR ''a'', CHR ''b'', CHR ''c'', CHR ''d'', CHR ''e'', CHR ''f'', CHR ''g'',
     CHR ''h'', CHR ''i'', CHR ''j'', CHR ''k'', CHR ''l'', CHR ''m'', CHR ''n'', CHR ''o'',
     CHR ''p'', CHR ''q'', CHR ''r'', CHR ''s'', CHR ''t'', CHR ''u'', CHR ''v'', CHR ''w'',
     CHR ''x'', CHR ''y'', CHR ''z'', NUL, CHR ''|'', NUL, CHR ''~'', NUL]"

definition tokens :: "char \<Rightarrow> char" where
  "tokens c = array_at NUL tokens_tab (of_char c)"

definition unhex_tab :: "int list" where
  "unhex_tab =
    [-1, -1, -1, -1, -1, -1, -1, -1, -1, -1, -1, -1, -1, -1, -1, -1,
     -1, -1, -1, -1, -1, -1, -1, -1, -1, -1, -1, -1, -1, -1, -1, -1,
     -1, -1, -1, -1, -1, -1, -1, -1, -1, -1, -1, -1, -1, -1, -1, -1,
     0, 1, 2, 3, 4, 5, 6, 7, 8, 9, -1, -1, -1, -1, -1, -1,
     -1, 10, 11, 12, 13, 14, 15, -1, -1, -1, -1, -1, -1, -1, -1, -1,
     -1, -1, -1, -1, -1, -1, -1, -1, -1, -1, -1, -1, -1, -1, -1, -1,
     -1, 10, 11, 12, 13, 14, 15, -1, -1, -1, -1, -1, -1, -1, -1, -1,
     -1, -1, -1, -1, -1, -1, -1, -1, -1, -1, -1, -1, -1, -1, -1, -1]"

definition unhex :: "char \<Rightarrow> int" where
  "unhex c = array_at 0 unhex_tab (of_char c)"

definition normal_url_char_tab :: "u8 list" where
  "normal_url_char_tab =
    [0 OR 0 OR 0 OR 0 OR 0 OR 0 OR 0 OR 0,
     0 OR 0 OR 0 OR 0 OR 0 OR 0 OR 0 OR 0,
     0 OR 0 OR 0 OR 0 OR 0 OR 0 OR 0 OR 0,
     0 OR 0 OR 0 OR 0 OR 0 OR 0 OR 0 OR 0,
     0 OR 2 OR 4 OR 0 OR 16 OR 32 OR 64 OR 128,
     1 OR 2 OR 4 OR 8 OR 16 OR 32 OR 64 OR 128,
     1 OR 2 OR 4 OR 8 OR 16 OR 32 OR 64 OR 128,
     1 OR 2 OR 4 OR 8 OR 16 OR 32 OR 64 OR 0,
     1 OR 2 OR 4 OR 8 OR 16 OR 32 OR 64 OR 128,
     1 OR 2 OR 4 OR 8 OR 16 OR 32 OR 64 OR 128,
     1 OR 2 OR 4 OR 8 OR 16 OR 32 OR 64 OR 128,
     1 OR 2 OR 4 OR 8 OR 16 OR 32 OR 64 OR 128,
     1 OR 2 OR 4 OR 8 OR 16 OR 32 OR 64 OR 128,
     1 OR 2 OR 4 OR 8 OR 16 OR 32 OR 64 OR 128,
     1 OR 2 OR 4 OR 8 OR 16 OR 32 OR 64 OR 128,
     1 OR 2 OR 4 OR 8 OR 16 OR 32 OR 64 OR 0]"

definition BIT_AT :: "u8 list \<Rightarrow> nat \<Rightarrow> bool" where
  "BIT_AT a i = (array_at 0 a (drop_bit 3 i) AND push_bit (i AND 7) 1 \<noteq> 0)"

definition http_strerror_tab :: "(string \<times> string) list" where
  "http_strerror_tab =
    [(''HPE_OK'', ''success''),
     (''HPE_CB_message_begin'', ''the on_message_begin callback failed''),
     (''HPE_CB_url'', ''the on_url callback failed''),
     (''HPE_CB_header_field'', ''the on_header_field callback failed''),
     (''HPE_CB_header_value'', ''the on_header_value callback failed''),
     (''HPE_CB_headers_complete'', ''the on_headers_complete callback failed''),
     (''HPE_CB_body'', ''the on_body callback failed''),
     (''HPE_CB_message_complete'', ''the on_message_complete callback failed''),
     (''HPE_CB_status'', ''the on_status callback failed''),
     (''HPE_CB_chunk_header'', ''the on_chunk_header callback failed''),
     (''HPE_CB_chunk_complete'', ''the on_chunk_complete callback failed''),
     (''HPE_INVALID_EOF_STATE'', ''stream ended at an unexpected time''),
     (''HPE_HEADER_OVERFLOW'', ''too many header bytes seen; overflow detected''),
     (''HPE_CLOSED_CONNECTION'', ''data received after completed connection: close message''),
     (''HPE_INVALID_VERSION'', ''invalid HTTP version''),
     (''HPE_INVALID_STATUS'', ''invalid HTTP status code''),
     (''HPE_INVALID_METHOD'', ''invalid HTTP method''),
     (''HPE_INVALID_URL'', ''invalid URL''),
     (''HPE_INVALID_HOST'', ''invalid host''),
     (''HPE_INVALID_PORT'', ''invalid port''),
     (''HPE_INVALID_PATH'', ''invalid path''),
     (''HPE_INVALID_QUERY_STRING'', ''invalid query string''),
     (''HPE_INVALID_FRAGMENT'', ''invalid fragment''),
     (''HPE_LF_EXPECTED'', ''LF character expected''),
     (''HPE_INVALID_HEADER_TOKEN'', ''invalid character in header''),
     (''HPE_INVALID_CONTENT_LENGTH'', ''invalid character in content-length header''),
     (''HPE_UNEXPECTED_CONTENT_LENGTH'', ''unexpected content-length header''),
     (''HPE_INVALID_CHUNK_SIZE'', ''invalid character in chunk size header''),
     (''HPE_INVALID_CONSTANT'', ''invalid constant string''),
     (''HPE_INVALID_INTERNAL_STATE'', ''encountered unexpected internal state''),
     (''HPE_STRICT'', ''strict mode assertion failed''),
     (''HPE_PAUSED'', ''parser is paused''),
     (''HPE_UNKNOWN'', ''an unknown error occurred'')]"

definition PROXY_CONNECTION :: string where "PROXY_CONNECTION = ''proxy-connection''"
definition CONNECTION :: string where "CONNECTION = ''connection''"
definition CONTENT_LENGTH :: string where "CONTENT_LENGTH = ''content-length''"
definition TRANSFER_ENCODING :: string where "TRANSFER_ENCODING = ''transfer-encoding''"
definition UPGRADE :: string where "UPGRADE = ''upgrade''"
definition CHUNKED :: string where "CHUNKED = ''chunked''"
definition KEEP_ALIVE :: string where "KEEP_ALIVE = ''keep-alive''"
definition CLOSE :: string where "CLOSE = ''close''"

lemmas header_name_defs = PROXY_CONNECTION_def CONNECTION_def CONTENT_LENGTH_def
  TRANSFER_ENCODING_def UPGRADE_def CHUNKED_def KEEP_ALIVE_def CLOSE_def

text \<open>A preprocessor number, used at the type of the comparison.\<close>

definition HTTP_MAX_HEADER_SIZE :: "'a::semiring_1" where "HTTP_MAX_HEADER_SIZE = 80 * 1024"

definition ULLONG_MAX :: u64 where "ULLONG_MAX = -1"

section \<open>Character classes\<close>

definition LOWER :: "char \<Rightarrow> char" where
  "LOWER c = char_of ((of_char c :: nat) OR 0x20)"

definition IS_ALPHA :: "char \<Rightarrow> bool" where
  "IS_ALPHA c \<longleftrightarrow> LOWER c \<ge> CHR ''a'' \<and> LOWER c \<le> CHR ''z''"

definition IS_NUM :: "char \<Rightarrow> bool" where
  "IS_NUM c \<longleftrightarrow> c \<ge> CHR ''0'' \<and> c \<le> CHR ''9''"

definition IS_ALPHANUM :: "char \<Rightarrow> bool" where
  "IS_ALPHANUM c \<longleftrightarrow> IS_ALPHA c \<or> IS_NUM c"

definition IS_HEX :: "char \<Rightarrow> bool" where
  "IS_HEX c \<longleftrightarrow> IS_NUM c \<or> LOWER c \<ge> CHR ''a'' \<and> LOWER c \<le> CHR ''f''"

definition IS_MARK :: "char \<Rightarrow> bool" where
  "IS_MARK c \<longleftrightarrow> c = CHR ''-'' \<or> c = CHR ''_'' \<or> c = CHR ''.'' \<or> c = CHR ''!'' \<or>
     c = CHR ''~'' \<or> c = CHR ''*'' \<or> c = CHR 0x27 \<or> c = CHR ''('' \<or> c = CHR '')''"

definition IS_USERINFO_CHAR :: "char \<Rightarrow> bool" where
  "IS_USERINFO_CHAR c \<longleftrightarrow> IS_ALPHANUM c \<or> IS_MARK c \<or> c = CHR ''%'' \<or> c = CHR '';'' \<or>
     c = CHR '':'' \<or> c = CHR ''&'' \<or> c = CHR ''='' \<or> c = CHR ''+'' \<or> c = CHR ''$'' \<or> c = CHR '',''"

definition TOKEN :: "char \<Rightarrow> char" where
  "TOKEN c = tokens c"

definition STRICT_TOKEN :: "char \<Rightarrow> char" where
  "STRICT_TOKEN c = tokens c"

definition IS_URL_CHAR :: "char \<Rightarrow> bool" where
  "IS_URL_CHAR c = BIT_AT normal_url_char_tab (of_char c)"

definition IS_HOST_CHAR :: "char \<Rightarrow> bool" where
  "IS_HOST_CHAR c \<longleftrightarrow> IS_ALPHANUM c \<or> c = CHR ''.'' \<or> c = CHR ''-''"

definition IS_HEADER_CHAR :: "char \<Rightarrow> bool" where
  "IS_HEADER_CHAR c \<longleftrightarrow> c = CR \<or> c = LF \<or> c = CHR 0x09 \<or>
     (of_char c :: nat) > 31 \<and> c \<noteq> CHR 0x7F"

lemmas class_defs [class_simps] = IS_ALPHA_def IS_NUM_def IS_ALPHANUM_def IS_HEX_def IS_MARK_def
  IS_USERINFO_CHAR_def IS_HOST_CHAR_def IS_HEADER_CHAR_def

end
