(* ===== verification/HttpMacros.thy ===== *)
theory HttpMacros
  imports HttpTypes
begin

text \<open>
  The local variables of \<open>http_parser_execute\<close> (\<open>http_parser.c\<close>), the ways a
  \<open>case\<close> of its switch can end, and the macros the cases are written with
  (\<open>SET_ERRNO\<close>, \<open>UPDATE_STATE\<close>, \<open>CALLBACK_NOTIFY\<close>, \<open>CALLBACK_DATA\<close>,
  \<open>MARK\<close>, \<open>COUNT_HEADER_SIZE\<close>, \<open>STRICT_CHECK\<close>, \<open>NEW_MESSAGE\<close>), and the two
  predicates on a parser that the macros call.  A macro that may leave the function takes
  the rest of the case as its last argument.
\<close>

section \<open>Local variables and outcomes\<close>

text \<open>The argument \<open>settings\<close>, the buffer \<open>data[0 .. len)\<close> and the local
  constant \<open>lenient\<close>.\<close>

record 'd env =
  settings :: "'d http_parser_settings"
  buf :: string
  lenient :: bool

text \<open>The data callbacks, which also name the five \<open>_mark\<close> variables, and the
  notification callbacks run through \<open>CALLBACK_NOTIFY\<close>.\<close>

datatype data_for = D_header_field | D_header_value | D_url | D_body | D_status
datatype notify_for = N_message_begin | N_message_complete | N_chunk_header | N_chunk_complete

text \<open>\<open>p_off\<close> is \<open>p - data\<close>; a mark is an offset into the buffer, or \<open>None\<close> for
  the null pointer.\<close>

record 'd locals =
  parser :: "'d http_parser"
  p_off :: nat
  ch :: char
  p_state :: state
  marks :: "data_for \<Rightarrow> nat option"

text \<open>What the C program must never do: fail an \<open>assert\<close>, or read outside an array.
  \<open>Unreachable\<close> marks combinations of the model's types that no path of the source
  produces.\<close>

datatype fault = Assertion_failed | Out_of_bounds | Unreachable

text \<open>How the code of one \<open>case\<close> ends: \<open>break\<close> out of the switch,
  \<open>goto reexecute\<close>, \<open>goto error\<close>, \<open>return\<close>, or a fault.\<close>

datatype 'd step_result =
    Break "'d locals"
  | Reexecute "'d locals"
  | Goto_error "'d locals"
  | Return nat "'d http_parser"
  | Fault fault

section \<open>Predicates on the parser\<close>

definition has_flag :: "u8 \<Rightarrow> 'd http_parser \<Rightarrow> bool" where
  "has_flag f P \<longleftrightarrow> flags P AND f \<noteq> 0"

definition set_flag :: "u8 \<Rightarrow> 'd http_parser \<Rightarrow> 'd http_parser" where
  "set_flag f P = P\<lparr>flags := flags P OR f\<rparr>"

definition http_message_needs_eof :: "'d http_parser \<Rightarrow> bool" where
  "http_message_needs_eof P =
    (if ptype P = HTTP_REQUEST then False
     else if status_code P div 100 = 1 \<or> status_code P = 204 \<or> status_code P = 304 \<or>
             has_flag F_SKIPBODY P then False
     else if has_flag F_CHUNKED P \<or> content_length P \<noteq> ULLONG_MAX then False
     else True)"

definition http_should_keep_alive :: "'d http_parser \<Rightarrow> bool" where
  "http_should_keep_alive P =
    (if http_major P > 0 \<and> http_minor P > 0 then
       (if has_flag F_CONNECTION_CLOSE P then False else \<not> http_message_needs_eof P)
     else
       (if \<not> has_flag F_CONNECTION_KEEP_ALIVE P then False else \<not> http_message_needs_eof P))"

definition start_state :: "'d http_parser \<Rightarrow> state" where
  "start_state P = (if ptype P = HTTP_REQUEST then s_start_req else s_start_res)"

definition NEW_MESSAGE :: "'d http_parser \<Rightarrow> state" where
  "NEW_MESSAGE P = (if http_should_keep_alive P then start_state P else s_dead)"

section \<open>Assignments\<close>

definition SET_ERRNO :: "http_errno \<Rightarrow> 'd locals \<Rightarrow> 'd locals" where
  "SET_ERRNO e l = l\<lparr>parser := (parser l)\<lparr>http_errno := e\<rparr>\<rparr>"

definition UPDATE_STATE :: "state \<Rightarrow> 'd locals \<Rightarrow> 'd locals" where
  "UPDATE_STATE s l = l\<lparr>p_state := s\<rparr>"

definition upd_parser :: "('d http_parser \<Rightarrow> 'd http_parser) \<Rightarrow> 'd locals \<Rightarrow> 'd locals" where
  "upd_parser f l = l\<lparr>parser := f (parser l)\<rparr>"

text \<open>\<open>SET_ERRNO(e); goto error;\<close>\<close>

definition error :: "http_errno \<Rightarrow> 'd locals \<Rightarrow> 'd step_result" where
  "error e l = Goto_error (SET_ERRNO e l)"

definition RETURN :: "nat \<Rightarrow> 'd locals \<Rightarrow> 'd step_result" where
  "RETURN v l = Return v ((parser l)\<lparr>state := p_state l\<rparr>)"

definition MARK :: "data_for \<Rightarrow> 'd locals \<Rightarrow> 'd locals" where
  "MARK FOR l = (case marks l FOR of None \<Rightarrow> l\<lparr>marks := (marks l)(FOR := Some (p_off l))\<rparr> | Some _ \<Rightarrow> l)"

definition STRICT_CHECK :: "bool \<Rightarrow> 'd locals \<Rightarrow> ('d locals \<Rightarrow> 'd step_result) \<Rightarrow> 'd step_result" where
  "STRICT_CHECK cond l k = (if cond then error HPE_STRICT l else k l)"

definition COUNT_HEADER_SIZE :: "nat \<Rightarrow> 'd locals \<Rightarrow> ('d locals \<Rightarrow> 'd step_result) \<Rightarrow> 'd step_result" where
  "COUNT_HEADER_SIZE v l k =
    (let l' = upd_parser (\<lambda>P. P\<lparr>nread := nread P + of_nat v\<rparr>) l in
     if nread (parser l') > HTTP_MAX_HEADER_SIZE then error HPE_HEADER_OVERFLOW l' else k l')"

definition assertion :: "bool \<Rightarrow> 'd step_result \<Rightarrow> 'd step_result" where
  "assertion b r = (if b then r else Fault Assertion_failed)"

section \<open>Callbacks\<close>

primrec on_notify :: "notify_for \<Rightarrow> 'd http_parser_settings \<Rightarrow> 'd http_cb option" where
  "on_notify N_message_begin S = on_message_begin S"
| "on_notify N_message_complete S = on_message_complete S"
| "on_notify N_chunk_header S = on_chunk_header S"
| "on_notify N_chunk_complete S = on_chunk_complete S"

primrec HPE_CB_notify :: "notify_for \<Rightarrow> http_errno" where
  "HPE_CB_notify N_message_begin = HPE_CB_message_begin"
| "HPE_CB_notify N_message_complete = HPE_CB_message_complete"
| "HPE_CB_notify N_chunk_header = HPE_CB_chunk_header"
| "HPE_CB_notify N_chunk_complete = HPE_CB_chunk_complete"

primrec on_data :: "data_for \<Rightarrow> 'd http_parser_settings \<Rightarrow> 'd http_data_cb option" where
  "on_data D_header_field S = on_header_field S"
| "on_data D_header_value S = on_header_value S"
| "on_data D_url S = on_url S"
| "on_data D_body S = on_body S"
| "on_data D_status S = on_status S"

primrec HPE_CB_data :: "data_for \<Rightarrow> http_errno" where
  "HPE_CB_data D_header_field = HPE_CB_header_field"
| "HPE_CB_data D_header_value = HPE_CB_header_value"
| "HPE_CB_data D_url = HPE_CB_url"
| "HPE_CB_data D_body = HPE_CB_body"
| "HPE_CB_data D_status = HPE_CB_status"

text \<open>What both callback macros do once the callback has returned \<open>r\<close> and the parser
  \<open>Q\<close>: record a failure, reload \<open>p_state\<close>, and leave with \<open>er\<close> when the parser is no
  longer in \<open>HPE_OK\<close> (failed or paused).\<close>

definition after_callback ::
  "http_errno \<Rightarrow> nat \<Rightarrow> int \<times> 'd http_parser \<Rightarrow> 'd locals \<Rightarrow> ('d locals \<Rightarrow> 'd step_result) \<Rightarrow> 'd step_result" where
  "after_callback e er rq l k =
    (let Q = (if fst rq \<noteq> 0 then (snd rq)\<lparr>http_errno := e\<rparr> else snd rq);
         l' = UPDATE_STATE (state Q) (l\<lparr>parser := Q\<rparr>)
     in if http_errno Q \<noteq> HPE_OK then Return er Q else k l')"

definition CALLBACK_NOTIFY_ER ::
  "'d env \<Rightarrow> notify_for \<Rightarrow> nat \<Rightarrow> 'd locals \<Rightarrow> ('d locals \<Rightarrow> 'd step_result) \<Rightarrow> 'd step_result" where
  "CALLBACK_NOTIFY_ER E FOR er l k =
    assertion (http_errno (parser l) = HPE_OK)
      (case on_notify FOR (settings E) of
         None \<Rightarrow> k l
       | Some cb \<Rightarrow>
           after_callback (HPE_CB_notify FOR) er (cb ((parser l)\<lparr>state := p_state l\<rparr>)) l k)"

definition CALLBACK_NOTIFY ::
  "'d env \<Rightarrow> notify_for \<Rightarrow> 'd locals \<Rightarrow> ('d locals \<Rightarrow> 'd step_result) \<Rightarrow> 'd step_result" where
  "CALLBACK_NOTIFY E FOR l k = CALLBACK_NOTIFY_ER E FOR (p_off l + 1) l k"

definition CALLBACK_NOTIFY_NOADVANCE ::
  "'d env \<Rightarrow> notify_for \<Rightarrow> 'd locals \<Rightarrow> ('d locals \<Rightarrow> 'd step_result) \<Rightarrow> 'd step_result" where
  "CALLBACK_NOTIFY_NOADVANCE E FOR l k = CALLBACK_NOTIFY_ER E FOR (p_off l) l k"

text \<open>\<open>CALLBACK_DATA_(FOR, p - FOR_mark + extra, er)\<close>: the bytes passed to the callback must
  lie inside the buffer.\<close>

definition CALLBACK_DATA_ER ::
  "'d env \<Rightarrow> data_for \<Rightarrow> nat \<Rightarrow> nat \<Rightarrow> 'd locals \<Rightarrow> ('d locals \<Rightarrow> 'd step_result) \<Rightarrow> 'd step_result" where
  "CALLBACK_DATA_ER E FOR extra er l k =
    assertion (http_errno (parser l) = HPE_OK)
      (case marks l FOR of
         None \<Rightarrow> k l
       | Some m \<Rightarrow>
           (case on_data FOR (settings E) of
              None \<Rightarrow> k (l\<lparr>marks := (marks l)(FOR := None)\<rparr>)
            | Some cb \<Rightarrow>
                if m \<le> p_off l \<and> p_off l + extra \<le> length (buf E) then
                  after_callback (HPE_CB_data FOR) er
                    (cb ((parser l)\<lparr>state := p_state l\<rparr>) (take (p_off l - m + extra) (drop m (buf E))))
                    l (\<lambda>l. k (l\<lparr>marks := (marks l)(FOR := None)\<rparr>))
                else Fault Out_of_bounds))"

definition CALLBACK_DATA ::
  "'d env \<Rightarrow> data_for \<Rightarrow> 'd locals \<Rightarrow> ('d locals \<Rightarrow> 'd step_result) \<Rightarrow> 'd step_result" where
  "CALLBACK_DATA E FOR l k = CALLBACK_DATA_ER E FOR 0 (p_off l + 1) l k"

definition CALLBACK_DATA_NOADVANCE ::
  "'d env \<Rightarrow> data_for \<Rightarrow> 'd locals \<Rightarrow> ('d locals \<Rightarrow> 'd step_result) \<Rightarrow> 'd step_result" where
  "CALLBACK_DATA_NOADVANCE E FOR l k = CALLBACK_DATA_ER E FOR 0 (p_off l) l k"

end
