(* ===== verification/HttpUrl.thy ===== *)
theory HttpUrl
  imports HttpMacros
begin

text \<open>
  The URL parser of \<open>http_parser.c\<close>: the character automaton \<open>parse_url_char\<close> that
  \<open>http_parser_execute\<close> also uses, the host automaton \<open>http_parse_host_char\<close>, and
  the two functions that turn their runs into the fields of \<open>struct http_parser_url\<close>.

  A C pointer into a character array is the list of the characters readable from it;
  \<open>http_parser_parse_url\<close> gets the readable memory \<open>mem\<close> and the length
  \<open>buflen\<close> of the URL in it, because \<open>strtoul\<close> may read behind the URL.  A read
  outside the memory is the fault \<open>Out_of_bounds\<close>, a failed \<open>assert\<close> the
  fault \<open>Assertion_failed\<close>.
\<close>

section \<open>The URL automaton\<close>

definition url_server_char :: "char \<Rightarrow> state" where
  "url_server_char c =
    (if c = CHR ''/'' then s_req_path
     else if c = CHR ''?'' then s_req_query_string_start
     else if c = CHR ''@'' then s_req_server_with_at
     else if IS_USERINFO_CHAR c \<or> c = CHR ''['' \<or> c = CHR '']'' then s_req_server
     else s_dead)"

definition parse_url_char :: "state \<Rightarrow> char \<Rightarrow> state" where
  "parse_url_char s c =
    (if c = SP \<or> c = CR \<or> c = LF then s_dead
     else if c = TAB \<or> c = FF then s_dead
     else case s of
       s_req_spaces_before_url \<Rightarrow>
         if c = CHR ''/'' \<or> c = CHR ''*'' then s_req_path
         else if IS_ALPHA c then s_req_schema else s_dead
     | s_req_schema \<Rightarrow>
         if IS_ALPHA c then s
         else if c = CHR '':'' then s_req_schema_slash else s_dead
     | s_req_schema_slash \<Rightarrow> if c = CHR ''/'' then s_req_schema_slash_slash else s_dead
     | s_req_schema_slash_slash \<Rightarrow> if c = CHR ''/'' then s_req_server_start else s_dead
     | s_req_server_with_at \<Rightarrow> if c = CHR ''@'' then s_dead else url_server_char c
     | s_req_server_start \<Rightarrow> url_server_char c
     | s_req_server \<Rightarrow> url_server_char c
     | s_req_path \<Rightarrow>
         if IS_URL_CHAR c then s
         else if c = CHR ''?'' then s_req_query_string_start
         else if c = CHR ''#'' then s_req_fragment_start else s_dead
     | s_req_query_string_start \<Rightarrow>
         if IS_URL_CHAR c then s_req_query_string
         else if c = CHR ''?'' then s_req_query_string
         else if c = CHR ''#'' then s_req_fragment_start else s_dead
     | s_req_query_string \<Rightarrow>
         if IS_URL_CHAR c then s_req_query_string
         else if c = CHR ''?'' then s_req_query_string
         else if c = CHR ''#'' then s_req_fragment_start else s_dead
     | s_req_fragment_start \<Rightarrow>
         if IS_URL_CHAR c then s_req_fragment
         else if c = CHR ''?'' then s_req_fragment
         else if c = CHR ''#'' then s else s_dead
     | s_req_fragment \<Rightarrow>
         if IS_URL_CHAR c then s
         else if c = CHR ''?'' \<or> c = CHR ''#'' then s else s_dead
     | _ \<Rightarrow> s_dead)"

section \<open>The host automaton\<close>

definition host_v6_char :: "http_host_state \<Rightarrow> char \<Rightarrow> http_host_state" where
  "host_v6_char s c =
    (if IS_HEX c \<or> c = CHR '':'' \<or> c = CHR ''.'' then s_http_host_v6
     else if s = s_http_host_v6 \<and> c = CHR ''%'' then s_http_host_v6_zone_start
     else s_http_host_dead)"

definition host_zone_char :: "char \<Rightarrow> http_host_state" where
  "host_zone_char c =
    (if IS_ALPHANUM c \<or> c = CHR ''%'' \<or> c = CHR ''.'' \<or> c = CHR ''-'' \<or> c = CHR ''_'' \<or>
        c = CHR ''~'' then s_http_host_v6_zone
     else s_http_host_dead)"

definition http_parse_host_char :: "http_host_state \<Rightarrow> char \<Rightarrow> http_host_state" where
  "http_parse_host_char s c =
    (case s of
       s_http_userinfo \<Rightarrow>
         if c = CHR ''@'' then s_http_host_start
         else if IS_USERINFO_CHAR c then s_http_userinfo else s_http_host_dead
     | s_http_userinfo_start \<Rightarrow>
         if c = CHR ''@'' then s_http_host_start
         else if IS_USERINFO_CHAR c then s_http_userinfo else s_http_host_dead
     | s_http_host_start \<Rightarrow>
         if c = CHR ''['' then s_http_host_v6_start
         else if IS_HOST_CHAR c then s_http_host else s_http_host_dead
     | s_http_host \<Rightarrow>
         if IS_HOST_CHAR c then s_http_host
         else if c = CHR '':'' then s_http_host_port_start else s_http_host_dead
     | s_http_host_v6_end \<Rightarrow>
         if c = CHR '':'' then s_http_host_port_start else s_http_host_dead
     | s_http_host_v6 \<Rightarrow> if c = CHR '']'' then s_http_host_v6_end else host_v6_char s c
     | s_http_host_v6_start \<Rightarrow> host_v6_char s c
     | s_http_host_v6_zone \<Rightarrow> if c = CHR '']'' then s_http_host_v6_end else host_zone_char c
     | s_http_host_v6_zone_start \<Rightarrow> host_zone_char c
     | s_http_host_port \<Rightarrow> if IS_NUM c then s_http_host_port else s_http_host_dead
     | s_http_host_port_start \<Rightarrow> if IS_NUM c then s_http_host_port else s_http_host_dead
     | _ \<Rightarrow> s_http_host_dead)"

section \<open>URL fields\<close>

datatype http_parser_url_fields =
  UF_SCHEMA | UF_HOST | UF_PORT | UF_PATH | UF_QUERY | UF_FRAGMENT | UF_USERINFO

primrec UF_num :: "http_parser_url_fields \<Rightarrow> nat" where
  "UF_num UF_SCHEMA = 0"
| "UF_num UF_HOST = 1"
| "UF_num UF_PORT = 2"
| "UF_num UF_PATH = 3"
| "UF_num UF_QUERY = 4"
| "UF_num UF_FRAGMENT = 5"
| "UF_num UF_USERINFO = 6"

text \<open>\<open>field_data[i].off\<close> and \<open>field_data[i].len\<close> are \<open>field_off u i\<close> and
  \<open>field_len u i\<close>.\<close>

record http_parser_url =
  field_set :: u16
  port :: u16
  field_off :: "http_parser_url_fields \<Rightarrow> u16"
  field_len :: "http_parser_url_fields \<Rightarrow> u16"

definition UF_bit :: "http_parser_url_fields \<Rightarrow> u16" where
  "UF_bit f = push_bit (UF_num f) 1"

definition has_field :: "http_parser_url_fields \<Rightarrow> http_parser_url \<Rightarrow> bool" where
  "has_field f u \<longleftrightarrow> field_set u AND UF_bit f \<noteq> 0"

definition set_field :: "http_parser_url_fields \<Rightarrow> http_parser_url \<Rightarrow> http_parser_url" where
  "set_field f u = u\<lparr>field_set := field_set u OR UF_bit f\<rparr>"

definition put_off :: "http_parser_url_fields \<Rightarrow> u16 \<Rightarrow> http_parser_url \<Rightarrow> http_parser_url" where
  "put_off f v u = u\<lparr>field_off := (field_off u)(f := v)\<rparr>"

definition put_len :: "http_parser_url_fields \<Rightarrow> u16 \<Rightarrow> http_parser_url \<Rightarrow> http_parser_url" where
  "put_len f v u = u\<lparr>field_len := (field_len u)(f := v)\<rparr>"

definition inc_len :: "http_parser_url_fields \<Rightarrow> http_parser_url \<Rightarrow> http_parser_url" where
  "inc_len f u = put_len f (field_len u f + 1) u"

definition http_parser_url_init :: http_parser_url where
  "http_parser_url_init = \<lparr>field_set = 0, port = 0, field_off = (\<lambda>_. 0), field_len = (\<lambda>_. 0)\<rparr>"

subsection \<open>\<open>http_parse_host\<close>\<close>

text \<open>What the loop body does with the state change \<open>s \<rightarrow> new_s\<close> at offset \<open>p\<close>.\<close>

definition host_field_step ::
  "http_host_state \<Rightarrow> http_host_state \<Rightarrow> nat \<Rightarrow> http_parser_url \<Rightarrow> http_parser_url" where
  "host_field_step s new_s p u =
    (case new_s of
       s_http_host \<Rightarrow>
         inc_len UF_HOST (if s \<noteq> s_http_host then put_off UF_HOST (of_nat p) u else u)
     | s_http_host_v6 \<Rightarrow>
         inc_len UF_HOST (if s \<noteq> s_http_host_v6 then put_off UF_HOST (of_nat p) u else u)
     | s_http_host_v6_zone_start \<Rightarrow> inc_len UF_HOST u
     | s_http_host_v6_zone \<Rightarrow> inc_len UF_HOST u
     | s_http_host_port \<Rightarrow>
         inc_len UF_PORT
           (if s \<noteq> s_http_host_port
            then set_field UF_PORT (put_len UF_PORT 0 (put_off UF_PORT (of_nat p) u)) else u)
     | s_http_userinfo \<Rightarrow>
         inc_len UF_USERINFO
           (if s \<noteq> s_http_userinfo
            then set_field UF_USERINFO (put_len UF_USERINFO 0 (put_off UF_USERINFO (of_nat p) u)) else u)
     | _ \<Rightarrow> u)"

text \<open>The loop, over the \<open>n\<close> characters from offset \<open>p\<close> on.  \<open>Inr None\<close> is the early
  \<open>return 1\<close>.\<close>

fun http_parse_host_loop ::
  "string \<Rightarrow> nat \<Rightarrow> nat \<Rightarrow> http_host_state \<Rightarrow> http_parser_url \<Rightarrow>
   fault + (http_host_state \<times> http_parser_url) option" where
  "http_parse_host_loop mem p 0 s u = Inr (Some (s, u))"
| "http_parse_host_loop mem p (Suc n) s u =
    (if p < length mem then
       (let new_s = http_parse_host_char s (mem ! p) in
        if new_s = s_http_host_dead then Inr None
        else http_parse_host_loop mem (Suc p) n new_s (host_field_step s new_s p u))
     else Inl Out_of_bounds)"

definition host_end_ok :: "http_host_state \<Rightarrow> bool" where
  "host_end_ok s \<longleftrightarrow> s \<notin> {s_http_host_start, s_http_host_v6_start, s_http_host_v6,
     s_http_host_v6_zone_start, s_http_host_v6_zone, s_http_host_port_start,
     s_http_userinfo, s_http_userinfo_start}"

text \<open>\<open>None\<close> is the return value 1 (failure), \<open>Some u\<close> the return value 0 with the
  updated fields.\<close>

definition http_parse_host :: "string \<Rightarrow> http_parser_url \<Rightarrow> bool \<Rightarrow> fault + http_parser_url option" where
  "http_parse_host mem u found_at =
    (if \<not> has_field UF_HOST u then Inl Assertion_failed
     else
       let off = unat (field_off u UF_HOST); n = unat (field_len u UF_HOST);
           u = put_len UF_HOST 0 u;
           s = (if found_at then s_http_userinfo_start else s_http_host_start)
       in case http_parse_host_loop mem off n s u of
            Inl f \<Rightarrow> Inl f
          | Inr None \<Rightarrow> Inr None
          | Inr (Some (s, u)) \<Rightarrow> if host_end_ok s then Inr (Some u) else Inr None)"

subsection \<open>\<open>strtoul\<close> in base 10\<close>

text \<open>\<open>strtoul(s, NULL, 10)\<close> of the C library: white space, an optional sign, digits up to
  the first other character, the value capped at \<open>ULONG_MAX\<close>.  \<open>None\<close> when the scan
  leaves the readable memory.  \<open>unsigned long\<close> has 32 bits on the Windows and 32-bit Android
  targets; the one caller only compares the value with \<open>0xffff\<close>, so the width makes no
  difference to it.\<close>

definition ULONG_MAX :: nat where "ULONG_MAX = 2 ^ 32 - 1"

definition isspace :: "char \<Rightarrow> bool" where
  "isspace c \<longleftrightarrow> c = SP \<or> (9 \<le> (of_char c :: nat) \<and> (of_char c :: nat) \<le> 13)"

definition digit_value :: "char \<Rightarrow> nat" where
  "digit_value c = of_char c - of_char (CHR ''0'')"

fun strtoul_digits :: "nat \<Rightarrow> string \<Rightarrow> nat option" where
  "strtoul_digits acc [] = None"
| "strtoul_digits acc (c # cs) =
    (if IS_NUM c then strtoul_digits (10 * acc + digit_value c) cs else Some acc)"

definition strtoul10 :: "string \<Rightarrow> nat option" where
  "strtoul10 mem =
    (case dropWhile isspace mem of
       [] \<Rightarrow> None
     | c # cs \<Rightarrow>
         if c = CHR ''-'' then
           map_option (\<lambda>v. if v > ULONG_MAX then ULONG_MAX else (ULONG_MAX + 1 - v) mod (ULONG_MAX + 1))
             (strtoul_digits 0 cs)
         else map_option (\<lambda>v. min v ULONG_MAX)
             (strtoul_digits 0 (if c = CHR ''+'' then cs else c # cs)))"

subsection \<open>\<open>http_parser_parse_url\<close>\<close>

text \<open>The field the switch in the loop selects for the new state.\<close>

datatype url_step = U_dead | U_skip | U_field http_parser_url_fields | U_unexpected

definition url_step_of :: "state \<Rightarrow> url_step" where
  "url_step_of s =
    (case s of
       s_dead \<Rightarrow> U_dead
     | s_req_schema_slash \<Rightarrow> U_skip
     | s_req_schema_slash_slash \<Rightarrow> U_skip
     | s_req_server_start \<Rightarrow> U_skip
     | s_req_query_string_start \<Rightarrow> U_skip
     | s_req_fragment_start \<Rightarrow> U_skip
     | s_req_schema \<Rightarrow> U_field UF_SCHEMA
     | s_req_server_with_at \<Rightarrow> U_field UF_HOST
     | s_req_server \<Rightarrow> U_field UF_HOST
     | s_req_path \<Rightarrow> U_field UF_PATH
     | s_req_query_string \<Rightarrow> U_field UF_QUERY
     | s_req_fragment \<Rightarrow> U_field UF_FRAGMENT
     | _ \<Rightarrow> U_unexpected)"

text \<open>The loop over the \<open>n\<close> characters from offset \<open>p\<close> on; \<open>old_uf = None\<close> is
  \<open>UF_MAX\<close>.  \<open>Inr None\<close> is the early \<open>return 1\<close>.\<close>

fun parse_url_loop ::
  "string \<Rightarrow> nat \<Rightarrow> nat \<Rightarrow> state \<Rightarrow> http_parser_url_fields option \<Rightarrow> bool \<Rightarrow> http_parser_url \<Rightarrow>
   fault + (bool \<times> http_parser_url) option" where
  "parse_url_loop mem p 0 s old_uf found_at u = Inr (Some (found_at, u))"
| "parse_url_loop mem p (Suc n) s old_uf found_at u =
    (if p < length mem then
       (let s = parse_url_char s (mem ! p);
            found_at = (found_at \<or> s = s_req_server_with_at)
        in case url_step_of s of
             U_dead \<Rightarrow> Inr None
           | U_unexpected \<Rightarrow> Inl Assertion_failed
           | U_skip \<Rightarrow> parse_url_loop mem (Suc p) n s old_uf found_at u
           | U_field uf \<Rightarrow>
               if old_uf = Some uf
               then parse_url_loop mem (Suc p) n s old_uf found_at (inc_len uf u)
               else parse_url_loop mem (Suc p) n s (Some uf) found_at
                      (set_field uf (put_len uf 1 (put_off uf (of_nat p) u))))
     else Inl Out_of_bounds)"

definition parse_url_port :: "string \<Rightarrow> http_parser_url \<Rightarrow> fault + http_parser_url option" where
  "parse_url_port mem u =
    (if has_field UF_PORT u then
       (case strtoul10 (drop (unat (field_off u UF_PORT)) mem) of
          None \<Rightarrow> Inl Out_of_bounds
        | Some v \<Rightarrow> if v > 0xffff then Inr None else Inr (Some (u\<lparr>port := of_nat v\<rparr>)))
     else Inr (Some u))"

text \<open>The function: \<open>Inr None\<close> is the return value 1, \<open>Inr (Some u)\<close> the return value 0
  with the resulting structure.\<close>

definition http_parser_parse_url ::
  "string \<Rightarrow> nat \<Rightarrow> bool \<Rightarrow> http_parser_url \<Rightarrow> fault + http_parser_url option" where
  "http_parser_parse_url mem buflen is_connect u =
    (let u = u\<lparr>port := 0, field_set := 0\<rparr>;
         s = (if is_connect then s_req_server_start else s_req_spaces_before_url)
     in case parse_url_loop mem 0 buflen s None False u of
          Inl f \<Rightarrow> Inl f
        | Inr None \<Rightarrow> Inr None
        | Inr (Some (found_at, u)) \<Rightarrow>
            if has_field UF_SCHEMA u \<and> \<not> has_field UF_HOST u then Inr None
            else case (if has_field UF_HOST u then http_parse_host mem u found_at else Inr (Some u)) of
                Inl f \<Rightarrow> Inl f
              | Inr None \<Rightarrow> Inr None
              | Inr (Some u) \<Rightarrow>
                  if is_connect \<and> field_set u \<noteq> UF_bit UF_HOST OR UF_bit UF_PORT then Inr None
                  else parse_url_port mem u)"

end
