(* ===== verification/HttpExec.thy ===== *)
theory HttpExec
  imports HttpUrl
begin

text \<open>
  \<open>http_parser_execute\<close> of \<open>http_parser.c\<close>: one definition per \<open>case\<close> of its
  switch, in the order of the source, the inner loops over header names and header values,
  the main loop, and the entry and exit code.

  The main loop is a partial function: \<open>None\<close> means that it does not return, which the C
  code cannot exclude when a callback rewrites \<open>parser->state\<close> at every
  \<open>goto reexecute\<close>.  Theory \<open>HttpTotal\<close> proves that it returns for callbacks that keep
  the parser's private fields.
\<close>

section \<open>Start of a message\<close>

definition digit_of :: "char \<Rightarrow> 'a::len word" where
  "digit_of c = of_char c - of_char (CHR ''0'')"

definition case_s_dead :: "'d locals \<Rightarrow> 'd step_result" where
  "case_s_dead l =
    (if ch l = CR \<or> ch l = LF then Break l else error HPE_CLOSED_CONNECTION l)"

definition reset_message :: "'d locals \<Rightarrow> 'd locals" where
  "reset_message l = upd_parser (\<lambda>P. P\<lparr>flags := 0, content_length := ULLONG_MAX\<rparr>) l"

definition case_s_start_req_or_res :: "'d env \<Rightarrow> 'd locals \<Rightarrow> 'd step_result" where
  "case_s_start_req_or_res E l =
    (if ch l = CR \<or> ch l = LF then Break l
     else let l = reset_message l in
       if ch l = CHR ''H'' then
         CALLBACK_NOTIFY E N_message_begin (UPDATE_STATE s_res_or_resp_H l) Break
       else Reexecute (UPDATE_STATE s_start_req (upd_parser (\<lambda>P. P\<lparr>ptype := HTTP_REQUEST\<rparr>) l)))"

definition case_s_res_or_resp_H :: "'d locals \<Rightarrow> 'd step_result" where
  "case_s_res_or_resp_H l =
    (if ch l = CHR ''T'' then
       Break (UPDATE_STATE s_res_HT (upd_parser (\<lambda>P. P\<lparr>ptype := HTTP_RESPONSE\<rparr>) l))
     else if ch l \<noteq> CHR ''E'' then error HPE_INVALID_CONSTANT l
     else Break (UPDATE_STATE s_req_method
            (upd_parser (\<lambda>P. P\<lparr>ptype := HTTP_REQUEST, method := HTTP_HEAD, index := 2\<rparr>) l)))"

section \<open>Status line\<close>

definition case_s_start_res :: "'d env \<Rightarrow> 'd locals \<Rightarrow> 'd step_result" where
  "case_s_start_res E l =
    (let l = reset_message l in
     if ch l = CHR ''H'' then CALLBACK_NOTIFY E N_message_begin (UPDATE_STATE s_res_H l) Break
     else if ch l = CR \<or> ch l = LF then CALLBACK_NOTIFY E N_message_begin l Break
     else error HPE_INVALID_CONSTANT l)"

definition strict_expect :: "char \<Rightarrow> state \<Rightarrow> 'd locals \<Rightarrow> 'd step_result" where
  "strict_expect c s l = STRICT_CHECK (ch l \<noteq> c) l (\<lambda>l. Break (UPDATE_STATE s l))"

definition case_s_res_H :: "'d locals \<Rightarrow> 'd step_result" where
  "case_s_res_H l = strict_expect (CHR ''T'') s_res_HT l"

definition case_s_res_HT :: "'d locals \<Rightarrow> 'd step_result" where
  "case_s_res_HT l = strict_expect (CHR ''T'') s_res_HTT l"

definition case_s_res_HTT :: "'d locals \<Rightarrow> 'd step_result" where
  "case_s_res_HTT l = strict_expect (CHR ''P'') s_res_HTTP l"

definition case_s_res_HTTP :: "'d locals \<Rightarrow> 'd step_result" where
  "case_s_res_HTTP l = strict_expect (CHR ''/'') s_res_first_http_major l"

definition case_s_res_first_http_major :: "'d locals \<Rightarrow> 'd step_result" where
  "case_s_res_first_http_major l =
    (if ch l < CHR ''0'' \<or> ch l > CHR ''9'' then error HPE_INVALID_VERSION l
     else Break (UPDATE_STATE s_res_http_major
            (upd_parser (\<lambda>P. P\<lparr>http_major := digit_of (ch l)\<rparr>) l)))"

text \<open>The digit-accumulating part shared by the major version states of both message kinds,
  and by the minor version states.\<close>

definition major_digit :: "'d locals \<Rightarrow> 'd step_result" where
  "major_digit l =
    (if \<not> IS_NUM (ch l) then error HPE_INVALID_VERSION l
     else let l = upd_parser (\<lambda>P. P\<lparr>http_major := http_major P * 10 + digit_of (ch l)\<rparr>) l in
       if http_major (parser l) > 999 then error HPE_INVALID_VERSION l else Break l)"

definition minor_digit :: "'d locals \<Rightarrow> 'd step_result" where
  "minor_digit l =
    (if \<not> IS_NUM (ch l) then error HPE_INVALID_VERSION l
     else let l = upd_parser (\<lambda>P. P\<lparr>http_minor := http_minor P * 10 + digit_of (ch l)\<rparr>) l in
       if http_minor (parser l) > 999 then error HPE_INVALID_VERSION l else Break l)"

definition case_s_res_http_major :: "'d locals \<Rightarrow> 'd step_result" where
  "case_s_res_http_major l =
    (if ch l = CHR ''.'' then Break (UPDATE_STATE s_res_first_http_minor l) else major_digit l)"

definition case_s_res_first_http_minor :: "'d locals \<Rightarrow> 'd step_result" where
  "case_s_res_first_http_minor l =
    (if \<not> IS_NUM (ch l) then error HPE_INVALID_VERSION l
     else Break (UPDATE_STATE s_res_http_minor
            (upd_parser (\<lambda>P. P\<lparr>http_minor := digit_of (ch l)\<rparr>) l)))"

definition case_s_res_http_minor :: "'d locals \<Rightarrow> 'd step_result" where
  "case_s_res_http_minor l =
    (if ch l = SP then Break (UPDATE_STATE s_res_first_status_code l) else minor_digit l)"

definition case_s_res_first_status_code :: "'d locals \<Rightarrow> 'd step_result" where
  "case_s_res_first_status_code l =
    (if \<not> IS_NUM (ch l) then
       (if ch l = SP then Break l else error HPE_INVALID_STATUS l)
     else Break (UPDATE_STATE s_res_status_code
            (upd_parser (\<lambda>P. P\<lparr>status_code := digit_of (ch l)\<rparr>) l)))"

definition case_s_res_status_code :: "'d locals \<Rightarrow> 'd step_result" where
  "case_s_res_status_code l =
    (if \<not> IS_NUM (ch l) then
       (if ch l = SP then Break (UPDATE_STATE s_res_status_start l)
        else if ch l = CR then Break (UPDATE_STATE s_res_line_almost_done l)
        else if ch l = LF then Break (UPDATE_STATE s_header_field_start l)
        else error HPE_INVALID_STATUS l)
     else let l = upd_parser (\<lambda>P. P\<lparr>status_code := status_code P * 10 + digit_of (ch l)\<rparr>) l in
       if status_code (parser l) > 999 then error HPE_INVALID_STATUS l else Break l)"

definition case_s_res_status_start :: "'d locals \<Rightarrow> 'd step_result" where
  "case_s_res_status_start l =
    (if ch l = CR then Break (UPDATE_STATE s_res_line_almost_done l)
     else if ch l = LF then Break (UPDATE_STATE s_header_field_start l)
     else Break (upd_parser (\<lambda>P. P\<lparr>index := 0\<rparr>) (UPDATE_STATE s_res_status (MARK D_status l))))"

definition case_s_res_status :: "'d env \<Rightarrow> 'd locals \<Rightarrow> 'd step_result" where
  "case_s_res_status E l =
    (if ch l = CR then CALLBACK_DATA E D_status (UPDATE_STATE s_res_line_almost_done l) Break
     else if ch l = LF then CALLBACK_DATA E D_status (UPDATE_STATE s_header_field_start l) Break
     else Break l)"

definition case_s_res_line_almost_done :: "'d locals \<Rightarrow> 'd step_result" where
  "case_s_res_line_almost_done l = strict_expect LF s_header_field_start l"

section \<open>Request line\<close>

definition first_method :: "char \<Rightarrow> http_method option" where
  "first_method c =
    (if c = CHR ''A'' then Some HTTP_ACL
     else if c = CHR ''B'' then Some HTTP_BIND
     else if c = CHR ''C'' then Some HTTP_CONNECT
     else if c = CHR ''D'' then Some HTTP_DELETE
     else if c = CHR ''G'' then Some HTTP_GET
     else if c = CHR ''H'' then Some HTTP_HEAD
     else if c = CHR ''L'' then Some HTTP_LOCK
     else if c = CHR ''M'' then Some HTTP_MKCOL
     else if c = CHR ''N'' then Some HTTP_NOTIFY
     else if c = CHR ''O'' then Some HTTP_OPTIONS
     else if c = CHR ''P'' then Some HTTP_POST
     else if c = CHR ''R'' then Some HTTP_REPORT
     else if c = CHR ''S'' then Some HTTP_SUBSCRIBE
     else if c = CHR ''T'' then Some HTTP_TRACE
     else if c = CHR ''U'' then Some HTTP_UNLOCK
     else None)"

definition case_s_start_req :: "'d env \<Rightarrow> 'd locals \<Rightarrow> 'd step_result" where
  "case_s_start_req E l =
    (if ch l = CR \<or> ch l = LF then Break l
     else let l = reset_message l in
       if \<not> IS_ALPHA (ch l) then error HPE_INVALID_METHOD l
       else let l = upd_parser (\<lambda>P. P\<lparr>method := HTTP_DELETE, index := 1\<rparr>) l in
         case first_method (ch l) of
           None \<Rightarrow> error HPE_INVALID_METHOD l
         | Some m \<Rightarrow>
             CALLBACK_NOTIFY E N_message_begin
               (UPDATE_STATE s_req_method (upd_parser (\<lambda>P. P\<lparr>method := m\<rparr>) l)) Break)"

text \<open>The switch over \<open>method << 16 | index << 8 | ch\<close>: the current guess, the position
  and the letter that proves the guess wrong select another method.\<close>

definition method_switch :: "http_method \<Rightarrow> nat \<Rightarrow> char \<Rightarrow> http_method option" where
  "method_switch m i c =
    (if (m, i, c) = (HTTP_POST, 1, CHR ''U'') then Some HTTP_PUT
     else if (m, i, c) = (HTTP_POST, 1, CHR ''A'') then Some HTTP_PATCH
     else if (m, i, c) = (HTTP_CONNECT, 1, CHR ''H'') then Some HTTP_CHECKOUT
     else if (m, i, c) = (HTTP_CONNECT, 2, CHR ''P'') then Some HTTP_COPY
     else if (m, i, c) = (HTTP_MKCOL, 1, CHR ''O'') then Some HTTP_MOVE
     else if (m, i, c) = (HTTP_MKCOL, 1, CHR ''E'') then Some HTTP_MERGE
     else if (m, i, c) = (HTTP_MKCOL, 2, CHR ''A'') then Some HTTP_MKACTIVITY
     else if (m, i, c) = (HTTP_MKCOL, 3, CHR ''A'') then Some HTTP_MKCALENDAR
     else if (m, i, c) = (HTTP_SUBSCRIBE, 1, CHR ''E'') then Some HTTP_SEARCH
     else if (m, i, c) = (HTTP_REPORT, 2, CHR ''B'') then Some HTTP_REBIND
     else if (m, i, c) = (HTTP_POST, 1, CHR ''R'') then Some HTTP_PROPFIND
     else if (m, i, c) = (HTTP_PROPFIND, 4, CHR ''P'') then Some HTTP_PROPPATCH
     else if (m, i, c) = (HTTP_PUT, 2, CHR ''R'') then Some HTTP_PURGE
     else if (m, i, c) = (HTTP_LOCK, 1, CHR ''I'') then Some HTTP_LINK
     else if (m, i, c) = (HTTP_UNLOCK, 2, CHR ''S'') then Some HTTP_UNSUBSCRIBE
     else if (m, i, c) = (HTTP_UNLOCK, 2, CHR ''B'') then Some HTTP_UNBIND
     else if (m, i, c) = (HTTP_UNLOCK, 3, CHR ''I'') then Some HTTP_UNLINK
     else None)"

definition inc_index :: "'d locals \<Rightarrow> 'd locals" where
  "inc_index l = upd_parser (\<lambda>P. P\<lparr>index := index P + 1\<rparr>) l"

definition case_s_req_method :: "'d locals \<Rightarrow> 'd step_result" where
  "case_s_req_method l =
    (let m = method (parser l); i = unat (index (parser l)) in
     if ch l = NUL then error HPE_INVALID_METHOD l
     else case cstr_at (method_strings ! http_method_num m) i of
       None \<Rightarrow> Fault Out_of_bounds
     | Some mc \<Rightarrow>
         if ch l = SP \<and> mc = NUL then Break (inc_index (UPDATE_STATE s_req_spaces_before_url l))
         else if ch l = mc then Break (inc_index l)
         else if IS_ALPHA (ch l) then
           (case method_switch m i (ch l) of
              None \<Rightarrow> error HPE_INVALID_METHOD l
            | Some m' \<Rightarrow> Break (inc_index (upd_parser (\<lambda>P. P\<lparr>method := m'\<rparr>) l)))
         else if ch l = CHR ''-'' \<and> i = 1 \<and> m = HTTP_MKCOL then
           Break (inc_index (upd_parser (\<lambda>P. P\<lparr>method := HTTP_MSEARCH\<rparr>) l))
         else error HPE_INVALID_METHOD l)"

text \<open>\<open>UPDATE_STATE(parse_url_char(CURRENT_STATE(), ch))\<close> and the test for \<open>s_dead\<close>.\<close>

definition url_char_step :: "'d locals \<Rightarrow> 'd step_result" where
  "url_char_step l =
    (let l = UPDATE_STATE (parse_url_char (p_state l) (ch l)) l in
     if p_state l = s_dead then error HPE_INVALID_URL l else Break l)"

definition case_s_req_spaces_before_url :: "'d locals \<Rightarrow> 'd step_result" where
  "case_s_req_spaces_before_url l =
    (if ch l = SP then Break l
     else let l = MARK D_url l;
              l = (if method (parser l) = HTTP_CONNECT then UPDATE_STATE s_req_server_start l else l)
       in url_char_step l)"

definition case_url_no_space :: "'d locals \<Rightarrow> 'd step_result" where
  "case_url_no_space l =
    (if ch l = SP \<or> ch l = CR \<or> ch l = LF then error HPE_INVALID_URL l else url_char_step l)"

definition case_url :: "'d env \<Rightarrow> 'd locals \<Rightarrow> 'd step_result" where
  "case_url E l =
    (if ch l = SP then CALLBACK_DATA E D_url (UPDATE_STATE s_req_http_start l) Break
     else if ch l = CR \<or> ch l = LF then
       CALLBACK_DATA E D_url
         (UPDATE_STATE (if ch l = CR then s_req_line_almost_done else s_header_field_start)
            (upd_parser (\<lambda>P. P\<lparr>http_major := 0, http_minor := 9\<rparr>) l)) Break
     else url_char_step l)"

definition case_s_req_http_start :: "'d locals \<Rightarrow> 'd step_result" where
  "case_s_req_http_start l =
    (if ch l = CHR ''H'' then Break (UPDATE_STATE s_req_http_H l)
     else if ch l = SP then Break l
     else error HPE_INVALID_CONSTANT l)"

definition case_s_req_http_H :: "'d locals \<Rightarrow> 'd step_result" where
  "case_s_req_http_H l = strict_expect (CHR ''T'') s_req_http_HT l"

definition case_s_req_http_HT :: "'d locals \<Rightarrow> 'd step_result" where
  "case_s_req_http_HT l = strict_expect (CHR ''T'') s_req_http_HTT l"

definition case_s_req_http_HTT :: "'d locals \<Rightarrow> 'd step_result" where
  "case_s_req_http_HTT l = strict_expect (CHR ''P'') s_req_http_HTTP l"

definition case_s_req_http_HTTP :: "'d locals \<Rightarrow> 'd step_result" where
  "case_s_req_http_HTTP l = strict_expect (CHR ''/'') s_req_first_http_major l"

definition case_s_req_first_http_major :: "'d locals \<Rightarrow> 'd step_result" where
  "case_s_req_first_http_major l =
    (if ch l < CHR ''1'' \<or> ch l > CHR ''9'' then error HPE_INVALID_VERSION l
     else Break (UPDATE_STATE s_req_http_major
            (upd_parser (\<lambda>P. P\<lparr>http_major := digit_of (ch l)\<rparr>) l)))"

definition case_s_req_http_major :: "'d locals \<Rightarrow> 'd step_result" where
  "case_s_req_http_major l =
    (if ch l = CHR ''.'' then Break (UPDATE_STATE s_req_first_http_minor l) else major_digit l)"

definition case_s_req_first_http_minor :: "'d locals \<Rightarrow> 'd step_result" where
  "case_s_req_first_http_minor l =
    (if \<not> IS_NUM (ch l) then error HPE_INVALID_VERSION l
     else Break (UPDATE_STATE s_req_http_minor
            (upd_parser (\<lambda>P. P\<lparr>http_minor := digit_of (ch l)\<rparr>) l)))"

definition case_s_req_http_minor :: "'d locals \<Rightarrow> 'd step_result" where
  "case_s_req_http_minor l =
    (if ch l = CR then Break (UPDATE_STATE s_req_line_almost_done l)
     else if ch l = LF then Break (UPDATE_STATE s_header_field_start l)
     else minor_digit l)"

definition case_s_req_line_almost_done :: "'d locals \<Rightarrow> 'd step_result" where
  "case_s_req_line_almost_done l =
    (if ch l \<noteq> LF then error HPE_LF_EXPECTED l else Break (UPDATE_STATE s_header_field_start l))"

end
