(* ===== verification/HttpHeaders.thy ===== *)
theory HttpHeaders
  imports HttpExec
begin

text \<open>
  The header states of \<open>http_parser_execute\<close>: header names with the recognition of the
  headers that matter to the framing of the message, header values, folded lines and the end
  of the headers.
\<close>

section \<open>Header names\<close>

definition field_header_state :: "char \<Rightarrow> header_states" where
  "field_header_state c =
    (if c = CHR ''c'' then h_C
     else if c = CHR ''p'' then h_matching_proxy_connection
     else if c = CHR ''t'' then h_matching_transfer_encoding
     else if c = CHR ''u'' then h_matching_upgrade
     else h_general)"

definition case_s_header_field_start :: "'d locals \<Rightarrow> 'd step_result" where
  "case_s_header_field_start l =
    (if ch l = CR then Break (UPDATE_STATE s_headers_almost_done l)
     else if ch l = LF then Reexecute (UPDATE_STATE s_headers_almost_done l)
     else let c = TOKEN (ch l) in
       if c = NUL then error HPE_INVALID_HEADER_TOKEN l
       else Break (upd_parser (\<lambda>P. P\<lparr>index := 0, header_state := field_header_state c\<rparr>)
              (UPDATE_STATE s_header_field (MARK D_header_field l))))"

text \<open>One comparison of \<open>c\<close> with \<open>str[index]\<close>, the index already incremented: the
  pattern \<open>index > sizeof(str)-1 || c != str[index]\<close>, then \<open>index == sizeof(str)-2\<close>, of
  all matching states.\<close>

definition match_char :: "string \<Rightarrow> 7 word \<Rightarrow> char \<Rightarrow> 'h \<Rightarrow> 'h \<Rightarrow> 'h \<Rightarrow> 'h" where
  "match_char str i c mismatch complete current =
    (if unat i > length str \<or> cstr_at str (unat i) \<noteq> Some c then mismatch
     else if unat i = length str - 1 then complete
     else current)"

text \<open>The switch over \<open>header_state\<close> for one token character \<open>c\<close> (lower case) of a
  header name; \<open>x\<close> is the character itself.  \<open>Inl None\<close> is the failed
  \<open>assert(0 && "Unknown header_state")\<close>, \<open>Inl (Some P)\<close> the jump to \<open>error\<close>.\<close>

definition header_field_char ::
  "'d http_parser \<Rightarrow> char \<Rightarrow> char \<Rightarrow> 'd http_parser option + 'd http_parser" where
  "header_field_char P c x =
    (let i = index P + 1 in
     case header_state P of
       h_general \<Rightarrow> Inr P
     | h_C \<Rightarrow> Inr (P\<lparr>index := i, header_state := (if c = CHR ''o'' then h_CO else h_general)\<rparr>)
     | h_CO \<Rightarrow> Inr (P\<lparr>index := i, header_state := (if c = CHR ''n'' then h_CON else h_general)\<rparr>)
     | h_CON \<Rightarrow> Inr (P\<lparr>index := i, header_state :=
         (if c = CHR ''n'' then h_matching_connection
          else if c = CHR ''t'' then h_matching_content_length else h_general)\<rparr>)
     | h_matching_connection \<Rightarrow>
         Inr (P\<lparr>index := i, header_state :=
           match_char CONNECTION i c h_general h_connection h_matching_connection\<rparr>)
     | h_matching_proxy_connection \<Rightarrow>
         Inr (P\<lparr>index := i, header_state :=
           match_char PROXY_CONNECTION i c h_general h_connection h_matching_proxy_connection\<rparr>)
     | h_matching_content_length \<Rightarrow>
         (case match_char CONTENT_LENGTH i c h_general h_content_length h_matching_content_length of
            h_content_length \<Rightarrow>
              if has_flag F_CONTENTLENGTH P
              then Inl (Some (P\<lparr>index := i, http_errno := HPE_UNEXPECTED_CONTENT_LENGTH\<rparr>))
              else Inr (set_flag F_CONTENTLENGTH (P\<lparr>index := i, header_state := h_content_length\<rparr>))
          | h \<Rightarrow> Inr (P\<lparr>index := i, header_state := h\<rparr>))
     | h_matching_transfer_encoding \<Rightarrow>
         Inr (P\<lparr>index := i, header_state :=
           match_char TRANSFER_ENCODING i c h_general h_transfer_encoding h_matching_transfer_encoding\<rparr>)
     | h_matching_upgrade \<Rightarrow>
         Inr (P\<lparr>index := i, header_state :=
           match_char UPGRADE i c h_general h_upgrade h_matching_upgrade\<rparr>)
     | h_connection \<Rightarrow> Inr (if x \<noteq> SP then P\<lparr>header_state := h_general\<rparr> else P)
     | h_content_length \<Rightarrow> Inr (if x \<noteq> SP then P\<lparr>header_state := h_general\<rparr> else P)
     | h_transfer_encoding \<Rightarrow> Inr (if x \<noteq> SP then P\<lparr>header_state := h_general\<rparr> else P)
     | h_upgrade \<Rightarrow> Inr (if x \<noteq> SP then P\<lparr>header_state := h_general\<rparr> else P)
     | _ \<Rightarrow> Inl None)"

text \<open>The loop over the rest \<open>xs\<close> of the buffer.  The result is the parser, the number of
  characters consumed and the character the loop stopped at (\<open>ch\<close> when it ran to the end).
\<close>

fun header_field_loop ::
  "'d http_parser \<Rightarrow> nat \<Rightarrow> char \<Rightarrow> string \<Rightarrow>
   ('d http_parser option \<times> nat \<times> char) + ('d http_parser \<times> nat \<times> char)" where
  "header_field_loop P n y [] = Inr (P, n, y)"
| "header_field_loop P n y (x # xs) =
    (let c = TOKEN x in
     if c = NUL then Inr (P, n, x)
     else case header_field_char P c x of
            Inl e \<Rightarrow> Inl (e, n, x)
          | Inr P' \<Rightarrow> header_field_loop P' (Suc n) x xs)"

text \<open>The code after the loop and the count of its bytes.\<close>

definition header_field_end :: "'d env \<Rightarrow> 'd locals \<Rightarrow> 'd step_result" where
  "header_field_end E l =
    (if p_off l = length (buf E) then Break (l\<lparr>p_off := p_off l - 1\<rparr>)
     else if ch l = CHR '':'' then
       CALLBACK_DATA E D_header_field (UPDATE_STATE s_header_value_discard_ws l) Break
     else error HPE_INVALID_HEADER_TOKEN l)"

definition case_s_header_field :: "'d env \<Rightarrow> 'd locals \<Rightarrow> 'd step_result" where
  "case_s_header_field E l =
    (case header_field_loop (parser l) 0 (ch l) (drop (p_off l) (buf E)) of
       Inl (None, n, x) \<Rightarrow> Fault Assertion_failed
     | Inl (Some P, n, x) \<Rightarrow> Goto_error (l\<lparr>parser := P, p_off := p_off l + n, ch := x\<rparr>)
     | Inr (P, n, x) \<Rightarrow>
         COUNT_HEADER_SIZE n (l\<lparr>parser := P, p_off := p_off l + n, ch := x\<rparr>) (header_field_end E))"

section \<open>Header values\<close>

definition case_s_header_value_start :: "'d locals \<Rightarrow> 'd step_result" where
  "case_s_header_value_start l =
    (let l = upd_parser (\<lambda>P. P\<lparr>index := 0\<rparr>) (UPDATE_STATE s_header_value (MARK D_header_value l));
         c = LOWER (ch l);
         set = (\<lambda>h. Break (upd_parser (\<lambda>P. P\<lparr>header_state := h\<rparr>) l))
     in case header_state (parser l) of
          h_upgrade \<Rightarrow> Break (upd_parser (\<lambda>P. (set_flag F_UPGRADE P)\<lparr>header_state := h_general\<rparr>) l)
        | h_transfer_encoding \<Rightarrow>
            if CHR ''c'' = c then set h_matching_transfer_encoding_chunked else set h_general
        | h_content_length \<Rightarrow>
            if \<not> IS_NUM (ch l) then error HPE_INVALID_CONTENT_LENGTH l
            else Break (upd_parser (\<lambda>P. P\<lparr>content_length := digit_of (ch l)\<rparr>) l)
        | h_connection \<Rightarrow>
            if c = CHR ''k'' then set h_matching_connection_keep_alive
            else if c = CHR ''c'' then set h_matching_connection_close
            else if c = CHR ''u'' then set h_matching_connection_upgrade
            else set h_matching_connection_token
        | h_matching_connection_token_start \<Rightarrow> Break l
        | _ \<Rightarrow> set h_general)"

definition case_s_header_value_discard_ws :: "'d locals \<Rightarrow> 'd step_result" where
  "case_s_header_value_discard_ws l =
    (if ch l = SP \<or> ch l = TAB then Break l
     else if ch l = CR then Break (UPDATE_STATE s_header_value_discard_ws_almost_done l)
     else if ch l = LF then Break (UPDATE_STATE s_header_value_discard_lws l)
     else case_s_header_value_start l)"

text \<open>\<open>memchr(buf + p, c, limit)\<close>, as an offset into the buffer.\<close>

definition memchr :: "string \<Rightarrow> nat \<Rightarrow> char \<Rightarrow> nat \<Rightarrow> nat option" where
  "memchr b p c limit =
    (let xs = take limit (drop p b); i = length (takeWhile (\<lambda>x. x \<noteq> c) xs)
     in if i < length xs then Some (p + i) else None)"

text \<open>The new \<open>p\<close> in the \<open>h_general\<close> case: one before the next CR or LF, or before the
  end of the buffer.\<close>

definition skip_general :: "string \<Rightarrow> nat \<Rightarrow> nat" where
  "skip_general b p =
    (let limit = min (length b - p) HTTP_MAX_HEADER_SIZE;
         p_cr = memchr b p CR limit;
         p_lf = memchr b p LF limit
     in (case p_cr of
           Some i \<Rightarrow> (case p_lf of Some j \<Rightarrow> if i \<ge> j then j else i | None \<Rightarrow> i)
         | None \<Rightarrow> (case p_lf of Some j \<Rightarrow> j | None \<Rightarrow> length b)) - 1)"

text \<open>The switch over the local \<open>h_state\<close> for one character of a header value: the new
  \<open>h_state\<close> and locals, or \<open>Inl\<close> of the way the case leaves the loop.\<close>

definition header_value_char ::
  "'d env \<Rightarrow> header_states \<Rightarrow> 'd locals \<Rightarrow> 'd step_result + header_states \<times> 'd locals" where
  "header_value_char E h l =
    (let x = ch l; c = LOWER x;
         match = (\<lambda>str mismatch complete.
           (let l = inc_index l
            in Inr (match_char str (index (parser l)) c mismatch complete h, l)));
         token_start = upd_parser (\<lambda>P. P\<lparr>index := 0\<rparr>)
     in case h of
       h_general \<Rightarrow> Inr (h, l\<lparr>p_off := skip_general (buf E) (p_off l)\<rparr>)
     | h_connection \<Rightarrow> Inl (Fault Assertion_failed)
     | h_transfer_encoding \<Rightarrow> Inl (Fault Assertion_failed)
     | h_content_length \<Rightarrow>
         if x = SP then Inr (h, l)
         else if \<not> IS_NUM x then
           Inl (error HPE_INVALID_CONTENT_LENGTH (upd_parser (\<lambda>P. P\<lparr>header_state := h\<rparr>) l))
         else let t = content_length (parser l) * 10 + digit_of x in
           if (ULLONG_MAX - 10) div 10 < content_length (parser l) then
             Inl (error HPE_INVALID_CONTENT_LENGTH (upd_parser (\<lambda>P. P\<lparr>header_state := h\<rparr>) l))
           else Inr (h, upd_parser (\<lambda>P. P\<lparr>content_length := t\<rparr>) l)
     | h_matching_transfer_encoding_chunked \<Rightarrow> match CHUNKED h_general h_transfer_encoding_chunked
     | h_matching_connection_token_start \<Rightarrow>
         Inr (if c = CHR ''k'' then h_matching_connection_keep_alive
              else if c = CHR ''c'' then h_matching_connection_close
              else if c = CHR ''u'' then h_matching_connection_upgrade
              else if STRICT_TOKEN c \<noteq> NUL then h_matching_connection_token
              else if c = SP \<or> c = TAB then h
              else h_general, l)
     | h_matching_connection_keep_alive \<Rightarrow>
         match KEEP_ALIVE h_matching_connection_token h_connection_keep_alive
     | h_matching_connection_close \<Rightarrow> match CLOSE h_matching_connection_token h_connection_close
     | h_matching_connection_upgrade \<Rightarrow>
         match UPGRADE h_matching_connection_token h_connection_upgrade
     | h_matching_connection_token \<Rightarrow>
         if x = CHR '','' then Inr (h_matching_connection_token_start, token_start l) else Inr (h, l)
     | h_transfer_encoding_chunked \<Rightarrow> Inr (if x \<noteq> SP then h_general else h, l)
     | h_connection_keep_alive \<Rightarrow>
         if x = CHR '','' then
           Inr (h_matching_connection_token_start, token_start (upd_parser (set_flag F_CONNECTION_KEEP_ALIVE) l))
         else Inr (if x \<noteq> SP then h_matching_connection_token else h, l)
     | h_connection_close \<Rightarrow>
         if x = CHR '','' then
           Inr (h_matching_connection_token_start, token_start (upd_parser (set_flag F_CONNECTION_CLOSE) l))
         else Inr (if x \<noteq> SP then h_matching_connection_token else h, l)
     | h_connection_upgrade \<Rightarrow>
         if x = CHR '','' then
           Inr (h_matching_connection_token_start, token_start (upd_parser (set_flag F_CONNECTION_UPGRADE) l))
         else Inr (if x \<noteq> SP then h_matching_connection_token else h, l)
     | _ \<Rightarrow> Inr (h_general, UPDATE_STATE s_header_value l))"

lemma memchr_gt:
  assumes "p < length b" "b ! p \<noteq> c" "memchr b p c limit = Some i"
  shows "p < i"
proof (cases limit)
  case 0
  then show ?thesis using assms by (simp add: memchr_def)
next
  case (Suc n)
  have "drop p b = b ! p # drop (Suc p) b"
    using assms(1) by (simp add: Cons_nth_drop_Suc)
  then show ?thesis using assms(2,3) Suc by (auto simp: memchr_def Let_def split: if_splits)
qed

lemma skip_general_ge:
  assumes "p < length b" "b ! p \<noteq> CR" "b ! p \<noteq> LF"
  shows "p \<le> skip_general b p"
proof -
  let ?lim = "min (length b - p) HTTP_MAX_HEADER_SIZE"
  have "p < i" if "memchr b p CR ?lim = Some i" for i
    using assms(1,2) that by (rule memchr_gt)
  moreover have "p < i" if "memchr b p LF ?lim = Some i" for i
    using assms(1,3) that by (rule memchr_gt)
  ultimately show ?thesis
    using assms(1) by (force simp: skip_general_def Let_def split: option.split)
qed

lemma header_value_char_p_off:
  assumes "header_value_char E h l = Inr (h', l')"
    and "p_off l < length (buf E)" "buf E ! p_off l \<noteq> CR" "buf E ! p_off l \<noteq> LF"
  shows "p_off l \<le> p_off l'"
proof -
  have "p_off l \<le> skip_general (buf E) (p_off l)"
    using assms(2-4) by (rule skip_general_ge)
  then show ?thesis
    using assms(1)
    by (cases h) (auto simp: header_value_char_def Let_def upd_parser_def inc_index_def UPDATE_STATE_def
        split: if_splits)
qed

text \<open>The code after the loop.\<close>

definition header_value_end :: "'d env \<Rightarrow> nat \<Rightarrow> header_states \<Rightarrow> 'd locals \<Rightarrow> 'd step_result" where
  "header_value_end E start h l =
    COUNT_HEADER_SIZE (p_off l - start) (upd_parser (\<lambda>P. P\<lparr>header_state := h\<rparr>) l)
      (\<lambda>l. if p_off l = length (buf E) then Break (l\<lparr>p_off := p_off l - 1\<rparr>) else Break l)"

function header_value_loop ::
  "'d env \<Rightarrow> nat \<Rightarrow> header_states \<Rightarrow> 'd locals \<Rightarrow> 'd step_result" where
  "header_value_loop E start h l =
    (if p_off l < length (buf E) then
       (let x = buf E ! p_off l; l1 = l\<lparr>ch := x\<rparr>;
            set_h = upd_parser (\<lambda>P. P\<lparr>header_state := h\<rparr>)
        in if x = CR then
             CALLBACK_DATA E D_header_value (set_h (UPDATE_STATE s_header_almost_done l1))
               (header_value_end E start h)
           else if x = LF then
             COUNT_HEADER_SIZE (p_off l1 - start) (UPDATE_STATE s_header_almost_done l1)
               (\<lambda>l. CALLBACK_DATA_NOADVANCE E D_header_value (set_h l) Reexecute)
           else if \<not> lenient E \<and> \<not> IS_HEADER_CHAR x then error HPE_INVALID_HEADER_TOKEN l1
           else case header_value_char E h l1 of
                  Inl r \<Rightarrow> r
                | Inr (h', l') \<Rightarrow> header_value_loop E start h' (l'\<lparr>p_off := p_off l' + 1\<rparr>))
     else header_value_end E start h l)"
  by pat_completeness auto
termination
  by (relation "measure (\<lambda>(E, start, h, l). length (buf E) - p_off l)")
    (auto dest!: header_value_char_p_off)

declare header_value_loop.simps [simp del]

definition case_s_header_value :: "'d env \<Rightarrow> 'd locals \<Rightarrow> 'd step_result" where
  "case_s_header_value E l = header_value_loop E (p_off l) (header_state (parser l)) l"

section \<open>End of a header line and of the headers\<close>

definition case_s_header_almost_done :: "'d locals \<Rightarrow> 'd step_result" where
  "case_s_header_almost_done l =
    (if ch l \<noteq> LF then error HPE_LF_EXPECTED l else Break (UPDATE_STATE s_header_value_lws l))"

text \<open>The switch that records what the finished header said; it occurs in the states
  \<open>s_header_value_lws\<close> and \<open>s_header_value_discard_lws\<close>.\<close>

definition finish_header :: "'d http_parser \<Rightarrow> 'd http_parser" where
  "finish_header P =
    (case header_state P of
       h_connection_keep_alive \<Rightarrow> set_flag F_CONNECTION_KEEP_ALIVE P
     | h_connection_close \<Rightarrow> set_flag F_CONNECTION_CLOSE P
     | h_transfer_encoding_chunked \<Rightarrow> set_flag F_CHUNKED P
     | h_connection_upgrade \<Rightarrow> set_flag F_CONNECTION_UPGRADE P
     | _ \<Rightarrow> P)"

definition case_s_header_value_lws :: "'d locals \<Rightarrow> 'd step_result" where
  "case_s_header_value_lws l =
    (if ch l = SP \<or> ch l = TAB then Reexecute (UPDATE_STATE s_header_value_start l)
     else Reexecute (UPDATE_STATE s_header_field_start (upd_parser finish_header l)))"

definition case_s_header_value_discard_ws_almost_done :: "'d locals \<Rightarrow> 'd step_result" where
  "case_s_header_value_discard_ws_almost_done l = strict_expect LF s_header_value_discard_lws l"

definition case_s_header_value_discard_lws :: "'d env \<Rightarrow> 'd locals \<Rightarrow> 'd step_result" where
  "case_s_header_value_discard_lws E l =
    (if ch l = SP \<or> ch l = TAB then Break (UPDATE_STATE s_header_value_discard_ws l)
     else CALLBACK_DATA_NOADVANCE E D_header_value
            (UPDATE_STATE s_header_field_start (MARK D_header_value (upd_parser finish_header l)))
            Reexecute)"

text \<open>The call of \<open>on_headers_complete\<close>, whose result 1 or 2 says that the message has no
  body.\<close>

definition headers_complete :: "'d env \<Rightarrow> 'd locals \<Rightarrow> ('d locals \<Rightarrow> 'd step_result) \<Rightarrow> 'd step_result" where
  "headers_complete E l k =
    (case on_headers_complete (settings E) of
       None \<Rightarrow> k l
     | Some cb \<Rightarrow>
         (case cb (parser l) of (r, Q) \<Rightarrow>
            if r = 0 then k (l\<lparr>parser := Q\<rparr>)
            else if r = 2 then k (l\<lparr>parser := set_flag F_SKIPBODY (Q\<lparr>upgrade := True\<rparr>)\<rparr>)
            else if r = 1 then k (l\<lparr>parser := set_flag F_SKIPBODY Q\<rparr>)
            else RETURN (p_off l) (SET_ERRNO HPE_CB_headers_complete (l\<lparr>parser := Q\<rparr>))))"

definition wants_upgrade :: "'d http_parser \<Rightarrow> bool" where
  "wants_upgrade P \<longleftrightarrow>
     flags P AND (F_UPGRADE OR F_CONNECTION_UPGRADE) = F_UPGRADE OR F_CONNECTION_UPGRADE \<or>
     method P = HTTP_CONNECT"

definition case_s_headers_almost_done :: "'d env \<Rightarrow> 'd locals \<Rightarrow> 'd step_result" where
  "case_s_headers_almost_done E l =
    STRICT_CHECK (ch l \<noteq> LF) l (\<lambda>l.
      if has_flag F_TRAILING (parser l) then
        CALLBACK_NOTIFY_NOADVANCE E N_chunk_complete (UPDATE_STATE s_message_done l) Reexecute
      else if has_flag F_CHUNKED (parser l) \<and> has_flag F_CONTENTLENGTH (parser l) then
        error HPE_UNEXPECTED_CONTENT_LENGTH l
      else
        headers_complete E
          (upd_parser (\<lambda>P. P\<lparr>upgrade := wants_upgrade P\<rparr>) (UPDATE_STATE s_headers_done l))
          (\<lambda>l. if http_errno (parser l) \<noteq> HPE_OK then RETURN (p_off l) l else Reexecute l))"

definition message_complete :: "'d env \<Rightarrow> 'd locals \<Rightarrow> ('d locals \<Rightarrow> 'd step_result) \<Rightarrow> 'd step_result" where
  "message_complete E l k =
    CALLBACK_NOTIFY E N_message_complete (UPDATE_STATE (NEW_MESSAGE (parser l)) l) k"

definition has_body :: "'d http_parser \<Rightarrow> bool" where
  "has_body P \<longleftrightarrow> has_flag F_CHUNKED P \<or> content_length P > 0 \<and> content_length P \<noteq> ULLONG_MAX"

definition case_s_headers_done :: "'d env \<Rightarrow> 'd locals \<Rightarrow> 'd step_result" where
  "case_s_headers_done E l =
    STRICT_CHECK (ch l \<noteq> LF) l (\<lambda>l.
      let l = upd_parser (\<lambda>P. P\<lparr>nread := 0\<rparr>) l; P = parser l in
      if upgrade P \<and> (method P = HTTP_CONNECT \<or> has_flag F_SKIPBODY P \<or> \<not> has_body P) then
        message_complete E l (\<lambda>l. RETURN (p_off l + 1) l)
      else if has_flag F_SKIPBODY P then message_complete E l Break
      else if has_flag F_CHUNKED P then Break (UPDATE_STATE s_chunk_size_start l)
      else if content_length P = 0 then message_complete E l Break
      else if content_length P \<noteq> ULLONG_MAX then Break (UPDATE_STATE s_body_identity l)
      else if \<not> http_message_needs_eof P then message_complete E l Break
      else Break (UPDATE_STATE s_body_identity_eof l))"

end
