(* ===== verification/HttpBody.thy ===== *)
theory HttpBody
  imports HttpHeaders
begin

text \<open>
  The body states of \<open>http_parser_execute\<close> (identity bodies, bodies up to the end of the
  connection, chunked bodies), its switch, main loop, entry and exit code, and the small
  functions at the end of \<open>http_parser.c\<close>.
\<close>

section \<open>Bodies\<close>

text \<open>\<open>MIN(parser->content_length, (uint64_t) ((data + len) - p))\<close>\<close>

definition to_read :: "'d env \<Rightarrow> 'd locals \<Rightarrow> u64" where
  "to_read E l = min (content_length (parser l)) (of_nat (length (buf E) - p_off l))"

text \<open>\<open>MARK(body); parser->content_length -= to_read; p += to_read - 1;\<close>\<close>

definition advance_body :: "'d env \<Rightarrow> 'd locals \<Rightarrow> 'd locals" where
  "advance_body E l =
    (let n = to_read E l; l = MARK D_body l
     in (upd_parser (\<lambda>P. P\<lparr>content_length := content_length P - n\<rparr>) l)\<lparr>p_off := p_off l + unat n - 1\<rparr>)"

definition case_s_body_identity :: "'d env \<Rightarrow> 'd locals \<Rightarrow> 'd step_result" where
  "case_s_body_identity E l =
    assertion (content_length (parser l) \<noteq> 0 \<and> content_length (parser l) \<noteq> ULLONG_MAX)
      (let l = advance_body E l in
       if content_length (parser l) = 0 then
         CALLBACK_DATA_ER E D_body 1 (p_off l) (UPDATE_STATE s_message_done l) Reexecute
       else Break l)"

definition case_s_body_identity_eof :: "'d env \<Rightarrow> 'd locals \<Rightarrow> 'd step_result" where
  "case_s_body_identity_eof E l = Break ((MARK D_body l)\<lparr>p_off := length (buf E) - 1\<rparr>)"

definition case_s_message_done :: "'d env \<Rightarrow> 'd locals \<Rightarrow> 'd step_result" where
  "case_s_message_done E l =
    message_complete E l
      (\<lambda>l. if upgrade (parser l) then RETURN (p_off l + 1) l else Break l)"

section \<open>Chunked bodies\<close>

definition case_s_chunk_size_start :: "'d locals \<Rightarrow> 'd step_result" where
  "case_s_chunk_size_start l =
    assertion (nread (parser l) = 1) (assertion (has_flag F_CHUNKED (parser l))
      (let v = unhex (ch l) in
       if v = -1 then error HPE_INVALID_CHUNK_SIZE l
       else Break (UPDATE_STATE s_chunk_size
              (upd_parser (\<lambda>P. P\<lparr>content_length := of_int v\<rparr>) l))))"

definition case_s_chunk_size :: "'d locals \<Rightarrow> 'd step_result" where
  "case_s_chunk_size l =
    assertion (has_flag F_CHUNKED (parser l))
      (if ch l = CR then Break (UPDATE_STATE s_chunk_size_almost_done l)
       else let v = unhex (ch l) in
         if v = -1 then
           (if ch l = CHR '';'' \<or> ch l = SP then Break (UPDATE_STATE s_chunk_parameters l)
            else error HPE_INVALID_CHUNK_SIZE l)
         else let t = content_length (parser l) * 16 + of_int v in
           if (ULLONG_MAX - 16) div 16 < content_length (parser l) then
             error HPE_INVALID_CONTENT_LENGTH l
           else Break (upd_parser (\<lambda>P. P\<lparr>content_length := t\<rparr>) l))"

definition case_s_chunk_parameters :: "'d locals \<Rightarrow> 'd step_result" where
  "case_s_chunk_parameters l =
    assertion (has_flag F_CHUNKED (parser l))
      (if ch l = CR then Break (UPDATE_STATE s_chunk_size_almost_done l) else Break l)"

definition case_s_chunk_size_almost_done :: "'d env \<Rightarrow> 'd locals \<Rightarrow> 'd step_result" where
  "case_s_chunk_size_almost_done E l =
    assertion (has_flag F_CHUNKED (parser l))
      (STRICT_CHECK (ch l \<noteq> LF) l (\<lambda>l.
        let l = upd_parser (\<lambda>P. P\<lparr>nread := 0\<rparr>) l;
            l = (if content_length (parser l) = 0
                 then UPDATE_STATE s_header_field_start (upd_parser (set_flag F_TRAILING) l)
                 else UPDATE_STATE s_chunk_data l)
        in CALLBACK_NOTIFY E N_chunk_header l Break))"

definition case_s_chunk_data :: "'d env \<Rightarrow> 'd locals \<Rightarrow> 'd step_result" where
  "case_s_chunk_data E l =
    assertion (has_flag F_CHUNKED (parser l))
      (assertion (content_length (parser l) \<noteq> 0 \<and> content_length (parser l) \<noteq> ULLONG_MAX)
        (let l = advance_body E l in
         if content_length (parser l) = 0 then Break (UPDATE_STATE s_chunk_data_almost_done l)
         else Break l))"

definition case_s_chunk_data_almost_done :: "'d env \<Rightarrow> 'd locals \<Rightarrow> 'd step_result" where
  "case_s_chunk_data_almost_done E l =
    assertion (has_flag F_CHUNKED (parser l))
      (assertion (content_length (parser l) = 0)
        (STRICT_CHECK (ch l \<noteq> CR) l
          (\<lambda>l. CALLBACK_DATA E D_body (UPDATE_STATE s_chunk_data_done l) Break)))"

definition case_s_chunk_data_done :: "'d env \<Rightarrow> 'd locals \<Rightarrow> 'd step_result" where
  "case_s_chunk_data_done E l =
    assertion (has_flag F_CHUNKED (parser l))
      (STRICT_CHECK (ch l \<noteq> LF) l
        (\<lambda>l. CALLBACK_NOTIFY E N_chunk_complete
               (UPDATE_STATE s_chunk_size_start (upd_parser (\<lambda>P. P\<lparr>nread := 0\<rparr>) l)) Break))"

section \<open>The switch and the main loop\<close>

text \<open>Every value of the enumeration has its \<open>case\<close>; the \<open>default\<close> of the source is for
  numbers that are no state.\<close>

definition switch_state :: "'d env \<Rightarrow> 'd locals \<Rightarrow> 'd step_result" where
  "switch_state E l =
    (case p_state l of
       s_dead \<Rightarrow> case_s_dead l
     | s_start_req_or_res \<Rightarrow> case_s_start_req_or_res E l
     | s_res_or_resp_H \<Rightarrow> case_s_res_or_resp_H l
     | s_start_res \<Rightarrow> case_s_start_res E l
     | s_res_H \<Rightarrow> case_s_res_H l
     | s_res_HT \<Rightarrow> case_s_res_HT l
     | s_res_HTT \<Rightarrow> case_s_res_HTT l
     | s_res_HTTP \<Rightarrow> case_s_res_HTTP l
     | s_res_first_http_major \<Rightarrow> case_s_res_first_http_major l
     | s_res_http_major \<Rightarrow> case_s_res_http_major l
     | s_res_first_http_minor \<Rightarrow> case_s_res_first_http_minor l
     | s_res_http_minor \<Rightarrow> case_s_res_http_minor l
     | s_res_first_status_code \<Rightarrow> case_s_res_first_status_code l
     | s_res_status_code \<Rightarrow> case_s_res_status_code l
     | s_res_status_start \<Rightarrow> case_s_res_status_start l
     | s_res_status \<Rightarrow> case_s_res_status E l
     | s_res_line_almost_done \<Rightarrow> case_s_res_line_almost_done l
     | s_start_req \<Rightarrow> case_s_start_req E l
     | s_req_method \<Rightarrow> case_s_req_method l
     | s_req_spaces_before_url \<Rightarrow> case_s_req_spaces_before_url l
     | s_req_schema \<Rightarrow> case_url_no_space l
     | s_req_schema_slash \<Rightarrow> case_url_no_space l
     | s_req_schema_slash_slash \<Rightarrow> case_url_no_space l
     | s_req_server_start \<Rightarrow> case_url_no_space l
     | s_req_server \<Rightarrow> case_url E l
     | s_req_server_with_at \<Rightarrow> case_url E l
     | s_req_path \<Rightarrow> case_url E l
     | s_req_query_string_start \<Rightarrow> case_url E l
     | s_req_query_string \<Rightarrow> case_url E l
     | s_req_fragment_start \<Rightarrow> case_url E l
     | s_req_fragment \<Rightarrow> case_url E l
     | s_req_http_start \<Rightarrow> case_s_req_http_start l
     | s_req_http_H \<Rightarrow> case_s_req_http_H l
     | s_req_http_HT \<Rightarrow> case_s_req_http_HT l
     | s_req_http_HTT \<Rightarrow> case_s_req_http_HTT l
     | s_req_http_HTTP \<Rightarrow> case_s_req_http_HTTP l
     | s_req_first_http_major \<Rightarrow> case_s_req_first_http_major l
     | s_req_http_major \<Rightarrow> case_s_req_http_major l
     | s_req_first_http_minor \<Rightarrow> case_s_req_first_http_minor l
     | s_req_http_minor \<Rightarrow> case_s_req_http_minor l
     | s_req_line_almost_done \<Rightarrow> case_s_req_line_almost_done l
     | s_header_field_start \<Rightarrow> case_s_header_field_start l
     | s_header_field \<Rightarrow> case_s_header_field E l
     | s_header_value_discard_ws \<Rightarrow> case_s_header_value_discard_ws l
     | s_header_value_start \<Rightarrow> case_s_header_value_start l
     | s_header_value \<Rightarrow> case_s_header_value E l
     | s_header_almost_done \<Rightarrow> case_s_header_almost_done l
     | s_header_value_lws \<Rightarrow> case_s_header_value_lws l
     | s_header_value_discard_ws_almost_done \<Rightarrow> case_s_header_value_discard_ws_almost_done l
     | s_header_value_discard_lws \<Rightarrow> case_s_header_value_discard_lws E l
     | s_headers_almost_done \<Rightarrow> case_s_headers_almost_done E l
     | s_headers_done \<Rightarrow> case_s_headers_done E l
     | s_body_identity \<Rightarrow> case_s_body_identity E l
     | s_body_identity_eof \<Rightarrow> case_s_body_identity_eof E l
     | s_message_done \<Rightarrow> case_s_message_done E l
     | s_chunk_size_start \<Rightarrow> case_s_chunk_size_start l
     | s_chunk_size \<Rightarrow> case_s_chunk_size l
     | s_chunk_parameters \<Rightarrow> case_s_chunk_parameters l
     | s_chunk_size_almost_done \<Rightarrow> case_s_chunk_size_almost_done E l
     | s_chunk_data \<Rightarrow> case_s_chunk_data E l
     | s_chunk_data_almost_done \<Rightarrow> case_s_chunk_data_almost_done E l
     | s_chunk_data_done \<Rightarrow> case_s_chunk_data_done E l)"

text \<open>The head of the loop body: \<open>ch = *p\<close> and the header size check.\<close>

definition loop_head :: "'d env \<Rightarrow> 'd locals \<Rightarrow> 'd step_result" where
  "loop_head E l =
    (if p_off l < length (buf E) then
       (let l = l\<lparr>ch := buf E ! p_off l\<rparr> in
        if PARSING_HEADER (p_state l) then COUNT_HEADER_SIZE 1 l Break else Break l)
     else Fault Out_of_bounds)"

text \<open>The code behind the loop: the callbacks for marks left over, then \<open>RETURN(len)\<close>.\<close>

definition flush_marks :: "'d env \<Rightarrow> 'd locals \<Rightarrow> 'd step_result" where
  "flush_marks E l =
    assertion (length (filter (\<lambda>d. marks l d \<noteq> None)
        [D_header_field, D_header_value, D_url, D_body, D_status]) \<le> 1)
      (CALLBACK_DATA_NOADVANCE E D_header_field l (\<lambda>l.
       CALLBACK_DATA_NOADVANCE E D_header_value l (\<lambda>l.
       CALLBACK_DATA_NOADVANCE E D_url l (\<lambda>l.
       CALLBACK_DATA_NOADVANCE E D_body l (\<lambda>l.
       CALLBACK_DATA_NOADVANCE E D_status l (\<lambda>l.
       RETURN (length (buf E)) l))))))"

text \<open>What a call gives: a fault, or the number of bytes parsed and the parser.\<close>

type_synonym 'd exec_result = "fault + nat \<times> 'd http_parser"

text \<open>The label \<open>error\<close>.\<close>

definition at_error :: "'d locals \<Rightarrow> 'd exec_result" where
  "at_error l =
    (let l = (if http_errno (parser l) = HPE_OK then SET_ERRNO HPE_UNKNOWN l else l)
     in Inr (p_off l, (parser l)\<lparr>state := p_state l\<rparr>))"

text \<open>The value of the call for the outcomes that end it.\<close>

fun leave :: "'d step_result \<Rightarrow> 'd exec_result" where
  "leave (Return n P) = Inr (n, P)"
| "leave (Goto_error l) = at_error l"
| "leave (Fault f) = Inl f"
| "leave (Break l) = Inl Unreachable"
| "leave (Reexecute l) = Inl Unreachable"

text \<open>The loop; the flag says whether control is at the label \<open>reexecute\<close> or at the head of
  the loop.  The cases \<open>Unreachable\<close> of \<open>leave\<close> do not arise in it, which
  theory \<open>HttpTotal\<close> proves along with the absence of the other faults.\<close>

partial_function (option) main_loop :: "'d env \<Rightarrow> bool \<Rightarrow> 'd locals \<Rightarrow> 'd exec_result option" where
  "main_loop E re l =
    (if re then
       (case switch_state E l of
          Break l' \<Rightarrow> main_loop E False (l'\<lparr>p_off := p_off l' + 1\<rparr>)
        | Reexecute l' \<Rightarrow> main_loop E True l'
        | r \<Rightarrow> Some (leave r))
     else if p_off l = length (buf E) then Some (leave (flush_marks E l))
     else
       (case loop_head E l of
          Break l' \<Rightarrow> main_loop E True l'
        | r \<Rightarrow> Some (leave r)))"

declare main_loop.simps [code]

section \<open>Entry\<close>

definition execute_eof :: "'d env \<Rightarrow> 'd locals \<Rightarrow> 'd exec_result" where
  "execute_eof E l =
    (let P = parser l in
     case p_state l of
       s_body_identity_eof \<Rightarrow>
         leave (CALLBACK_NOTIFY_NOADVANCE E N_message_complete l (\<lambda>l. Return 0 (parser l)))
     | s_dead \<Rightarrow> Inr (0, P)
     | s_start_req_or_res \<Rightarrow> Inr (0, P)
     | s_start_res \<Rightarrow> Inr (0, P)
     | s_start_req \<Rightarrow> Inr (0, P)
     | _ \<Rightarrow> Inr (1, P\<lparr>http_errno := HPE_INVALID_EOF_STATE\<rparr>))"

definition url_states :: "state set" where
  "url_states = {s_req_path, s_req_schema, s_req_schema_slash, s_req_schema_slash_slash,
     s_req_server_start, s_req_server, s_req_server_with_at, s_req_query_string_start,
     s_req_query_string, s_req_fragment_start, s_req_fragment}"

text \<open>The marks set at entry: a field that the previous buffer ended in goes on.\<close>

definition entry_marks :: "state \<Rightarrow> data_for \<Rightarrow> nat option" where
  "entry_marks s =
    (\<lambda>d. case d of
       D_header_field \<Rightarrow> if s = s_header_field then Some 0 else None
     | D_header_value \<Rightarrow> if s = s_header_value then Some 0 else None
     | D_url \<Rightarrow> if s \<in> url_states then Some 0 else None
     | D_body \<Rightarrow> None
     | D_status \<Rightarrow> if s = s_res_status then Some 0 else None)"

definition http_parser_execute ::
  "'d http_parser_settings \<Rightarrow> 'd http_parser \<Rightarrow> string \<Rightarrow> 'd exec_result option" where
  "http_parser_execute S P dat =
    (let E = \<lparr>settings = S, buf = dat, lenient = lenient_http_headers P\<rparr>;
         l = \<lparr>parser = P, p_off = 0, ch = NUL, p_state = state P, marks = (\<lambda>_. None)\<rparr>
     in if http_errno P \<noteq> HPE_OK then Some (Inr (0, P))
        else if length dat = 0 then Some (execute_eof E l)
        else main_loop E False (l\<lparr>marks := entry_marks (state P)\<rparr>))"

section \<open>The other functions\<close>

definition http_method_str :: "nat \<Rightarrow> string" where
  "http_method_str m = (if m < length method_strings then method_strings ! m else ''<unknown>'')"

text \<open>\<open>http_parser_init\<close>: all fields zero but \<open>data\<close>, \<open>type\<close> and \<open>state\<close>.\<close>

definition http_parser_init :: "'d \<Rightarrow> http_parser_type \<Rightarrow> 'd http_parser" where
  "http_parser_init d t =
    \<lparr>ptype = t, flags = 0,
     state = (if t = HTTP_REQUEST then s_start_req
              else if t = HTTP_RESPONSE then s_start_res else s_start_req_or_res),
     header_state = h_general, index = 0, lenient_http_headers = False, nread = 0,
     content_length = 0, http_major = 0, http_minor = 0, status_code = 0,
     method = HTTP_DELETE, http_errno = HPE_OK, upgrade = False, data = d\<rparr>"

definition http_parser_settings_init :: "'d http_parser_settings" where
  "http_parser_settings_init =
    \<lparr>on_message_begin = None, on_url = None, on_status = None, on_header_field = None,
     on_header_value = None, on_headers_complete = None, on_body = None,
     on_message_complete = None, on_chunk_header = None, on_chunk_complete = None\<rparr>"

definition http_errno_name :: "nat \<Rightarrow> fault + string" where
  "http_errno_name e =
    (if e < length http_strerror_tab then Inr (fst (http_strerror_tab ! e)) else Inl Assertion_failed)"

definition http_errno_description :: "nat \<Rightarrow> fault + string" where
  "http_errno_description e =
    (if e < length http_strerror_tab then Inr (snd (http_strerror_tab ! e)) else Inl Assertion_failed)"

definition http_parser_pause :: "'d http_parser \<Rightarrow> bool \<Rightarrow> fault + 'd http_parser" where
  "http_parser_pause P paused =
    (if http_errno P = HPE_OK \<or> http_errno P = HPE_PAUSED
     then Inr (P\<lparr>http_errno := (if paused then HPE_PAUSED else HPE_OK)\<rparr>)
     else Inl Assertion_failed)"

definition http_body_is_final :: "'d http_parser \<Rightarrow> bool" where
  "http_body_is_final P \<longleftrightarrow> state P = s_message_done"

definition http_parser_version :: u32 where
  "http_parser_version = 2 * 0x10000 OR 7 * 0x00100 OR 0 * 0x00001"

end
