(* ===== verification/HttpInv.thy ===== *)
theory HttpInv
  imports HttpBody
begin

text \<open>
  The invariant of \<open>http_parser_execute\<close> and the vocabulary of its proof: what each state
  promises about the parser's fields, which \<open>_mark\<close> may be set in which state, the
  contract of the callbacks, and what a \<open>case\<close> of the switch must establish for each of its
  outcomes.
\<close>

section \<open>The contract of the callbacks\<close>

text \<open>A callback may store in \<open>data\<close> and may pause the parser (\<open>http_parser_pause\<close>
  writes \<open>http_errno\<close>); \<open>http_parser.h\<close> marks all other fields private or read-only.\<close>

definition cb_keeps :: "'d http_parser \<Rightarrow> 'd http_parser \<Rightarrow> bool" where
  "cb_keeps P Q \<longleftrightarrow> Q = P\<lparr>http_errno := http_errno Q, data := data Q\<rparr>"

locale parser_callbacks =
  fixes S :: "'d http_parser_settings"
  assumes notify_keeps: "on_notify n S = Some cb \<Longrightarrow> cb_keeps P (snd (cb P))"
    and data_keeps: "on_data d S = Some dcb \<Longrightarrow> cb_keeps P (snd (dcb P xs))"
    and headers_complete_keeps: "on_headers_complete S = Some cb \<Longrightarrow> cb_keeps P (snd (cb P))"

section \<open>The invariant\<close>

definition header_field_states :: "header_states set" where
  "header_field_states = {h_general, h_C, h_CO, h_CON, h_matching_connection,
     h_matching_proxy_connection, h_matching_content_length, h_matching_transfer_encoding,
     h_matching_upgrade, h_connection, h_content_length, h_transfer_encoding, h_upgrade}"

text \<open>What the parser's fields satisfy in every state, and what they satisfy in state \<open>s\<close>.
  The number \<open>k\<close> is the value of \<open>nread\<close> in \<open>s_chunk_size_start\<close>: 0 at the head of
  the loop and between calls, 1 at the label \<open>reexecute\<close>, where the current byte has been
  counted.\<close>

definition base_inv :: "'d http_parser \<Rightarrow> bool" where
  "base_inv P \<longleftrightarrow> nread P \<le> HTTP_MAX_HEADER_SIZE \<and>
     http_major P \<le> 999 \<and> http_minor P \<le> 999 \<and> status_code P \<le> 999"

definition extra_inv :: "u32 \<Rightarrow> 'd http_parser \<Rightarrow> state \<Rightarrow> bool" where
  "extra_inv k P s =
    (case s of
       s_header_field \<Rightarrow> header_state P \<in> header_field_states
     | s_header_value \<Rightarrow> header_state P \<noteq> h_connection \<and> header_state P \<noteq> h_transfer_encoding
     | s_req_method \<Rightarrow> unat (index P) \<le> length (method_strings ! http_method_num (method P))
     | s_body_identity \<Rightarrow> content_length P \<noteq> 0 \<and> content_length P \<noteq> ULLONG_MAX
     | s_chunk_size_start \<Rightarrow> has_flag F_CHUNKED P \<and> nread P = k
     | s_chunk_size \<Rightarrow> has_flag F_CHUNKED P \<and> content_length P \<noteq> ULLONG_MAX
     | s_chunk_parameters \<Rightarrow> has_flag F_CHUNKED P \<and> content_length P \<noteq> ULLONG_MAX
     | s_chunk_size_almost_done \<Rightarrow> has_flag F_CHUNKED P \<and> content_length P \<noteq> ULLONG_MAX
     | s_chunk_data \<Rightarrow> has_flag F_CHUNKED P \<and> content_length P \<noteq> 0 \<and> content_length P \<noteq> ULLONG_MAX
     | s_chunk_data_almost_done \<Rightarrow> has_flag F_CHUNKED P \<and> content_length P = 0
     | s_chunk_data_done \<Rightarrow> has_flag F_CHUNKED P
     | _ \<Rightarrow> True)"

definition state_inv :: "u32 \<Rightarrow> 'd http_parser \<Rightarrow> state \<Rightarrow> bool" where
  "state_inv k P s \<longleftrightarrow> base_inv P \<and> extra_inv k P s"

text \<open>The states in which a mark may be set.\<close>

primrec mark_states :: "data_for \<Rightarrow> state set" where
  "mark_states D_header_field = {s_header_field}"
| "mark_states D_header_value = {s_header_value}"
| "mark_states D_url = url_states"
| "mark_states D_body = {s_body_identity, s_body_identity_eof, s_chunk_data, s_chunk_data_almost_done}"
| "mark_states D_status = {s_res_status}"

definition marks_inv :: "'d locals \<Rightarrow> bool" where
  "marks_inv l \<longleftrightarrow> (\<forall>d m. marks l d = Some m \<longrightarrow> m \<le> p_off l \<and> p_state l \<in> mark_states d)"

definition loop_inv :: "u32 \<Rightarrow> 'd locals \<Rightarrow> bool" where
  "loop_inv k l \<longleftrightarrow> http_errno (parser l) = HPE_OK \<and> state_inv k (parser l) (p_state l) \<and> marks_inv l"

text \<open>The invariant between two calls.  A parser in an error other than \<open>HPE_PAUSED\<close> never
  runs again.\<close>

definition parser_inv :: "'d http_parser \<Rightarrow> bool" where
  "parser_inv P \<longleftrightarrow> http_errno P \<in> {HPE_OK, HPE_PAUSED} \<longrightarrow> state_inv 0 P (state P)"

text \<open>How many more times the code may jump to \<open>reexecute\<close> from a state without consuming a
  byte.\<close>

definition rank :: "state \<Rightarrow> nat" where
  "rank s =
    (if s \<in> {s_header_value_lws, s_header_value_discard_lws} then 3
     else if s = s_header_field_start then 2
     else if s \<in> {s_start_req_or_res, s_header_value, s_headers_almost_done, s_body_identity} then 1
     else 0)"

text \<open>What a \<open>case\<close> started with the locals \<open>l\<close> establishes for its outcome.\<close>

fun good :: "'d env \<Rightarrow> 'd locals \<Rightarrow> 'd step_result \<Rightarrow> bool" where
  "good E l (Break l') \<longleftrightarrow> p_off l \<le> p_off l' \<and> p_off l' < length (buf E) \<and> loop_inv 0 l'"
| "good E l (Reexecute l') \<longleftrightarrow> p_off l \<le> p_off l' \<and> p_off l' < length (buf E) \<and> loop_inv 1 l' \<and>
     rank (p_state l') < rank (p_state l)"
| "good E l (Goto_error l') \<longleftrightarrow> p_off l' \<le> length (buf E) \<and> http_errno (parser l') \<notin> {HPE_OK, HPE_PAUSED}"
| "good E l (Return n P) \<longleftrightarrow> n \<le> length (buf E) \<and> parser_inv P \<and>
     (http_errno P = HPE_OK \<longrightarrow> upgrade P \<or> n = length (buf E))"
| "good E l (Fault f) \<longleftrightarrow> False"

section \<open>Basic facts\<close>

text \<open>The invariant does not depend on the fields a callback or a macro may write freely.\<close>

lemma state_inv_cong [simp]:
  "state_inv k (P\<lparr>state := s'\<rparr>) s = state_inv k P s"
  "state_inv k (P\<lparr>data := d\<rparr>) s = state_inv k P s"
  "state_inv k (P\<lparr>http_errno := e\<rparr>) s = state_inv k P s"
  "state_inv k (P\<lparr>upgrade := b\<rparr>) s = state_inv k P s"
  "state_inv k (P\<lparr>ptype := t\<rparr>) s = state_inv k P s"
  by (simp_all add: state_inv_def base_inv_def extra_inv_def has_flag_def cong: state.case_cong)

lemma cb_keepsD:
  assumes "cb_keeps P Q"
  obtains e d where "Q = P\<lparr>http_errno := e, data := d\<rparr>"
  using assms unfolding cb_keeps_def by blast

lemma marks_inv_cong [simp]:
  "marks_inv (l\<lparr>parser := P\<rparr>) = marks_inv l"
  "marks_inv (l\<lparr>ch := c\<rparr>) = marks_inv l"
  by (simp_all add: marks_inv_def)

lemma good_error [simp]:
  "good E l (error e l') \<longleftrightarrow> p_off l' \<le> length (buf E) \<and> e \<notin> {HPE_OK, HPE_PAUSED}"
  by (simp add: error_def SET_ERRNO_def)

lemma good_assertion [simp]: "good E l (assertion b r) \<longleftrightarrow> b \<and> good E l r"
  by (simp add: assertion_def)

lemma good_STRICT_CHECK:
  "p_off l' \<le> length (buf E) \<Longrightarrow> (\<not> b \<Longrightarrow> good E l (k l')) \<Longrightarrow> good E l (STRICT_CHECK b l' k)"
  by (simp add: STRICT_CHECK_def)

lemma good_COUNT_HEADER_SIZE:
  assumes "p_off l' \<le> length (buf E)"
    and "\<And>n. n \<le> HTTP_MAX_HEADER_SIZE \<Longrightarrow> good E l (k (upd_parser (\<lambda>P. P\<lparr>nread := n\<rparr>) l'))"
  shows "good E l (COUNT_HEADER_SIZE v l' k)"
  using assms by (auto simp: COUNT_HEADER_SIZE_def upd_parser_def Let_def not_less)

text \<open>At most one mark is set, because no state may have two.\<close>

lemma mark_states_disjoint: "s \<in> mark_states d \<Longrightarrow> s \<in> mark_states d' \<Longrightarrow> d = d'"
  by (cases d; cases d') (auto simp: url_states_def)

lemma marks_inv_single: "marks_inv l \<Longrightarrow> marks l d \<noteq> None \<Longrightarrow> marks l d' \<noteq> None \<Longrightarrow> d = d'"
  unfolding marks_inv_def using mark_states_disjoint by blast

section \<open>The callback macros\<close>

lemma http_errno_update_same: "http_errno P = e \<Longrightarrow> P\<lparr>state := s, http_errno := e, data := d\<rparr> = P\<lparr>state := s, data := d\<rparr>"
  by (cases P) simp

context parser_callbacks
begin

lemma good_after_callback:
  assumes "cb_keeps ((parser l')\<lparr>state := p_state l'\<rparr>) (snd rq)" "e \<notin> {HPE_OK, HPE_PAUSED}"
    and "http_errno (parser l') = HPE_OK" "state_inv 0 (parser l') (p_state l')" "er \<le> length (buf E)"
    and "\<And>s d. good E l (k (l'\<lparr>parser := (parser l')\<lparr>state := s, data := d\<rparr>\<rparr>))"
  shows "good E l (after_callback e er rq l' k)"
proof -
  obtain e' d where Q: "snd rq = (parser l')\<lparr>state := p_state l', http_errno := e', data := d\<rparr>"
    using assms(1) by (elim cb_keepsD)
  show ?thesis
    using assms(2-6) Q
    by (auto simp: after_callback_def UPDATE_STATE_def Let_def parser_inv_def http_errno_update_same)
qed

lemma good_CALLBACK_NOTIFY_ER:
  assumes "settings E = S" "http_errno (parser l') = HPE_OK" "state_inv 0 (parser l') (p_state l')"
    and "er \<le> length (buf E)"
    and "\<And>s d. good E l (k (l'\<lparr>parser := (parser l')\<lparr>state := s, data := d\<rparr>\<rparr>))"
  shows "good E l (CALLBACK_NOTIFY_ER E n er l' k)"
proof (cases "on_notify n S")
  case None
  then show ?thesis
    using assms(5) [of "data (parser l')" "state (parser l')"] assms(1,2)
    by (simp add: CALLBACK_NOTIFY_ER_def)
next
  case (Some cb)
  have "HPE_CB_notify n \<notin> {HPE_OK, HPE_PAUSED}"
    by (cases n) auto
  with Some show ?thesis
    using assms notify_keeps [OF Some]
    by (simp add: CALLBACK_NOTIFY_ER_def good_after_callback)
qed

lemma good_CALLBACK_DATA_ER:
  assumes "settings E = S" "http_errno (parser l') = HPE_OK" "state_inv 0 (parser l') (p_state l')"
    and "er \<le> length (buf E)" "p_off l' + extra \<le> length (buf E)"
    and "\<And>m. marks l' D = Some m \<Longrightarrow> m \<le> p_off l'"
    and "\<And>s d. good E l (k (l'\<lparr>parser := (parser l')\<lparr>state := s, data := d\<rparr>,
           marks := (marks l')(D := None)\<rparr>))"
  shows "good E l (CALLBACK_DATA_ER E D extra er l' k)"
proof (cases "marks l' D")
  case None
  then have "(marks l')(D := None) = marks l'"
    by auto
  then show ?thesis
    using assms(7) [of "data (parser l')" "state (parser l')"] assms(2) None
    by (simp add: CALLBACK_DATA_ER_def)
next
  case (Some m)
  have e: "HPE_CB_data D \<notin> {HPE_OK, HPE_PAUSED}"
    by (cases D) auto
  show ?thesis
  proof (cases "on_data D S")
    case None
    with Some show ?thesis
      using assms(7) [of "data (parser l')" "state (parser l')"] assms(1,2)
      by (simp add: CALLBACK_DATA_ER_def)
  next
    case (Some cb)
    with \<open>marks l' D = Some m\<close> e show ?thesis
      using assms data_keeps [OF Some]
      by (auto simp: CALLBACK_DATA_ER_def intro!: good_after_callback)
  qed
qed

lemmas good_callbacks = good_CALLBACK_NOTIFY_ER good_CALLBACK_DATA_ER

end

end
