(* ===== verification/HttpChars.thy ===== *)
theory HttpChars
  imports HttpTypes
begin

text \<open>
  What the character tables of \<open>http_parser.c\<close> contain: each table is compared with the
  character class it is meant to implement.  The tables are decided entry by entry: a
  statement about all characters is reduced to the 256 values of its eight bits.
\<close>

lemma LOWER_Char [simp]:
  "LOWER (Char b0 b1 b2 b3 b4 b5 b6 b7) = Char b0 b1 b2 b3 b4 True b6 b7"
  by (rule of_char_eqI [where 'a = nat],
      cases b0; cases b1; cases b2; cases b3; cases b4; cases b5; cases b6; cases b7)
    (simp_all add: LOWER_def flip: numeral_2_eq_2)

lemma array_at_simps [simp]:
  "array_at z [] i = z"
  "array_at z (x # xs) 0 = x"
  "array_at z (x # xs) (Suc n) = array_at z xs n"
  "array_at z (x # xs) (numeral v) = array_at z xs (pred_numeral v)"
  by (simp_all add: array_at_def numeral_eq_Suc)

text \<open>The separators of the grammar quoted above the table \<open>tokens\<close>.\<close>

definition separators :: "char set" where
  "separators = set ''()<>@,;:/[]?={}'' \<union> {CHR 0x5C, CHR 0x22, SP, TAB}"

definition upper_letters :: "char set" where
  "upper_letters = set ''ABCDEFGHIJKLMNOPQRSTUVWXYZ''"

text \<open>The table \<open>tokens\<close> is the token class of RFC 2616 that its comment quotes, in
  lower case: 0 exactly for control characters, separators and bytes from 127 on, the lower
  case letter for an upper case letter, and every other character itself.\<close>

lemma tokens_rfc2616:
  "tokens c =
    (if (of_char c :: nat) < 32 \<or> (of_char c :: nat) > 126 \<or> c \<in> separators then NUL
     else if c \<in> upper_letters then LOWER c else c)"
proof (cases c)
  case (Char b0 b1 b2 b3 b4 b5 b6 b7)
  then show ?thesis
    by (cases b0; cases b1; cases b2; cases b3; cases b4; cases b5; cases b6; cases b7)
      (simp_all add: tokens_def tokens_tab_def separators_def upper_letters_def)
qed

text \<open>In strict mode the bit table \<open>normal_url_char\<close> accepts exactly the visible ASCII
  characters other than the delimiters \<open>#\<close> and \<open>?\<close>.\<close>

lemma IS_URL_CHAR_iff:
  "IS_URL_CHAR c \<longleftrightarrow>
     32 < (of_char c :: nat) \<and> (of_char c :: nat) < 127 \<and> c \<noteq> CHR ''#'' \<and> c \<noteq> CHR ''?''"
proof (cases c)
  case (Char b0 b1 b2 b3 b4 b5 b6 b7)
  then show ?thesis
    by (cases b0; cases b1; cases b2; cases b3; cases b4; cases b5; cases b6; cases b7)
      (simp_all add: IS_URL_CHAR_def BIT_AT_def normal_url_char_tab_def flip: numeral_2_eq_2)
qed

definition hex_value :: "char \<Rightarrow> int" where
  "hex_value c =
    (if CHR ''0'' \<le> c \<and> c \<le> CHR ''9'' then of_char c - 48
     else if CHR ''A'' \<le> c \<and> c \<le> CHR ''F'' then of_char c - 55
     else if CHR ''a'' \<le> c \<and> c \<le> CHR ''f'' then of_char c - 87
     else -1)"

lemma unhex_hex_value:
  "unhex c = (if (of_char c :: nat) < 128 then hex_value c else 0)"
proof (cases c)
  case (Char b0 b1 b2 b3 b4 b5 b6 b7)
  then show ?thesis
    by (cases b0; cases b1; cases b2; cases b3; cases b4; cases b5; cases b6; cases b7)
      (simp_all add: unhex_def unhex_tab_def hex_value_def)
qed

lemma IS_HEX_hex_value: "IS_HEX c \<longleftrightarrow> hex_value c \<noteq> -1"
proof (cases c)
  case (Char b0 b1 b2 b3 b4 b5 b6 b7)
  then show ?thesis
    by (cases b0; cases b1; cases b2; cases b3; cases b4; cases b5; cases b6; cases b7)
      (simp_all add: IS_HEX_def IS_NUM_def hex_value_def)
qed

text \<open>The table \<open>unhex\<close> gives the value of a hexadecimal digit and \<open>-1\<close> for any other
  ASCII character, but 0, not \<open>-1\<close>, for all bytes from 128 on: the table has 256 entries and
  only 128 initialisers.\<close>

lemma unhex_value:
  "unhex c = (if (of_char c :: nat) \<ge> 128 then 0 else if IS_HEX c then hex_value c else -1)"
  using unhex_hex_value [of c] IS_HEX_hex_value [of c] by auto

end
