(* ===== verification/HttpSafe.thy ===== *)
theory HttpSafe
  imports HttpInv HttpChars
begin

text \<open>
  The cases of the switch keep the invariant of \<open>HttpInv\<close>, one lemma per group of cases.
\<close>

section \<open>Marks and digits\<close>

lemma marks_inv_empty [simp]: "marks l = (\<lambda>_. None) \<Longrightarrow> marks_inv l"
  by (simp add: marks_inv_def)

lemma no_marks:
  assumes "loop_inv k l" "\<And>d. p_state l \<notin> mark_states d"
  shows "marks l = (\<lambda>_. None)"
proof
  fix d show "marks l d = None"
    using assms by (cases "marks l d") (auto simp: loop_inv_def marks_inv_def)
qed

lemma IS_NUM_cases: "IS_NUM c \<Longrightarrow> c \<in> set ''0123456789''"
proof (cases c)
  case (Char b0 b1 b2 b3 b4 b5 b6 b7)
  then show "IS_NUM c \<Longrightarrow> c \<in> set ''0123456789''"
    by (cases b0; cases b1; cases b2; cases b3; cases b4; cases b5; cases b6; cases b7)
      (simp_all add: IS_NUM_def)
qed

lemma digit_of_le_64: "IS_NUM c \<Longrightarrow> (digit_of c :: u64) \<le> 9"
  by (drule IS_NUM_cases) (auto simp: digit_of_def)

lemma digit_of_le_999: "IS_NUM c \<Longrightarrow> (digit_of c :: u16) \<le> 999"
  by (drule IS_NUM_cases) (auto simp: digit_of_def)

lemma IS_NUM_digit_1: "CHR ''1'' \<le> c \<Longrightarrow> c \<le> CHR ''9'' \<Longrightarrow> IS_NUM c"
  by (simp add: IS_NUM_def char_le_iff)

lemmas IS_NUM_intros = IS_NUM_digit_1 IS_NUM_def [THEN iffD2, OF conjI]

lemmas version_defs = case_s_res_H_def case_s_res_HT_def case_s_res_HTT_def case_s_res_HTTP_def
  case_s_res_first_http_major_def case_s_res_http_major_def case_s_res_first_http_minor_def
  case_s_res_http_minor_def case_s_req_http_start_def case_s_req_http_H_def
  case_s_req_http_HT_def case_s_req_http_HTT_def case_s_req_http_HTTP_def
  case_s_req_first_http_major_def case_s_req_http_major_def case_s_req_first_http_minor_def
  case_s_req_http_minor_def case_s_req_line_almost_done_def case_s_res_line_almost_done_def
  case_s_res_first_status_code_def case_s_res_status_code_def
  major_digit_def minor_digit_def strict_expect_def STRICT_CHECK_def
lemmas assign_defs = upd_parser_def UPDATE_STATE_def SET_ERRNO_def inc_index_def reset_message_def
lemmas inv_defs = loop_inv_def state_inv_def base_inv_def extra_inv_def

lemma base_inv_cong [simp]:
  "base_inv (P\<lparr>state := s\<rparr>) = base_inv P"
  "base_inv (P\<lparr>data := d\<rparr>) = base_inv P"
  "base_inv (P\<lparr>http_errno := e\<rparr>) = base_inv P"
  "base_inv (P\<lparr>upgrade := b\<rparr>) = base_inv P"
  "base_inv (P\<lparr>ptype := t\<rparr>) = base_inv P"
  "base_inv (P\<lparr>flags := f\<rparr>) = base_inv P"
  "base_inv (P\<lparr>header_state := h\<rparr>) = base_inv P"
  "base_inv (P\<lparr>index := i\<rparr>) = base_inv P"
  "base_inv (P\<lparr>content_length := c\<rparr>) = base_inv P"
  by (simp_all add: base_inv_def)

lemma base_inv_nread: "base_inv P \<Longrightarrow> n \<le> HTTP_MAX_HEADER_SIZE \<Longrightarrow> base_inv (P\<lparr>nread := n\<rparr>)"
  by (simp add: base_inv_def)

text \<open>The situation at the label \<open>reexecute\<close> in state \<open>s\<close>.\<close>

definition at_case :: "'d env \<Rightarrow> 'd locals \<Rightarrow> state \<Rightarrow> bool" where
  "at_case E l s \<longleftrightarrow> p_off l < length (buf E) \<and> loop_inv 1 l \<and> p_state l = s"

definition unmarked :: "state \<Rightarrow> bool" where
  "unmarked s \<longleftrightarrow> s \<notin> mark_states D_header_field \<union> mark_states D_header_value
     \<union> mark_states D_url \<union> mark_states D_body \<union> mark_states D_status"

lemmas unmarked_simps = unmarked_def url_states_def

lemma unmarkedD: "unmarked s \<Longrightarrow> s \<notin> mark_states d"
  by (cases d) (simp_all add: unmarked_def)

lemma good_unmarked:
  assumes "at_case E l s"
    and "unmarked s"
    and "p_off l < length (buf E) \<Longrightarrow> http_errno (parser l) = HPE_OK \<Longrightarrow> base_inv (parser l) \<Longrightarrow>
      extra_inv 1 (parser l) s \<Longrightarrow> p_state l = s \<Longrightarrow> marks l = (\<lambda>_. None) \<Longrightarrow> good E l r"
  shows "good E l r"
proof -
  have "marks l = (\<lambda>_. None)"
    using assms(1,2) no_marks unmarkedD unfolding at_case_def by metis
  then show ?thesis using assms by (auto simp: at_case_def loop_inv_def state_inv_def)
qed

text \<open>In a state that may have the mark \<open>D\<close>, no other is set.\<close>

definition only_mark :: "data_for \<Rightarrow> 'd locals \<Rightarrow> bool" where
  "only_mark D l \<longleftrightarrow> (\<forall>d m. marks l d = Some m \<longrightarrow> d = D \<and> m \<le> p_off l)"

lemma only_mark_cong [simp]:
  "only_mark D (l\<lparr>parser := P\<rparr>) = only_mark D l"
  "only_mark D (l\<lparr>p_state := s\<rparr>) = only_mark D l"
  "only_mark D (l\<lparr>ch := c\<rparr>) = only_mark D l"
  by (simp_all add: only_mark_def)

lemma only_mark_mono: "only_mark D l \<Longrightarrow> marks l' = marks l \<Longrightarrow> p_off l \<le> p_off l' \<Longrightarrow> only_mark D l'"
  by (auto simp: only_mark_def intro: order_trans)

lemma only_mark_marks_inv: "only_mark D l \<Longrightarrow> p_state l \<in> mark_states D \<Longrightarrow> marks_inv l"
  by (auto simp: only_mark_def marks_inv_def)

lemma only_mark_unmark: "only_mark D l \<Longrightarrow> (marks l)(D := None) = (\<lambda>_. None)"
  unfolding only_mark_def by (metis fun_upd_apply option.exhaust)

lemma only_mark_MARK: "marks l = (\<lambda>_. None) \<Longrightarrow> only_mark D (MARK D l)"
  by (simp add: only_mark_def MARK_def)

lemma at_case_marked:
  assumes "at_case E l s" "s \<in> mark_states D"
  shows "only_mark D l"
  using assms mark_states_disjoint [of s D] unfolding at_case_def loop_inv_def marks_inv_def only_mark_def
  by blast

lemma at_caseD:
  assumes "at_case E l s"
  shows "p_off l < length (buf E)" "http_errno (parser l) = HPE_OK" "base_inv (parser l)"
    "extra_inv 1 (parser l) s" "p_state l = s"
  using assms by (auto simp: at_case_def loop_inv_def state_inv_def)

section \<open>Start line\<close>

lemma good_version:
  "at_case E l s_res_H \<Longrightarrow> good E l (case_s_res_H l)"
  "at_case E l s_res_HT \<Longrightarrow> good E l (case_s_res_HT l)"
  "at_case E l s_res_HTT \<Longrightarrow> good E l (case_s_res_HTT l)"
  "at_case E l s_res_HTTP \<Longrightarrow> good E l (case_s_res_HTTP l)"
  "at_case E l s_res_first_http_major \<Longrightarrow> good E l (case_s_res_first_http_major l)"
  "at_case E l s_res_http_major \<Longrightarrow> good E l (case_s_res_http_major l)"
  "at_case E l s_res_first_http_minor \<Longrightarrow> good E l (case_s_res_first_http_minor l)"
  "at_case E l s_res_http_minor \<Longrightarrow> good E l (case_s_res_http_minor l)"
  "at_case E l s_res_first_status_code \<Longrightarrow> good E l (case_s_res_first_status_code l)"
  "at_case E l s_res_status_code \<Longrightarrow> good E l (case_s_res_status_code l)"
  "at_case E l s_res_line_almost_done \<Longrightarrow> good E l (case_s_res_line_almost_done l)"
  "at_case E l s_req_http_start \<Longrightarrow> good E l (case_s_req_http_start l)"
  "at_case E l s_req_http_H \<Longrightarrow> good E l (case_s_req_http_H l)"
  "at_case E l s_req_http_HT \<Longrightarrow> good E l (case_s_req_http_HT l)"
  "at_case E l s_req_http_HTT \<Longrightarrow> good E l (case_s_req_http_HTT l)"
  "at_case E l s_req_http_HTTP \<Longrightarrow> good E l (case_s_req_http_HTTP l)"
  "at_case E l s_req_first_http_major \<Longrightarrow> good E l (case_s_req_first_http_major l)"
  "at_case E l s_req_http_major \<Longrightarrow> good E l (case_s_req_http_major l)"
  "at_case E l s_req_first_http_minor \<Longrightarrow> good E l (case_s_req_first_http_minor l)"
  "at_case E l s_req_http_minor \<Longrightarrow> good E l (case_s_req_http_minor l)"
  "at_case E l s_req_line_almost_done \<Longrightarrow> good E l (case_s_req_line_almost_done l)"
  by (erule good_unmarked;
      auto simp: unmarked_simps version_defs assign_defs inv_defs Let_def not_less
        intro: digit_of_le_999 IS_NUM_intros)+

lemma good_case_s_dead: "at_case E l s_dead \<Longrightarrow> good E l (case_s_dead l)"
  by (erule good_unmarked; auto simp: unmarked_simps case_s_dead_def inv_defs)

lemma good_case_s_res_or_resp_H:
  "at_case E l s_res_or_resp_H \<Longrightarrow> good E l (case_s_res_or_resp_H l)"
  by (erule good_unmarked; auto simp: unmarked_simps case_s_res_or_resp_H_def assign_defs inv_defs
      method_strings_def)

lemma good_case_s_res_status_start:
  "at_case E l s_res_status_start \<Longrightarrow> good E l (case_s_res_status_start l)"
  by (erule good_unmarked; auto simp: unmarked_simps case_s_res_status_start_def assign_defs
      inv_defs MARK_def marks_inv_def)

section \<open>Methods\<close>

lemma length_method_string: "3 \<le> length (method_strings ! http_method_num m)"
  "length (method_strings ! http_method_num m) \<le> 11"
  by (cases m; simp add: method_strings_def)+

lemma method_string_nonempty [simp]: "Suc 0 \<le> length (method_strings ! http_method_num m)"
  using length_method_string(1) [of m] by linarith

lemma method_switch_length:
  "method_switch m i c = Some m' \<Longrightarrow> i < length (method_strings ! http_method_num m')"
  by (auto simp: method_switch_def method_strings_def split: if_splits)

lemma unat_index_Suc: "unat (i :: 7 word) < 127 \<Longrightarrow> unat (i + 1) = Suc (unat i)"
  by (simp add: unat_word_ariths)

lemma good_case_s_req_method:
  assumes "at_case E l s_req_method"
  shows "good E l (case_s_req_method l)"
proof -
  let ?P = "parser l"
  let ?m = "method_strings ! http_method_num (method ?P)"
  show ?thesis
  proof (rule good_unmarked [OF assms])
    show "unmarked s_req_method"
      by (simp add: unmarked_simps)
    assume l: "p_off l < length (buf E)" "http_errno ?P = HPE_OK" "base_inv ?P"
      "extra_inv 1 ?P s_req_method" "p_state l = s_req_method" "marks l = (\<lambda>_. None)"
    then have i: "unat (index ?P) \<le> length ?m"
      by (simp add: extra_inv_def)
    then obtain mc where mc: "cstr_at ?m (unat (index ?P)) = Some mc"
      using cstr_at_Some_iff by blast
    have next_i: "unat (index ?P + 1) = Suc (unat (index ?P))"
      using i length_method_string(2) [of "method ?P"] by (intro unat_index_Suc) linarith
    have less: "unat (index ?P) < length ?m" if "ch l = mc" "ch l \<noteq> NUL"
      using mc i that by (auto simp: cstr_at_def split: if_splits)
    show "good E l (case_s_req_method l)"
      using l mc next_i less length_method_string(1) [of HTTP_MSEARCH]
      by (auto simp: case_s_req_method_def assign_defs inv_defs Let_def Suc_le_eq
          dest!: method_switch_length split: option.split)
  qed
qed

section \<open>URLs\<close>

lemma url_server_char_url_states: "url_server_char c \<in> insert s_dead url_states"
  by (simp add: url_server_char_def url_states_def)

lemma parse_url_char_url_states: "parse_url_char s c \<in> insert s_dead url_states"
proof (cases s)
qed (auto simp: parse_url_char_def url_server_char_def url_states_def)

lemma extra_inv_url_states: "s \<in> url_states \<Longrightarrow> extra_inv k P s"
  by (auto simp: url_states_def extra_inv_def)

lemma s_dead_not_url: "s_dead \<notin> url_states"
  by (simp add: url_states_def)

lemma good_url_char_step:
  assumes "p_off l' = p_off l" "p_off l < length (buf E)" "http_errno (parser l') = HPE_OK"
    and "base_inv (parser l')" "only_mark D_url l'"
  shows "good E l (url_char_step l')"
proof -
  let ?s = "parse_url_char (p_state l') (ch l')"
  have "?s \<in> mark_states d" if "marks l' d = Some m" "?s \<noteq> s_dead" for d m
    using assms(5) that parse_url_char_url_states [of "p_state l'" "ch l'"]
    unfolding only_mark_def by fastforce
  with assms show ?thesis
    using parse_url_char_url_states [of "p_state l'" "ch l'"]
    by (auto simp: url_char_step_def UPDATE_STATE_def Let_def loop_inv_def state_inv_def
        marks_inv_def only_mark_def extra_inv_url_states)
qed

lemma good_case_s_req_spaces_before_url:
  "at_case E l s_req_spaces_before_url \<Longrightarrow> good E l (case_s_req_spaces_before_url l)"
  by (erule good_unmarked;
      auto simp: unmarked_simps case_s_req_spaces_before_url_def only_mark_def MARK_def UPDATE_STATE_def
      inv_defs Let_def split: if_splits intro!: good_url_char_step)

lemma good_case_url_no_space:
  assumes "at_case E l s" "s \<in> url_states"
  shows "good E l (case_url_no_space l)"
  using at_caseD [OF assms(1)] at_case_marked [OF assms(1), of D_url] assms(2)
  by (simp add: case_url_no_space_def good_url_char_step)

section \<open>Cases with callbacks in the start line\<close>

context parser_callbacks
begin

lemma good_message_begin:
  assumes "settings E = S" "p_off l' < length (buf E)" "p_off l' = p_off l"
    and "http_errno (parser l') = HPE_OK" "state_inv 0 (parser l') (p_state l')" "marks l' = (\<lambda>_. None)"
  shows "good E l (CALLBACK_NOTIFY E n l' Break)"
  unfolding CALLBACK_NOTIFY_def using assms
  by (intro good_CALLBACK_NOTIFY_ER) (simp_all add: loop_inv_def)

lemma good_case_s_start_req_or_res:
  assumes "settings E = S"
  shows "at_case E l s_start_req_or_res \<Longrightarrow> good E l (case_s_start_req_or_res E l)"
  by (erule good_unmarked; auto simp: assms unmarked_simps case_s_start_req_or_res_def assign_defs
      inv_defs rank_def Let_def intro!: good_message_begin)

lemma good_case_s_start_res:
  assumes "settings E = S"
  shows "at_case E l s_start_res \<Longrightarrow> good E l (case_s_start_res E l)"
  by (erule good_unmarked; auto simp: assms unmarked_simps case_s_start_res_def assign_defs
      inv_defs Let_def intro!: good_message_begin)

lemma good_case_s_start_req:
  assumes "settings E = S"
  shows "at_case E l s_start_req \<Longrightarrow> good E l (case_s_start_req E l)"
  by (erule good_unmarked; auto simp: assms unmarked_simps case_s_start_req_def assign_defs
      inv_defs Let_def intro!: good_message_begin split: option.split)

text \<open>A data callback that ends its field, and after which no mark is left.\<close>

lemma good_end_of_field:
  assumes "settings E = S" "p_off l' < length (buf E)" "p_off l \<le> p_off l'"
    and "http_errno (parser l') = HPE_OK" "state_inv 0 (parser l') (p_state l')" "only_mark D l'"
  shows "good E l (CALLBACK_DATA E D l' Break)"
  unfolding CALLBACK_DATA_def using assms
  by (intro good_CALLBACK_DATA_ER) (simp_all add: loop_inv_def only_mark_unmark, simp add: only_mark_def)

lemma good_case_s_res_status:
  assumes "settings E = S" "at_case E l s_res_status"
  shows "good E l (case_s_res_status E l)"
  using assms(1) at_caseD [OF assms(2)] at_case_marked [OF assms(2), of D_status] assms(2)
  by (auto simp: case_s_res_status_def UPDATE_STATE_def state_inv_def extra_inv_def at_case_def loop_inv_def
      intro!: good_end_of_field)

lemma good_case_url:
  assumes "settings E = S" "at_case E l s" "s \<in> url_states"
  shows "good E l (case_url E l)"
proof -
  have "only_mark D_url l"
    using assms by (simp add: at_case_marked)
  then show ?thesis
    using assms(1) at_caseD(1-3) [OF assms(2)]
    by (auto simp: case_url_def assign_defs state_inv_def base_inv_def extra_inv_def
        intro!: good_end_of_field good_url_char_step)
qed

end

end
