(* ===== verification/HttpSafeHeaders.thy ===== *)
theory HttpSafeHeaders
  imports HttpSafe
begin

text \<open>
  The header states of the switch keep the invariant of \<open>HttpInv\<close>: the two inner loops, by
  induction, and the cases that end a header line or the headers.
\<close>

section \<open>Header names\<close>

lemma field_header_state_ok: "field_header_state c \<in> header_field_states"
  by (simp add: field_header_state_def header_field_states_def)

lemma good_case_s_header_field_start:
  "at_case E l s_header_field_start \<Longrightarrow> good E l (case_s_header_field_start l)"
  by (erule good_unmarked; auto simp: unmarked_simps case_s_header_field_start_def assign_defs MARK_def
      loop_inv_def state_inv_def extra_inv_def Let_def rank_def marks_inv_def field_header_state_ok)

text \<open>One character of a header name changes only what belongs to header recognition.\<close>

definition same_line :: "'d http_parser \<Rightarrow> 'd http_parser \<Rightarrow> bool" where
  "same_line P Q \<longleftrightarrow> http_errno Q = http_errno P \<and> (base_inv P \<longrightarrow> base_inv Q)"

lemma same_line_refl: "same_line P P"
  by (simp add: same_line_def)

lemma same_line_trans: "same_line P Q \<Longrightarrow> same_line Q R \<Longrightarrow> same_line P R"
  by (simp add: same_line_def)

lemma match_char_cases:
  "match_char str i c a b d = a \<or> match_char str i c a b d = b \<or> match_char str i c a b d = d"
  by (simp add: match_char_def)

lemma match_char_in [simp]:
  "a \<in> A \<Longrightarrow> b \<in> A \<Longrightarrow> d \<in> A \<Longrightarrow> match_char str i c a b d \<in> A"
  by (simp add: match_char_def)

lemma header_field_states_simps [simp]:
  "h_general \<in> header_field_states" "h_CO \<in> header_field_states" "h_CON \<in> header_field_states"
  "h_matching_connection \<in> header_field_states" "h_matching_proxy_connection \<in> header_field_states"
  "h_matching_content_length \<in> header_field_states" "h_matching_transfer_encoding \<in> header_field_states"
  "h_matching_upgrade \<in> header_field_states" "h_connection \<in> header_field_states"
  "h_content_length \<in> header_field_states" "h_transfer_encoding \<in> header_field_states"
  "h_upgrade \<in> header_field_states"
  by (simp_all add: header_field_states_def)

text \<open>The states that accept a character of a header name without reporting an error.\<close>

lemma header_field_char_Inr:
  assumes "header_field_char P c x = Inr Q" "header_state P \<in> header_field_states"
  shows "header_state Q \<in> header_field_states \<and> same_line P Q"
proof (cases "header_state P = h_matching_content_length")
  case True
  with assms(1) show ?thesis
    using match_char_cases [of CONTENT_LENGTH "index P + 1" c h_general h_content_length h_matching_content_length]
    by (elim disjE) (auto simp: header_field_char_def Let_def same_line_def set_flag_def split: if_splits)
next
  case False
  from assms(2) [unfolded header_field_states_def] assms(1) False show ?thesis
    by (elim insertE emptyE; auto simp: header_field_char_def Let_def same_line_def)
qed

lemma header_field_char_Inl:
  assumes "header_field_char P c x = Inl e" "header_state P \<in> header_field_states"
  shows "\<exists>Q. e = Some Q \<and> http_errno Q = HPE_UNEXPECTED_CONTENT_LENGTH"
proof (cases "header_state P = h_matching_content_length")
  case True
  with assms(1) show ?thesis
    using match_char_cases [of CONTENT_LENGTH "index P + 1" c h_general h_content_length h_matching_content_length]
    by (elim disjE) (auto simp: header_field_char_def Let_def split: if_splits)
next
  case False
  from assms(2) show ?thesis
    using assms(1) False unfolding header_field_states_def
    by (elim insertE emptyE; simp add: header_field_char_def Let_def)
qed

lemma header_field_loop_Inr:
  "header_field_loop P n y xs = Inr (Q, n', x) \<Longrightarrow> header_state P \<in> header_field_states \<Longrightarrow>
   header_state Q \<in> header_field_states \<and> same_line P Q \<and> n \<le> n' \<and> n' \<le> n + length xs"
proof (induction xs arbitrary: P n y)
  case Nil
  then show ?case by (simp add: same_line_refl)
next
  case (Cons z xs)
  show ?case
  proof (cases "header_field_char P (TOKEN z) z")
    case (Inl a)
    with Cons.prems show ?thesis
      by (auto simp: Let_def same_line_refl split: if_splits)
  next
    case (Inr R)
    note R = header_field_char_Inr [OF Inr Cons.prems(2)]
    show ?thesis
    proof (cases "TOKEN z = NUL")
      case True
      with Cons.prems show ?thesis by (simp add: same_line_refl)
    next
      case False
      with Cons.prems Inr have "header_field_loop R (Suc n) z xs = Inr (Q, n', x)"
        by simp
      from Cons.IH [OF this] R show ?thesis
        by (auto intro: same_line_trans)
    qed
  qed
qed

lemma header_field_loop_Inl:
  "header_field_loop P n y xs = Inl (e, n', x) \<Longrightarrow> header_state P \<in> header_field_states \<Longrightarrow>
   (\<exists>Q. e = Some Q \<and> http_errno Q = HPE_UNEXPECTED_CONTENT_LENGTH) \<and> n' \<le> n + length xs"
proof (induction xs arbitrary: P n y)
  case Nil
  then show ?case by simp
next
  case (Cons z xs)
  show ?case
  proof (cases "header_field_char P (TOKEN z) z")
    case (Inl a)
    with Cons.prems show ?thesis
      using header_field_char_Inl [OF Inl] by (auto simp: Let_def split: if_splits)
  next
    case (Inr Q)
    with Cons show ?thesis
      using header_field_char_Inr [OF Inr] by (fastforce simp: Let_def split: if_splits)
  qed
qed

context parser_callbacks
begin

lemma good_header_field_end:
  assumes "settings E = S" "at_case E l s_header_field" "p_off l \<le> p_off l'" "p_off l' \<le> length (buf E)"
    and "http_errno (parser l') = HPE_OK" "base_inv (parser l')" "header_state (parser l') \<in> header_field_states"
    and "p_state l' = s_header_field" "marks l' = marks l"
  shows "good E l (header_field_end E l')"
proof -
  have mark: "only_mark D_header_field l"
    using assms(2) by (simp add: at_case_marked)
  have before: "only_mark D_header_field l'"
    using mark assms by (simp add: only_mark_mono)
  show ?thesis
  proof (cases "p_off l' = length (buf E)")
    case True
    let ?l = "l'\<lparr>p_off := p_off l' - 1\<rparr>"
    have "p_off l \<le> p_off ?l"
      using True at_caseD(1) [OF assms(2)] by simp
    then have "only_mark D_header_field ?l"
      using mark assms by (simp add: only_mark_mono)
    then have "marks_inv ?l"
      by (rule only_mark_marks_inv) (simp add: assms)
    with \<open>p_off l \<le> p_off ?l\<close> show ?thesis
      using True assms at_caseD(1) [OF assms(2)]
      by (simp add: header_field_end_def loop_inv_def state_inv_def extra_inv_def)
  next
    case False
    with before show ?thesis
      using assms
      by (simp add: header_field_end_def UPDATE_STATE_def state_inv_def extra_inv_def good_end_of_field)
  qed
qed

lemma good_case_s_header_field:
  assumes "settings E = S" "at_case E l s_header_field"
  shows "good E l (case_s_header_field E l)"
proof -
  note l = at_caseD [OF assms(2)]
  have hs: "header_state (parser l) \<in> header_field_states"
    using l(4) by (simp add: extra_inv_def)
  show ?thesis
  proof (cases "header_field_loop (parser l) 0 (ch l) (drop (p_off l) (buf E))")
    case (Inl a)
    obtain e n x where a: "a = (e, n, x)" by (cases a)
    show ?thesis
      using header_field_loop_Inl [OF Inl [unfolded a] hs] Inl a l(1)
      by (auto simp: case_s_header_field_def)
  next
    case (Inr a)
    obtain Q n x where a: "a = (Q, n, x)" by (cases a)
    note Q = header_field_loop_Inr [OF Inr [unfolded a] hs]
    have "p_off l + n \<le> length (buf E)" "http_errno Q = HPE_OK" "base_inv Q"
      using Q l by (auto simp: same_line_def)
    then show ?thesis
      using Inr a Q l(5) assms
      by (auto simp: case_s_header_field_def upd_parser_def base_inv_nread
          intro!: good_COUNT_HEADER_SIZE good_header_field_end)
  qed
qed

end

section \<open>Header values\<close>

definition value_state :: "header_states \<Rightarrow> bool" where
  "value_state h \<longleftrightarrow> h \<noteq> h_connection \<and> h \<noteq> h_transfer_encoding"

lemma good_value_start:
  assumes "p_off l' = p_off l" "p_off l < length (buf E)" "http_errno (parser l') = HPE_OK"
    and "base_inv (parser l')" "marks l' = (\<lambda>_. None)"
  shows "good E l (case_s_header_value_start l')"
proof (cases "header_state (parser l')")
qed (use assms in \<open>auto simp: case_s_header_value_start_def assign_defs set_flag_def MARK_def
      loop_inv_def state_inv_def extra_inv_def marks_inv_def Let_def\<close>)

lemma good_case_s_header_value_start:
  "at_case E l s_header_value_start \<Longrightarrow> good E l (case_s_header_value_start l)"
  by (erule good_unmarked; simp add: unmarked_simps good_value_start)

lemma good_case_s_header_value_discard_ws:
  "at_case E l s_header_value_discard_ws \<Longrightarrow> good E l (case_s_header_value_discard_ws l)"
  by (erule good_unmarked; auto simp: unmarked_simps case_s_header_value_discard_ws_def UPDATE_STATE_def
      loop_inv_def state_inv_def extra_inv_def intro!: good_value_start)

lemma memchr_less: "memchr b p c limit = Some i \<Longrightarrow> i < length b"
  by (auto simp: memchr_def Let_def split: if_splits)

lemma skip_general_less: "p < length b \<Longrightarrow> skip_general b p < length b"
  by (auto simp: skip_general_def Let_def split: option.split dest!: memchr_less)

text \<open>One character of a header value.\<close>

lemma header_value_char_Inr:
  assumes "header_value_char E h l = Inr (h', l')" "value_state h" "p_off l < length (buf E)"
    and "p_state l = s_header_value"
  shows "value_state h' \<and> same_line (parser l) (parser l') \<and> p_off l' < length (buf E) \<and>
    p_state l' = s_header_value \<and> marks l' = marks l"
  using assms skip_general_less [OF assms(3)]
  by (cases h) (auto simp: header_value_char_def Let_def assign_defs set_flag_def same_line_def value_state_def
      match_char_def split: if_splits)

lemma header_value_char_Inl:
  assumes "header_value_char E h l = Inl r" "value_state h" "p_off l < length (buf E)"
  shows "good E l0 r"
  using assms
  by (cases h) (auto simp: header_value_char_def Let_def assign_defs value_state_def split: if_splits)

text \<open>Behind the loop, the parser is either in the middle of the value, or behind its CR.\<close>

lemma good_header_value_end:
  assumes "at_case E l s_header_value" "p_off l \<le> p_off l'" "p_off l' \<le> length (buf E)"
    and "http_errno (parser l') = HPE_OK" "base_inv (parser l')"
    and "p_state l' = s_header_value \<and> value_state h \<and> marks l' = marks l \<or>
      p_state l' = s_header_almost_done \<and> marks l' = (\<lambda>_. None)"
  shows "good E l (header_value_end E start h l')"
proof -
  have mark: "only_mark D_header_value l"
    using assms(1) by (simp add: at_case_marked)
  have m: "marks_inv (l'\<lparr>parser := Q, p_off := n\<rparr>)" if "p_off l \<le> n" for Q n
    using assms(6)
  proof (elim disjE conjE)
    assume "p_state l' = s_header_value" "marks l' = marks l"
    then show ?thesis
      using only_mark_mono [OF mark, of "l'\<lparr>parser := Q, p_off := n\<rparr>"] that
      by (intro only_mark_marks_inv [of D_header_value]) simp_all
  qed simp
  have inv: "loop_inv 0 (l'\<lparr>parser := (parser l')\<lparr>header_state := h, nread := r\<rparr>, p_off := n\<rparr>)"
    if "r \<le> HTTP_MAX_HEADER_SIZE" "p_off l \<le> n" for r n
    using that m [of n] assms(4-6)
    by (auto simp: loop_inv_def state_inv_def extra_inv_def base_inv_nread value_state_def)
  have "p_off l \<le> length (buf E) - 1" "length (buf E) - 1 < length (buf E)"
    using at_caseD(1) [OF assms(1)] by simp_all
  then show ?thesis
    using assms(2,3) inv [of _ "p_off l'"] inv [of _ "length (buf E) - 1"]
    by (auto simp: header_value_end_def upd_parser_def intro!: good_COUNT_HEADER_SIZE)
qed

context parser_callbacks
begin

lemma good_header_value_CR:
  assumes "settings E = S" "at_case E l s_header_value" "p_off l \<le> p_off l'" "p_off l' < length (buf E)"
    and "http_errno (parser l') = HPE_OK" "base_inv (parser l')" "marks l' = marks l"
    and "p_state l' = s_header_almost_done"
  shows "good E l (CALLBACK_DATA E D_header_value l' (header_value_end E start h))"
proof -
  have mark: "only_mark D_header_value l'"
    using assms by (simp add: at_case_marked [THEN only_mark_mono])
  then have "m \<le> p_off l'" if "marks l' D_header_value = Some m" for m
    using that by (simp add: only_mark_def)
  with assms only_mark_unmark [OF mark] show ?thesis
    unfolding CALLBACK_DATA_def
    by (intro good_CALLBACK_DATA_ER good_header_value_end) (simp_all add: state_inv_def extra_inv_def)
qed

lemma good_header_value_LF:
  assumes "settings E = S" "at_case E l s_header_value" "p_off l \<le> p_off l'" "p_off l' < length (buf E)"
    and "http_errno (parser l') = HPE_OK" "base_inv (parser l')" "marks l' = marks l"
    and "p_state l' = s_header_almost_done"
  shows "good E l (CALLBACK_DATA_NOADVANCE E D_header_value l' Reexecute)"
proof -
  have mark: "only_mark D_header_value l'"
    using assms by (simp add: at_case_marked [THEN only_mark_mono])
  then have "m \<le> p_off l'" if "marks l' D_header_value = Some m" for m
    using that by (simp add: only_mark_def)
  with assms only_mark_unmark [OF mark] at_caseD(5) [OF assms(2)] show ?thesis
    unfolding CALLBACK_DATA_NOADVANCE_def
    by (intro good_CALLBACK_DATA_ER) (simp_all add: loop_inv_def state_inv_def extra_inv_def rank_def)
qed

lemma good_header_value_loop:
  assumes "settings E = S" "at_case E l0 s_header_value"
  shows "value_state h \<Longrightarrow> p_off l0 \<le> p_off l \<Longrightarrow> p_off l \<le> length (buf E) \<Longrightarrow>
    http_errno (parser l) = HPE_OK \<Longrightarrow> base_inv (parser l) \<Longrightarrow> p_state l = s_header_value \<Longrightarrow>
    marks l = marks l0 \<Longrightarrow> good E l0 (header_value_loop E start h l)"
  using assms
proof (induction E start h l rule: header_value_loop.induct)
  case (1 E start h l)
  show ?case
  proof (cases "p_off l < length (buf E)")
    case False
    then show ?thesis
      using "1.prems" by (subst header_value_loop.simps) (simp add: good_header_value_end)
  next
    case p: True
    define x where "x = buf E ! p_off l"
    define l1 where "l1 = l\<lparr>ch := x\<rparr>"
    have eq: "header_value_loop E start h l =
       (if x = CR then
          CALLBACK_DATA E D_header_value
            (upd_parser (\<lambda>P. P\<lparr>header_state := h\<rparr>) (UPDATE_STATE s_header_almost_done l1))
            (header_value_end E start h)
        else if x = LF then
          COUNT_HEADER_SIZE (p_off l1 - start) (UPDATE_STATE s_header_almost_done l1)
            (\<lambda>l. CALLBACK_DATA_NOADVANCE E D_header_value (upd_parser (\<lambda>P. P\<lparr>header_state := h\<rparr>) l) Reexecute)
        else if \<not> lenient E \<and> \<not> IS_HEADER_CHAR x then error HPE_INVALID_HEADER_TOKEN l1
        else case header_value_char E h l1 of
               Inl r \<Rightarrow> r
             | Inr (h', l') \<Rightarrow> header_value_loop E start h' (l'\<lparr>p_off := p_off l' + 1\<rparr>))"
      using p by (subst header_value_loop.simps) (simp add: Let_def x_def l1_def)
    have l1: "p_off l1 = p_off l" "parser l1 = parser l" "p_state l1 = s_header_value" "marks l1 = marks l0"
      using "1.prems" by (simp_all add: l1_def)
    show ?thesis
    proof (cases "x = CR \<or> x = LF \<or> \<not> lenient E \<and> \<not> IS_HEADER_CHAR x")
      case True
      then show ?thesis
        using "1.prems" p l1
        by (auto simp: eq upd_parser_def UPDATE_STATE_def base_inv_nread
            intro!: good_COUNT_HEADER_SIZE good_header_value_CR good_header_value_LF)
    next
      case False
      show ?thesis
      proof (cases "header_value_char E h l1")
        case (Inl r)
        then show ?thesis
          using False header_value_char_Inl [OF Inl] "1.prems" p l1 by (simp add: eq)
      next
        case (Inr a)
        obtain h' l' where a: "a = (h', l')" by (cases a)
        note l' = header_value_char_Inr [OF Inr [unfolded a]]
        have "p_off l1 \<le> p_off l'"
          using header_value_char_p_off [OF Inr [unfolded a]] p l1 False x_def by simp
        then show ?thesis
          using "1.IH" [OF p x_def l1_def] False Inr a l' "1.prems" p l1
          by (simp add: eq same_line_def)
      qed
    qed
  qed
qed

lemma good_case_s_header_value:
  assumes "settings E = S" "at_case E l s_header_value"
  shows "good E l (case_s_header_value E l)"
  unfolding case_s_header_value_def using assms at_caseD [OF assms(2)]
  by (intro good_header_value_loop) (simp_all add: extra_inv_def value_state_def)

end

section \<open>End of a header line and of the headers\<close>

lemma finish_header_simps [simp]:
  "http_errno (finish_header P) = http_errno P" "base_inv (finish_header P) = base_inv P"
  by (cases "header_state P"; simp add: finish_header_def set_flag_def)+

lemma good_case_s_header_almost_done:
  "at_case E l s_header_almost_done \<Longrightarrow> good E l (case_s_header_almost_done l)"
  by (erule good_unmarked; auto simp: unmarked_simps case_s_header_almost_done_def assign_defs
      loop_inv_def state_inv_def extra_inv_def)

lemma good_case_s_header_value_lws:
  "at_case E l s_header_value_lws \<Longrightarrow> good E l (case_s_header_value_lws l)"
  by (erule good_unmarked; auto simp: unmarked_simps case_s_header_value_lws_def assign_defs
      loop_inv_def state_inv_def extra_inv_def rank_def)

lemma good_case_s_header_value_discard_ws_almost_done:
  "at_case E l s_header_value_discard_ws_almost_done \<Longrightarrow>
   good E l (case_s_header_value_discard_ws_almost_done l)"
  by (erule good_unmarked; auto simp: unmarked_simps case_s_header_value_discard_ws_almost_done_def
      strict_expect_def STRICT_CHECK_def assign_defs loop_inv_def state_inv_def extra_inv_def)

lemma NEW_MESSAGE_cases: "NEW_MESSAGE P \<in> {s_start_req, s_start_res, s_dead}"
  by (simp add: NEW_MESSAGE_def start_state_def)

lemma extra_inv_NEW_MESSAGE [simp]: "extra_inv k P (NEW_MESSAGE Q)"
  using NEW_MESSAGE_cases [of Q] by (auto simp: extra_inv_def)

lemma extra_inv_body:
  "extra_inv k P s_body_identity_eof"
  "extra_inv k P s_body_identity \<longleftrightarrow> content_length P \<noteq> 0 \<and> content_length P \<noteq> ULLONG_MAX"
  "extra_inv k P s_chunk_size_start \<longleftrightarrow> has_flag F_CHUNKED P \<and> nread P = k"
  by (simp_all add: extra_inv_def)

context parser_callbacks
begin

lemma good_case_s_header_value_discard_lws:
  assumes "settings E = S"
  shows "at_case E l s_header_value_discard_lws \<Longrightarrow> good E l (case_s_header_value_discard_lws E l)"
  by (erule good_unmarked; auto simp: assms unmarked_simps case_s_header_value_discard_lws_def
      CALLBACK_DATA_NOADVANCE_def assign_defs MARK_def loop_inv_def state_inv_def extra_inv_def rank_def
      intro!: good_CALLBACK_DATA_ER)

lemma good_headers_complete:
  assumes "settings E = S" "http_errno (parser l') = HPE_OK" "base_inv (parser l')"
    and "p_state l' = s_headers_done" "p_off l' < length (buf E)"
    and k: "\<And>Q. base_inv Q \<Longrightarrow> good E l (k (l'\<lparr>parser := Q\<rparr>))"
  shows "good E l (headers_complete E l' k)"
proof (cases "on_headers_complete S")
  case None
  then show ?thesis
    using k [of "parser l'"] assms by (simp add: headers_complete_def)
next
  case (Some cb)
  obtain r Q where cb: "cb (parser l') = (r, Q)"
    by fastforce
  have "base_inv Q"
    using headers_complete_keeps [OF Some, of "parser l'"] assms(3) cb by (auto elim: cb_keepsD)
  then show ?thesis
    using assms(1,2,4,5) cb Some k
    by (simp add: headers_complete_def set_flag_def RETURN_def SET_ERRNO_def parser_inv_def)
qed

lemma good_case_s_headers_almost_done:
  assumes "settings E = S"
  shows "at_case E l s_headers_almost_done \<Longrightarrow> good E l (case_s_headers_almost_done E l)"
  by (erule good_unmarked; auto simp: assms unmarked_simps case_s_headers_almost_done_def RETURN_def
      CALLBACK_NOTIFY_NOADVANCE_def assign_defs loop_inv_def state_inv_def extra_inv_def rank_def
      parser_inv_def STRICT_CHECK_def intro!: good_CALLBACK_NOTIFY_ER good_headers_complete)

lemma good_message_complete:
  assumes "settings E = S" "http_errno (parser l') = HPE_OK" "base_inv (parser l')"
    and "p_off l' < length (buf E)"
    and "\<And>d s. good E l (k (l'\<lparr>p_state := NEW_MESSAGE (parser l'),
      parser := (parser l')\<lparr>state := s, data := d\<rparr>\<rparr>))"
  shows "good E l (message_complete E l' k)"
  unfolding message_complete_def CALLBACK_NOTIFY_def UPDATE_STATE_def
  using assms by (intro good_CALLBACK_NOTIFY_ER) (simp_all add: state_inv_def)

lemma good_case_s_headers_done:
  assumes "settings E = S"
  shows "at_case E l s_headers_done \<Longrightarrow> good E l (case_s_headers_done E l)"
  by (erule good_unmarked; auto simp: assms unmarked_simps case_s_headers_done_def RETURN_def Let_def
      STRICT_CHECK_def assign_defs loop_inv_def state_inv_def extra_inv_body base_inv_nread has_flag_def
      parser_inv_def intro!: good_message_complete)

end

end
