(* ===== verification/HttpTotal.thy ===== *)
theory HttpTotal
  imports HttpSafeHeaders
begin

text \<open>
  Total correctness of \<open>http_parser_execute\<close>: the body states keep the invariant, the main
  loop returns and never fails an assertion or reads outside its buffer, and the invariant
  holds between the calls of every sequence of calls.
\<close>

section \<open>Bodies\<close>

lemma to_read_unat:
  assumes "length (buf E) < 2 ^ 64"
  shows "unat (to_read E l) = min (unat (content_length (parser l))) (length (buf E) - p_off l)"
proof -
  have "unat (of_nat (length (buf E) - p_off l) :: u64) = length (buf E) - p_off l"
    using assms by (simp add: unat_of_nat take_bit_nat_eq_self)
  then show ?thesis
    by (simp add: to_read_def min_def word_le_nat_alt)
qed

lemma only_mark_D_body_MARK: "only_mark D_body l \<Longrightarrow> only_mark D_body (MARK D_body l)"
  unfolding only_mark_def MARK_def by (auto split: option.split) (metis not_None_eq)

lemma MARK_simps [simp]: "parser (MARK d l) = parser l" "p_off (MARK d l) = p_off l"
  "p_state (MARK d l) = p_state l" "ch (MARK d l) = ch l"
  by (simp_all add: MARK_def split: option.split)

lemma advance_body:
  fixes l :: "'d locals"
  assumes "length (buf E) < 2 ^ 64" "p_off l < length (buf E)"
    and "content_length (parser l) \<noteq> 0" "content_length (parser l) \<noteq> ULLONG_MAX"
    and "only_mark D_body l"
  defines "l' \<equiv> advance_body E l"
  shows "p_off l \<le> p_off l'" "p_off l' < length (buf E)" "p_state l' = p_state l"
    "only_mark D_body l'" "content_length (parser l') \<noteq> ULLONG_MAX"
    "\<exists>c. parser l' = (parser l)\<lparr>content_length := c\<rparr>"
proof -
  let ?n = "to_read E l" and ?c = "content_length (parser l)"
  have n: "unat ?n = min (unat ?c) (length (buf E) - p_off l)"
    using assms(1) by (rule to_read_unat)
  moreover have "0 < unat ?c"
    using assms(3) by (simp add: unat_gt_0)
  ultimately have pos: "0 < unat ?n" and le: "unat ?n \<le> unat ?c"
    using assms(2) by auto
  have p: "p_off l' = p_off l + unat ?n - 1" and P: "parser l' = (parser l)\<lparr>content_length := ?c - ?n\<rparr>"
    by (simp_all add: l'_def advance_body_def upd_parser_def Let_def)
  show "p_off l \<le> p_off l'" "p_off l' < length (buf E)"
    using n pos assms(2) p by auto
  then show "only_mark D_body l'"
    using only_mark_D_body_MARK [OF assms(5), THEN only_mark_mono, of l']
    by (simp add: l'_def advance_body_def upd_parser_def Let_def)
  show "p_state l' = p_state l"
    by (simp add: l'_def advance_body_def upd_parser_def Let_def)
  have "unat (?c - ?n) = unat ?c - unat ?n"
    using le by (simp add: unat_sub word_le_nat_alt)
  then have "unat (?c - ?n) < unat ?c"
    using pos le by linarith
  then have "?c - ?n < ?c"
    by (simp add: word_less_nat_alt)
  then show "content_length (parser l') \<noteq> ULLONG_MAX"
    using P by (auto simp: ULLONG_MAX_def)
  show "\<exists>c. parser l' = (parser l)\<lparr>content_length := c\<rparr>"
    using P by blast
qed

text \<open>Chunk sizes stay below \<open>ULLONG_MAX\<close>.\<close>

lemma unhex_range: "unhex c = -1 \<or> (0 \<le> unhex c \<and> unhex c \<le> 15)"
proof (cases c)
  case (Char b0 b1 b2 b3 b4 b5 b6 b7)
  then show ?thesis
    by (cases b0; cases b1; cases b2; cases b3; cases b4; cases b5; cases b6; cases b7)
      (simp_all add: unhex_def unhex_tab_def)
qed

lemma chunk_digit_bound:
  assumes "\<not> (ULLONG_MAX - 16) div 16 < c" "0 \<le> v" "v \<le> 15"
  shows "c * 16 + of_int v \<noteq> ULLONG_MAX" "unat (c * 16 + of_int v) = unat c * 16 + nat v"
proof -
  have "unat ((ULLONG_MAX - 16) div 16 :: u64) = 1152921504606846974"
    by (simp add: ULLONG_MAX_def unat_div)
  then have c: "unat c \<le> 1152921504606846974"
    using assms(1) by (simp add: word_less_nat_alt)
  have v: "unat (of_int v :: u64) = nat v"
    using assms(2,3) by (simp add: unat_eq_nat_uint uint_word_of_int)
  have c16: "unat (c * 16) = unat c * 16"
    using c by (simp add: unat_word_ariths)
  show eq: "unat (c * 16 + of_int v) = unat c * 16 + nat v"
    using c assms(3) by (subst unat_add_lem [THEN iffD1]) (simp_all add: c16 v)
  show "c * 16 + of_int v \<noteq> ULLONG_MAX"
  proof
    assume "c * 16 + of_int v = ULLONG_MAX"
    then have "unat c * 16 + nat v = unat ULLONG_MAX"
      using eq by simp
    moreover have "unat ULLONG_MAX = 18446744073709551615"
      by (simp add: ULLONG_MAX_def unsigned_minus_1_eq_mask mask_eq_exp_minus_1)
    ultimately show False
      using c assms(3) by simp
  qed
qed

lemma extra_inv_chunk:
  "extra_inv k P s_chunk_size \<longleftrightarrow> has_flag F_CHUNKED P \<and> content_length P \<noteq> ULLONG_MAX"
  "extra_inv k P s_chunk_parameters \<longleftrightarrow> has_flag F_CHUNKED P \<and> content_length P \<noteq> ULLONG_MAX"
  "extra_inv k P s_chunk_size_almost_done \<longleftrightarrow> has_flag F_CHUNKED P \<and> content_length P \<noteq> ULLONG_MAX"
  "extra_inv k P s_chunk_data \<longleftrightarrow>
     has_flag F_CHUNKED P \<and> content_length P \<noteq> 0 \<and> content_length P \<noteq> ULLONG_MAX"
  "extra_inv k P s_chunk_data_almost_done \<longleftrightarrow> has_flag F_CHUNKED P \<and> content_length P = 0"
  "extra_inv k P s_chunk_data_done \<longleftrightarrow> has_flag F_CHUNKED P"
  "extra_inv k P s_message_done" "extra_inv k P s_header_field_start"
  by (simp_all add: extra_inv_def)

lemmas body_inv_simps = loop_inv_def state_inv_def extra_inv_body extra_inv_chunk

lemma good_case_s_body_identity_eof:
  assumes "at_case E l s_body_identity_eof"
  shows "good E l (case_s_body_identity_eof E l)"
proof -
  note l = at_caseD [OF assms]
  let ?l = "(MARK D_body l)\<lparr>p_off := length (buf E) - 1\<rparr>"
  have "only_mark D_body (MARK D_body l)"
    using assms by (simp add: at_case_marked only_mark_D_body_MARK)
  then have "only_mark D_body ?l"
    by (rule only_mark_mono) (use l(1) in simp_all)
  then have "marks_inv ?l"
    using l(5) by (simp add: only_mark_marks_inv [of D_body])
  then show ?thesis
    using l by (simp add: case_s_body_identity_eof_def body_inv_simps, linarith)
qed

lemma good_chunk_size:
  "at_case E l s_chunk_size_start \<Longrightarrow> good E l (case_s_chunk_size_start l)"
  "at_case E l s_chunk_size \<Longrightarrow> good E l (case_s_chunk_size l)"
  "at_case E l s_chunk_parameters \<Longrightarrow> good E l (case_s_chunk_parameters l)"
proof -
  have small: "of_int (unhex (ch l)) \<noteq> ULLONG_MAX" if "unhex (ch l) \<noteq> -1"
    using chunk_digit_bound(1) [of 0 "unhex (ch l)"] unhex_range [of "ch l"] that
    by (auto simp: ULLONG_MAX_def)
  show "good E l (case_s_chunk_size_start l)" if "at_case E l s_chunk_size_start"
    using that by (rule good_unmarked; use small in \<open>auto simp: unmarked_simps case_s_chunk_size_start_def
        Let_def assign_defs body_inv_simps has_flag_def\<close>)
  have "content_length (parser l) * 16 + of_int (unhex (ch l)) \<noteq> ULLONG_MAX"
    if "unhex (ch l) \<noteq> -1" "\<not> (ULLONG_MAX - 16) div 16 < content_length (parser l)"
    using chunk_digit_bound(1) [OF that(2)] unhex_range [of "ch l"] that(1) by blast
  then show "good E l (case_s_chunk_size l)" if "at_case E l s_chunk_size"
    using that by (elim good_unmarked) (auto simp: unmarked_simps case_s_chunk_size_def
        Let_def assign_defs body_inv_simps has_flag_def)
  show "good E l (case_s_chunk_parameters l)" if "at_case E l s_chunk_parameters"
    using that by (rule good_unmarked; auto simp: unmarked_simps case_s_chunk_parameters_def
        Let_def assign_defs body_inv_simps has_flag_def)
qed

lemma good_case_s_chunk_data:
  assumes "length (buf E) < 2 ^ 64" "at_case E l s_chunk_data"
  shows "good E l (case_s_chunk_data E l)"
proof -
  note l = at_caseD [OF assms(2)]
  have c: "has_flag F_CHUNKED (parser l)" "content_length (parser l) \<noteq> 0"
    "content_length (parser l) \<noteq> ULLONG_MAX"
    using l(4) by (simp_all add: extra_inv_chunk)
  have "only_mark D_body l"
    using assms(2) by (simp add: at_case_marked)
  note a = advance_body [OF assms(1) l(1) c(2,3) this]
  from a(6) obtain x where x: "parser (advance_body E l) = (parser l)\<lparr>content_length := x\<rparr>"
    by blast
  have "marks_inv (UPDATE_STATE s (advance_body E l))" if "s \<in> {s_chunk_data, s_chunk_data_almost_done}" for s
    using a(4) that by (auto simp: UPDATE_STATE_def intro!: only_mark_marks_inv [of D_body])
  moreover have "marks_inv (advance_body E l)"
    using a(3,4) l(5) by (simp add: only_mark_marks_inv [of D_body])
  ultimately show ?thesis
    using a c l x
    by (auto simp: case_s_chunk_data_def Let_def UPDATE_STATE_def body_inv_simps has_flag_def)
qed

context parser_callbacks
begin

lemma good_case_s_body_identity:
  assumes "settings E = S" "length (buf E) < 2 ^ 64" "at_case E l s_body_identity"
  shows "good E l (case_s_body_identity E l)"
proof -
  note l = at_caseD [OF assms(3)]
  have c: "content_length (parser l) \<noteq> 0" "content_length (parser l) \<noteq> ULLONG_MAX"
    using l(4) by (simp_all add: extra_inv_body)
  have "only_mark D_body l"
    using assms(3) by (simp add: at_case_marked)
  note a = advance_body [OF assms(2) l(1) c this]
  from a(6) obtain x where x: "parser (advance_body E l) = (parser l)\<lparr>content_length := x\<rparr>"
    by blast
  have m: "marks_inv (advance_body E l)"
    using a(3,4) l(5) by (simp add: only_mark_marks_inv [of D_body])
  have "m \<le> p_off (advance_body E l)" if "marks (advance_body E l) D_body = Some m" for m
    using a(4) that by (simp add: only_mark_def)
  then have "good E l (CALLBACK_DATA_ER E D_body 1 (p_off (advance_body E l))
      (UPDATE_STATE s_message_done (advance_body E l)) Reexecute)"
    using a(1,2) l x assms(1) only_mark_unmark [OF a(4)]
    by (intro good_CALLBACK_DATA_ER) (simp_all add: UPDATE_STATE_def body_inv_simps rank_def)
  then show ?thesis
    using a c l x m by (auto simp: case_s_body_identity_def Let_def body_inv_simps)
qed

lemma good_case_s_message_done:
  assumes "settings E = S"
  shows "at_case E l s_message_done \<Longrightarrow> good E l (case_s_message_done E l)"
  by (erule good_unmarked; auto simp: assms unmarked_simps case_s_message_done_def RETURN_def
      loop_inv_def state_inv_def parser_inv_def intro!: good_message_complete)

lemma good_case_s_chunk_size_almost_done:
  assumes "settings E = S"
  shows "at_case E l s_chunk_size_almost_done \<Longrightarrow> good E l (case_s_chunk_size_almost_done E l)"
  by (erule good_unmarked; auto simp: assms unmarked_simps case_s_chunk_size_almost_done_def Let_def
      STRICT_CHECK_def CALLBACK_NOTIFY_def assign_defs set_flag_def has_flag_def base_inv_nread body_inv_simps
      intro!: good_CALLBACK_NOTIFY_ER)

lemma good_case_s_chunk_data_almost_done:
  assumes "settings E = S" "at_case E l s_chunk_data_almost_done"
  shows "good E l (case_s_chunk_data_almost_done E l)"
  using assms(1) at_caseD [OF assms(2)] at_case_marked [OF assms(2), of D_body]
  by (auto simp: case_s_chunk_data_almost_done_def STRICT_CHECK_def UPDATE_STATE_def body_inv_simps
      intro!: good_end_of_field)

lemma good_case_s_chunk_data_done:
  assumes "settings E = S"
  shows "at_case E l s_chunk_data_done \<Longrightarrow> good E l (case_s_chunk_data_done E l)"
  by (erule good_unmarked; auto simp: assms unmarked_simps case_s_chunk_data_done_def Let_def
      STRICT_CHECK_def CALLBACK_NOTIFY_def assign_defs has_flag_def base_inv_nread body_inv_simps
      intro!: good_CALLBACK_NOTIFY_ER)

lemmas good_url_cases = good_case_url_no_space good_case_url

lemmas good_start_cases = good_case_s_dead good_case_s_start_req_or_res good_case_s_res_or_resp_H
  good_case_s_start_res good_version good_case_s_res_status_start good_case_s_res_status
  good_case_s_start_req good_case_s_req_method good_case_s_req_spaces_before_url

lemmas good_header_cases = good_case_s_header_field_start good_case_s_header_field
  good_case_s_header_value_discard_ws good_case_s_header_value_start good_case_s_header_value
  good_case_s_header_almost_done good_case_s_header_value_lws
  good_case_s_header_value_discard_ws_almost_done good_case_s_header_value_discard_lws
  good_case_s_headers_almost_done good_case_s_headers_done

lemmas good_body_cases = good_case_s_body_identity good_case_s_body_identity_eof
  good_case_s_message_done good_chunk_size good_case_s_chunk_size_almost_done good_case_s_chunk_data
  good_case_s_chunk_data_almost_done good_case_s_chunk_data_done

lemma good_switch_state:
  assumes "settings E = S" "length (buf E) < 2 ^ 64" "p_off l < length (buf E)" "loop_inv 1 l"
  shows "good E l (switch_state E l)"
proof -
  have at: "at_case E l (p_state l)"
    using assms by (simp add: at_case_def)
  show ?thesis
  proof (cases "p_state l")
  qed (use at assms(1,2) in \<open>simp_all add: switch_state_def good_start_cases good_header_cases
      good_body_cases good_url_cases [where s = "p_state l"] url_states_def\<close>)
qed

end

section \<open>The main loop\<close>

lemma extra_inv_other: "s \<noteq> s_chunk_size_start \<Longrightarrow> extra_inv k (P\<lparr>nread := n\<rparr>) s = extra_inv k' P s"
  by (cases s; simp add: extra_inv_def has_flag_def)

lemma PARSING_HEADER_chunk_size_start: "PARSING_HEADER s_chunk_size_start"
  by (simp add: PARSING_HEADER_def)

text \<open>The head of the loop counts the byte and establishes what the switch expects.\<close>

lemma good_loop_head:
  assumes "p_off l < length (buf E)" "loop_inv 0 l"
  shows "case loop_head E l of
      Break l' \<Rightarrow> p_off l' = p_off l \<and> p_state l' = p_state l \<and> loop_inv 1 l'
    | Goto_error l' \<Rightarrow> p_off l' \<le> length (buf E) \<and> http_errno (parser l') \<notin> {HPE_OK, HPE_PAUSED}
    | _ \<Rightarrow> False"
proof -
  let ?P = "parser l"
  have 1: "extra_inv 1 ?P (p_state l)" if "\<not> PARSING_HEADER (p_state l)"
    using assms(2) that extra_inv_other [where s = "p_state l" and k = 1 and P = ?P and n = "nread ?P" and k' = 0] PARSING_HEADER_chunk_size_start
    by (cases "p_state l = s_chunk_size_start") (simp_all add: loop_inv_def state_inv_def)
  have "extra_inv 1 (?P\<lparr>nread := nread ?P + 1\<rparr>) (p_state l)"
    using assms(2) extra_inv_other [where s = "p_state l" and k = 1 and P = ?P and n = "nread ?P + 1" and k' = 0]
    by (cases "p_state l = s_chunk_size_start")
      (simp_all add: loop_inv_def state_inv_def extra_inv_body has_flag_def)
  with 1 show ?thesis
    using assms
    by (auto simp: loop_head_def Let_def COUNT_HEADER_SIZE_def upd_parser_def error_def SET_ERRNO_def
        loop_inv_def state_inv_def base_inv_nread not_less)
qed

lemma loop_inv_p_off: "loop_inv k l \<Longrightarrow> loop_inv k (l\<lparr>p_off := Suc (p_off l)\<rparr>)"
  by (force simp: loop_inv_def marks_inv_def)

text \<open>What a call that processes its buffer gives.\<close>

definition exec_post :: "nat \<Rightarrow> 'd exec_result \<Rightarrow> bool" where
  "exec_post len r \<longleftrightarrow>
    (case r of
       Inl f \<Rightarrow> False
     | Inr (n, Q) \<Rightarrow> n \<le> len \<and> parser_inv Q \<and> (http_errno Q = HPE_OK \<longrightarrow> upgrade Q \<or> n = len))"

lemma exec_post_leave:
  "good E l (Return n Q) \<Longrightarrow> exec_post (length (buf E)) (leave (Return n Q))"
  "good E l (Goto_error l') \<Longrightarrow> exec_post (length (buf E)) (leave (Goto_error l'))"
  by (auto simp: exec_post_def at_error_def Let_def parser_inv_def)

lemma length_le_1:
  assumes "distinct xs" "\<And>x y. x \<in> set xs \<Longrightarrow> y \<in> set xs \<Longrightarrow> x = y"
  shows "length xs \<le> 1"
proof (cases xs rule: remdups_adj.cases)
  case (3 x y zs)
  then show ?thesis
    using assms(1) assms(2) [of x y] by simp
qed simp_all

lemma one_mark:
  assumes "marks_inv l" "distinct ds"
  shows "length (filter (\<lambda>d. marks l d \<noteq> None) ds) \<le> 1"
proof (rule length_le_1)
  show "d = d'" if "d \<in> set (filter (\<lambda>d. marks l d \<noteq> None) ds)" "d' \<in> set (filter (\<lambda>d. marks l d \<noteq> None) ds)"
    for d d'
    using that marks_inv_single [OF assms(1), of d d'] by simp
qed (simp add: assms(2))

definition flush_inv :: "'d env \<Rightarrow> 'd locals \<Rightarrow> bool" where
  "flush_inv E l \<longleftrightarrow> p_off l = length (buf E) \<and> http_errno (parser l) = HPE_OK \<and>
     state_inv 0 (parser l) (p_state l) \<and> (\<forall>d m. marks l d = Some m \<longrightarrow> m \<le> p_off l)"

lemma good_RETURN_flush: "flush_inv E l' \<Longrightarrow> good E l (RETURN (length (buf E)) l')"
  by (simp add: flush_inv_def RETURN_def parser_inv_def)

context parser_callbacks
begin

lemma good_flush:
  assumes "settings E = S" "flush_inv E l'" "\<And>l''. flush_inv E l'' \<Longrightarrow> good E l (k l'')"
  shows "good E l (CALLBACK_DATA_NOADVANCE E D l' k)"
  unfolding CALLBACK_DATA_NOADVANCE_def using assms(1,2)
  by (intro good_CALLBACK_DATA_ER assms(3)) (auto simp: flush_inv_def)

lemma good_flush_marks:
  assumes "settings E = S" "loop_inv 0 l" "p_off l = length (buf E)"
  shows "good E l (flush_marks E l)"
proof -
  have "flush_inv E l"
    using assms(2,3) by (auto simp: flush_inv_def loop_inv_def marks_inv_def)
  moreover have "marks_inv l"
    using assms(2) by (simp add: loop_inv_def)
  ultimately show ?thesis
    unfolding flush_marks_def good_assertion
    by (intro conjI one_mark good_flush assms(1) good_RETURN_flush) simp_all
qed

lemma flush_marks_post:
  assumes "settings E = S" "loop_inv 0 l" "p_off l = length (buf E)"
  shows "exec_post (length (buf E)) (leave (flush_marks E l))"
proof -
  have g: "good E l (flush_marks E l)"
    using assms by (rule good_flush_marks)
  then consider n Q where "flush_marks E l = Return n Q" | l' where "flush_marks E l = Goto_error l'"
    using assms(3) by (cases "flush_marks E l") auto
  then show ?thesis
    using g by cases (simp_all only: exec_post_leave)
qed

text \<open>The loop returns: every jump to \<open>reexecute\<close> lowers the rank of the state, every
  \<open>break\<close> consumes a byte.\<close>

lemma main_loop_total:
  assumes "settings E = S" "length (buf E) < 2 ^ 64"
  shows "p_off l \<le> length (buf E) \<Longrightarrow> (re \<longrightarrow> p_off l < length (buf E)) \<Longrightarrow>
    loop_inv (if re then 1 else 0) l \<Longrightarrow>
    \<exists>r. main_loop E re l = Some r \<and> exec_post (length (buf E)) r"
proof (induction "(length (buf E) - p_off l) * 5 + (if re then rank (p_state l) else 4)"
    arbitrary: re l rule: less_induct)
  case less
  show ?case
  proof (cases re)
    case True
    then have g: "good E l (switch_state E l)"
      using less.prems assms by (intro good_switch_state) auto
    show ?thesis
    proof (cases "switch_state E l")
      case (Break l')
      then show ?thesis
        using less.hyps [of "l'\<lparr>p_off := Suc (p_off l')\<rparr>" False] g True
        by (subst main_loop.simps) (auto simp: loop_inv_p_off)
    next
      case (Reexecute l')
      then show ?thesis
        using less.hyps [of l' True] g True by (subst main_loop.simps) auto
    next
      case (Goto_error l')
      then show ?thesis
        using True g exec_post_leave(2) [of E l l'] by (subst main_loop.simps) auto
    next
      case (Return n Q)
      then show ?thesis
        using True g exec_post_leave(1) [of E l n Q] by (subst main_loop.simps) auto
    next
      case (Fault f)
      then show ?thesis using g by simp
    qed
  next
    case head: False
    show ?thesis
    proof (cases "p_off l = length (buf E)")
      case True
      then show ?thesis
        using head less.prems assms(1) flush_marks_post [of E l] by (subst main_loop.simps) simp
    next
      case False
      then have g: "p_off l < length (buf E)"
        using less.prems by simp
      note h = good_loop_head [OF g]
      show ?thesis
      proof (cases "loop_head E l")
        case (Break l')
        have "rank (p_state l) < 4"
          by (simp add: rank_def)
        with Break show ?thesis
          using less.hyps [of l' True] h head False less.prems by (subst main_loop.simps) simp
      next
        case (Goto_error l')
        then show ?thesis
          using exec_post_leave(2) [of E l l'] h head False less.prems
          by (subst main_loop.simps) (simp del: leave.simps)
      qed (use h head less.prems in simp_all)
    qed
  qed
qed

text \<open>An empty buffer stands for the end of the connection.\<close>

lemma notify_eof:
  assumes "http_errno P = HPE_OK" "parser l = P" "p_state l = state P" "settings E = S" "p_off l = 0"
  shows "\<exists>e d. CALLBACK_NOTIFY_NOADVANCE E n l (\<lambda>l. Return 0 (parser l)) =
    Return 0 (P\<lparr>http_errno := e, data := d\<rparr>)"
proof (cases "on_notify n S")
  case None
  then have "CALLBACK_NOTIFY_NOADVANCE E n l (\<lambda>l. Return 0 (parser l)) =
      Return 0 (P\<lparr>http_errno := http_errno P, data := data P\<rparr>)"
    using assms by (simp add: CALLBACK_NOTIFY_NOADVANCE_def CALLBACK_NOTIFY_ER_def assertion_def)
  then show ?thesis by blast
next
  case (Some cb)
  obtain e d where Q: "snd (cb P) = P\<lparr>http_errno := e, data := d\<rparr>"
    using notify_keeps [OF Some, of P] by (elim cb_keepsD)
  have "CALLBACK_NOTIFY_NOADVANCE E n l (\<lambda>l. Return 0 (parser l)) =
      Return 0 (P\<lparr>http_errno := (if fst (cb P) \<noteq> 0 then HPE_CB_notify n else e), data := d\<rparr>)"
    using assms Some Q
    by (simp add: CALLBACK_NOTIFY_NOADVANCE_def CALLBACK_NOTIFY_ER_def assertion_def after_callback_def
        UPDATE_STATE_def Let_def)
  then show ?thesis by blast
qed

lemma execute_eof_post:
  assumes "http_errno P = HPE_OK" "parser_inv P" "parser l = P" "p_state l = state P" "settings E = S"
    and "p_off l = 0"
  shows "\<exists>n Q. execute_eof E l = Inr (n, Q) \<and> parser_inv Q \<and>
    (n = 0 \<or> n = 1 \<and> http_errno Q = HPE_INVALID_EOF_STATE)"
proof (cases "state P = s_body_identity_eof")
  case True
  obtain e d where "CALLBACK_NOTIFY_NOADVANCE E N_message_complete l (\<lambda>l. Return 0 (parser l)) =
      Return 0 (P\<lparr>http_errno := e, data := d\<rparr>)"
    using notify_eof assms by blast
  then show ?thesis
    using assms True by (auto simp: execute_eof_def parser_inv_def)
next
  case False
  then show ?thesis
    using assms by (cases "state P") (simp_all add: execute_eof_def Let_def parser_inv_def)
qed

lemma entry_marks_inv: "entry_marks s d = Some m \<Longrightarrow> m = 0 \<and> s \<in> mark_states d"
  by (cases d) (auto simp: entry_marks_def split: if_splits)

lemma execute_post:
  assumes "parser_inv P" "length dat < 2 ^ 64"
  shows "\<exists>n Q. http_parser_execute S P dat = Some (Inr (n, Q)) \<and> parser_inv Q \<and>
    (n \<le> length dat \<or> dat = [] \<and> n = 1 \<and> http_errno Q = HPE_INVALID_EOF_STATE) \<and>
    (http_errno Q = HPE_OK \<longrightarrow> n = length dat \<or> upgrade Q)"
proof -
  let ?E = "\<lparr>settings = S, buf = dat, lenient = lenient_http_headers P\<rparr>"
  let ?l = "\<lparr>parser = P, p_off = 0, ch = NUL, p_state = state P, marks = (\<lambda>_. None)\<rparr>"
  consider "http_errno P \<noteq> HPE_OK" | "http_errno P = HPE_OK" "dat = []" | "http_errno P = HPE_OK" "dat \<noteq> []"
    by blast
  then show ?thesis
  proof cases
    case 1
    then show ?thesis
      using assms(1) by (simp add: http_parser_execute_def Let_def)
  next
    case 2
    obtain n Q where "execute_eof ?E ?l = Inr (n, Q)" "parser_inv Q"
      "n = 0 \<or> n = 1 \<and> http_errno Q = HPE_INVALID_EOF_STATE"
      using execute_eof_post [of P ?l ?E] 2 assms(1) by auto
    then show ?thesis
      using 2 by (auto simp: http_parser_execute_def Let_def)
  next
    case 3
    then have "loop_inv 0 (?l\<lparr>marks := entry_marks (state P)\<rparr>)"
      using assms(1) by (auto simp: loop_inv_def marks_inv_def parser_inv_def dest: entry_marks_inv)
    then obtain r where "main_loop ?E False (?l\<lparr>marks := entry_marks (state P)\<rparr>) = Some r"
      "exec_post (length dat) r"
      using main_loop_total [of ?E "?l\<lparr>marks := entry_marks (state P)\<rparr>" False] assms(2) by auto
    then show ?thesis
      using 3 by (auto simp: http_parser_execute_def Let_def exec_post_def split: sum.splits)
  qed
qed

end

end
