(* ===== verification/HttpRun.thy ===== *)
theory HttpRun
  imports HttpTotal
begin

text \<open>
  Sequences of calls: \<open>http_parser_init\<close>, \<open>http_parser_execute\<close> on successive buffers and
  \<open>http_parser_pause\<close>, for callbacks that keep the contract \<open>parser_callbacks\<close>.  The
  contract holds for \<open>http_parser_settings_init\<close> and for callbacks that record every
  event, which the statements about delivered data use.
\<close>

section \<open>Callbacks\<close>

interpretation no_cb: parser_callbacks "http_parser_settings_init :: 'd http_parser_settings"
proof
  show "cb_keeps P (snd (cb P))" if "on_notify n http_parser_settings_init = Some cb"
    for n cb and P :: "'d http_parser"
    using that by (cases n) (simp_all add: http_parser_settings_init_def)
  show "cb_keeps P (snd (dcb P xs))" if "on_data d http_parser_settings_init = Some dcb"
    for d dcb xs and P :: "'d http_parser"
    using that by (cases d) (simp_all add: http_parser_settings_init_def)
qed (simp add: http_parser_settings_init_def)

datatype event =
    Ev_message_begin | Ev_url string | Ev_status string | Ev_header_field string
  | Ev_header_value string | Ev_headers_complete | Ev_body string | Ev_message_complete
  | Ev_chunk_header | Ev_chunk_complete

definition log_event :: "event \<Rightarrow> event list http_parser \<Rightarrow> int \<times> event list http_parser" where
  "log_event e P = (0, P\<lparr>data := data P @ [e]\<rparr>)"

definition recorder :: "event list http_parser_settings" where
  "recorder =
    \<lparr>on_message_begin = Some (log_event Ev_message_begin), on_url = Some (\<lambda>P xs. log_event (Ev_url xs) P),
     on_status = Some (\<lambda>P xs. log_event (Ev_status xs) P),
     on_header_field = Some (\<lambda>P xs. log_event (Ev_header_field xs) P),
     on_header_value = Some (\<lambda>P xs. log_event (Ev_header_value xs) P),
     on_headers_complete = Some (log_event Ev_headers_complete),
     on_body = Some (\<lambda>P xs. log_event (Ev_body xs) P),
     on_message_complete = Some (log_event Ev_message_complete),
     on_chunk_header = Some (log_event Ev_chunk_header),
     on_chunk_complete = Some (log_event Ev_chunk_complete)\<rparr>"

lemma log_event_keeps: "cb_keeps P (snd (log_event e P))"
  by (simp add: cb_keeps_def log_event_def)

interpretation recorded: parser_callbacks recorder
proof
  show "cb_keeps P (snd (cb P))" if "on_notify n recorder = Some cb" for n cb and P :: "event list http_parser"
    using that by (cases n) (auto simp: recorder_def log_event_keeps)
  show "cb_keeps P (snd (dcb P xs))" if "on_data d recorder = Some dcb" for d dcb xs and P :: "event list http_parser"
    using that by (cases d) (auto simp: recorder_def log_event_keeps)
qed (auto simp: recorder_def log_event_keeps)

section \<open>Reachable parsers\<close>

inductive parser_run :: "'d http_parser_settings \<Rightarrow> 'd http_parser \<Rightarrow> bool" for S where
  init: "parser_run S (http_parser_init d t)"
| execute: "parser_run S P \<Longrightarrow> length dat < 2 ^ 64 \<Longrightarrow>
    http_parser_execute S P dat = Some (Inr (n, Q)) \<Longrightarrow> parser_run S Q"
| pause: "parser_run S P \<Longrightarrow> http_parser_pause P b = Inr Q \<Longrightarrow> parser_run S Q"

lemma parser_inv_init [simp]: "parser_inv (http_parser_init d t)"
  by (simp add: parser_inv_def http_parser_init_def state_inv_def base_inv_def extra_inv_def
      HTTP_MAX_HEADER_SIZE_def)

lemma parser_inv_pause: "parser_inv P \<Longrightarrow> http_parser_pause P b = Inr Q \<Longrightarrow> parser_inv Q"
  by (auto simp: parser_inv_def http_parser_pause_def split: if_splits)

context parser_callbacks
begin

lemma run_inv: "parser_run S P \<Longrightarrow> parser_inv P"
proof (induction rule: parser_run.induct)
  case (execute P dat n Q)
  then show ?case
    using execute_post [of P dat] by auto
qed (auto intro: parser_inv_pause)

end

text \<open>C1.  No sequence of calls makes the parser fail: on every parser that calls of
  \<open>http_parser_init\<close>, \<open>http_parser_execute\<close> and \<open>http_parser_pause\<close> can produce, with
  callbacks that only use \<open>data\<close> and pause, \<open>http_parser_execute\<close> returns for every buffer;
  it fails no assertion and reads no byte outside the buffer or a table; it reports at most
  the bytes it was given (or 1 for an unexpected end of the connection); and without an error
  it has consumed all bytes or the connection is to be upgraded.\<close>

theorem http_parser_execute_total:
  assumes "parser_callbacks S" "parser_run S P" "length dat < 2 ^ 64"
  shows "\<exists>n Q. http_parser_execute S P dat = Some (Inr (n, Q)) \<and>
    (n \<le> length dat \<or> dat = [] \<and> n = 1 \<and> http_errno Q = HPE_INVALID_EOF_STATE) \<and>
    (http_errno Q = HPE_OK \<longrightarrow> n = length dat \<or> upgrade Q)"
  using parser_callbacks.execute_post [OF assms(1) parser_callbacks.run_inv [OF assms(1,2)] assms(3)]
  by blast

theorem http_parser_execute_total_witness:
  "\<exists>n Q. http_parser_execute recorder (http_parser_init [] HTTP_BOTH) ''GET /x HTTP/1.1'' = Some (Inr (n, Q)) \<and>
    (n \<le> length ''GET /x HTTP/1.1'' \<or>
      ''GET /x HTTP/1.1'' = '''' \<and> n = 1 \<and> http_errno Q = HPE_INVALID_EOF_STATE) \<and>
    (http_errno Q = HPE_OK \<longrightarrow> n = length ''GET /x HTTP/1.1'' \<or> upgrade Q)"
  by (rule http_parser_execute_total [OF recorded.parser_callbacks_axioms parser_run.init]) simp

text \<open>C16.  Between calls, a parser that can go on satisfies its invariant: at most
  \<open>HTTP_MAX_HEADER_SIZE\<close> header bytes are counted, version and status numbers have at most
  three digits, a parser inside a chunked body has the flag \<open>F_CHUNKED\<close>, and one inside a body of
  known length expects a positive number of bytes.\<close>

theorem parser_run_invariant:
  assumes "parser_callbacks S" "parser_run S P" "http_errno P = HPE_OK \<or> http_errno P = HPE_PAUSED"
  shows "nread P \<le> 81920 \<and> http_major P \<le> 999 \<and> http_minor P \<le> 999 \<and> status_code P \<le> 999 \<and>
    (state P \<in> {s_chunk_size_start, s_chunk_size, s_chunk_parameters, s_chunk_size_almost_done,
       s_chunk_data, s_chunk_data_almost_done, s_chunk_data_done} \<longrightarrow> has_flag F_CHUNKED P) \<and>
    (state P \<in> {s_body_identity, s_chunk_data} \<longrightarrow> 0 < content_length P \<and> content_length P < ULLONG_MAX)"
proof -
  have "state_inv 0 P (state P)"
    using parser_callbacks.run_inv [OF assms(1,2)] assms(3) by (auto simp: parser_inv_def)
  moreover have "x < ULLONG_MAX" if "x \<noteq> ULLONG_MAX" for x
    using that by (simp add: ULLONG_MAX_def word_order.not_eq_extremum)
  ultimately show ?thesis
    by (auto simp: state_inv_def base_inv_def extra_inv_body extra_inv_chunk HTTP_MAX_HEADER_SIZE_def
        word_gt_0)
qed

theorem parser_run_invariant_witness:
  "nread (http_parser_init () HTTP_REQUEST) \<le> 81920 \<and> http_major (http_parser_init () HTTP_REQUEST) \<le> 999 \<and>
   status_code (http_parser_init () HTTP_REQUEST) \<le> 999"
  using parser_run_invariant [OF no_cb.parser_callbacks_axioms parser_run.init, of "()" HTTP_REQUEST]
  by (simp add: http_parser_init_def)

end
