(* ===== verification/HttpRequest.thy ===== *)
theory HttpRequest
  imports HttpRun
begin

text \<open>
  Request methods: the byte by byte search through the methods, which changes its guess when
  a letter contradicts it, accepts exactly the 33 names of the table \<open>method_strings\<close>.
\<close>

section \<open>Single steps of the main loop\<close>

text \<open>A byte whose case ends in \<open>break\<close>, and one whose case ends in an error.\<close>

lemma main_loop_Break:
  assumes "p_off l < length (buf E)" "loop_head E l = Break l1" "switch_state E l1 = Break l2"
  shows "main_loop E False l = main_loop E False (l2\<lparr>p_off := p_off l2 + 1\<rparr>)"
proof -
  have "main_loop E False l = main_loop E True l1"
    using assms(1,2) by (subst main_loop.simps) simp
  also have "\<dots> = main_loop E False (l2\<lparr>p_off := p_off l2 + 1\<rparr>)"
    using assms(3) by (subst main_loop.simps) simp
  finally show ?thesis .
qed

lemma main_loop_Reexecute:
  assumes "p_off l < length (buf E)" "loop_head E l = Break l1" "switch_state E l1 = Reexecute l2"
  shows "main_loop E False l = main_loop E True l2"
  using assms by (subst main_loop.simps, simp, subst main_loop.simps, simp)

lemma main_loop_error:
  assumes "p_off l < length (buf E)" "loop_head E l = Break l1" "switch_state E l1 = Goto_error l2"
  shows "main_loop E False l = Some (at_error l2)"
  using assms by (subst main_loop.simps, simp, subst main_loop.simps, simp)

lemma main_loop_end:
  "p_off l = length (buf E) \<Longrightarrow> main_loop E False l = Some (leave (flush_marks E l))"
  by (subst main_loop.simps) simp

lemma flush_no_marks:
  "http_errno (parser l) = HPE_OK \<Longrightarrow> marks l = (\<lambda>_. None) \<Longrightarrow>
   flush_marks E l = RETURN (length (buf E)) l"
  by (simp add: flush_marks_def assertion_def CALLBACK_DATA_NOADVANCE_def CALLBACK_DATA_ER_def)

lemma drop_eq_ConsD:
  "drop n xs = y # ys \<Longrightarrow> n < length xs \<and> xs ! n = y \<and> drop (Suc n) xs = ys"
  by (metis Cons_nth_drop_Suc drop_all linorder_not_less list.discI list.inject)

text \<open>Counting a header byte.\<close>

definition count_byte :: "'d env \<Rightarrow> 'd locals \<Rightarrow> 'd locals" where
  "count_byte E l = l\<lparr>ch := buf E ! p_off l, parser := (parser l)\<lparr>nread := nread (parser l) + 1\<rparr>\<rparr>"

lemma loop_head_count:
  assumes "p_off l < length (buf E)" "PARSING_HEADER (p_state l)" "nread (parser l) < HTTP_MAX_HEADER_SIZE"
  shows "loop_head E l = Break (count_byte E l)"
proof -
  have "nread (parser l) + 1 \<le> HTTP_MAX_HEADER_SIZE"
    using assms(3) by (rule inc_le)
  then show ?thesis
    using assms(1,2) by (simp add: loop_head_def COUNT_HEADER_SIZE_def upd_parser_def count_byte_def Let_def leD)
qed

section \<open>The search\<close>

abbreviation method_name :: "http_method \<Rightarrow> string" where
  "method_name m \<equiv> method_strings ! http_method_num m"

text \<open>The guess after reading \<open>c\<close> behind \<open>i\<close> letters of the guess \<open>m\<close>.\<close>

definition method_next :: "http_method \<Rightarrow> nat \<Rightarrow> char \<Rightarrow> http_method option" where
  "method_next m i c =
    (if c = NUL then None
     else if i < length (method_name m) \<and> method_name m ! i = c then Some m
     else if IS_ALPHA c then method_switch m i c
     else if c = CHR ''-'' \<and> i = 1 \<and> m = HTTP_MKCOL then Some HTTP_MSEARCH
     else None)"

fun method_scan :: "http_method \<Rightarrow> nat \<Rightarrow> string \<Rightarrow> (http_method \<times> nat) option" where
  "method_scan m i [] = Some (m, i)"
| "method_scan m i (c # cs) =
    (case method_next m i c of None \<Rightarrow> None | Some m' \<Rightarrow> method_scan m' (Suc i) cs)"

text \<open>A new guess agrees with the old one on the letters already read.\<close>

lemma method_switch_prefix:
  "method_switch m i c = Some m' \<Longrightarrow>
   take (Suc i) (method_name m') = take i (method_name m) @ [c] \<and> i < length (method_name m')"
  by (auto simp: method_switch_def method_strings_def split: if_splits)

lemma method_next_prefix:
  assumes "method_next m i c = Some m'"
  shows "take (Suc i) (method_name m') = take i (method_name m) @ [c] \<and> i < length (method_name m')"
  using assms method_switch_prefix [of m i c m']
  by (auto simp: method_next_def take_Suc_conv_app_nth method_strings_def split: if_splits)

lemma method_scan_prefix:
  "method_scan m i cs = Some (m', i') \<Longrightarrow> i \<le> length (method_name m) \<Longrightarrow>
   take i' (method_name m') = take i (method_name m) @ cs \<and> i' = i + length cs \<and> i' \<le> length (method_name m')"
proof (induction cs arbitrary: m i)
  case (Cons c cs)
  then obtain m1 where m1: "method_next m i c = Some m1" "method_scan m1 (Suc i) cs = Some (m', i')"
    by (auto split: option.splits)
  with Cons.IH [OF m1(2)] method_next_prefix [OF m1(1)] show ?case
    by auto
qed simp

definition all_methods :: "http_method list" where
  "all_methods =
    [HTTP_DELETE, HTTP_GET, HTTP_HEAD, HTTP_POST, HTTP_PUT, HTTP_CONNECT, HTTP_OPTIONS, HTTP_TRACE,
     HTTP_COPY, HTTP_LOCK, HTTP_MKCOL, HTTP_MOVE, HTTP_PROPFIND, HTTP_PROPPATCH, HTTP_SEARCH,
     HTTP_UNLOCK, HTTP_BIND, HTTP_REBIND, HTTP_UNBIND, HTTP_ACL, HTTP_REPORT, HTTP_MKACTIVITY,
     HTTP_CHECKOUT, HTTP_MERGE, HTTP_MSEARCH, HTTP_NOTIFY, HTTP_SUBSCRIBE, HTTP_UNSUBSCRIBE,
     HTTP_PATCH, HTTP_PURGE, HTTP_MKCALENDAR, HTTP_LINK, HTTP_UNLINK]"

lemma method_strings_names: "w \<in> set method_strings \<longleftrightarrow> (\<exists>m. w = method_name m)"
proof
  have "method_strings = map method_name all_methods"
    by (simp add: all_methods_def method_strings_def)
  then show "\<exists>m. w = method_name m" if "w \<in> set method_strings"
    using that by (metis imageE set_map)
  show "w \<in> set method_strings" if "\<exists>m. w = method_name m"
    using that
  proof
    fix m assume "w = method_name m"
    then show ?thesis by (cases m) (simp_all add: method_strings_def)
  qed
qed

text \<open>From the first letter on, the search finds every method.\<close>

lemma method_scan_complete:
  "first_method (hd (method_name m)) \<noteq> None \<and>
   method_scan (the (first_method (hd (method_name m)))) 1 (tl (method_name m)) =
     Some (m, length (method_name m))"
  by (cases m; simp add: method_strings_def first_method_def method_next_def method_switch_def IS_ALPHA_def)

lemma first_method_prefix: "first_method c = Some m \<Longrightarrow> take 1 (method_name m) = [c]"
  by (auto simp: first_method_def method_strings_def split: if_splits)

lemma method_name_inject: "method_name m = method_name m' \<Longrightarrow> m = m'"
  using method_scan_complete [of m] method_scan_complete [of m'] by simp

section \<open>The parser performs the search\<close>

lemma case_s_req_method_next:
  assumes "unat (index (parser l)) \<le> length (method_name (method (parser l)))" "ch l \<noteq> SP"
  shows "case_s_req_method l =
    (case method_next (method (parser l)) (unat (index (parser l))) (ch l) of
       None \<Rightarrow> error HPE_INVALID_METHOD l
     | Some m \<Rightarrow> Break (inc_index (upd_parser (\<lambda>P. P\<lparr>method := m\<rparr>) l)))"
  using assms
  by (auto simp: case_s_req_method_def method_next_def Let_def cstr_at_def upd_parser_def inc_index_def
      split: option.split)

lemma case_s_req_method_space:
  assumes "unat (index (parser l)) \<le> length (method_name (method (parser l)))" "ch l = SP"
  shows "case_s_req_method l =
    (if unat (index (parser l)) = length (method_name (method (parser l)))
     then Break (inc_index (UPDATE_STATE s_req_spaces_before_url l)) else error HPE_INVALID_METHOD l)"
proof -
  have "SP \<notin> set (method_name m)" "NUL \<notin> set (method_name m)" for m
    by (cases m; simp add: method_strings_def)+
  then have "method_name m ! i \<noteq> SP" "method_name m ! i \<noteq> NUL" if "i < length (method_name m)" for m i
    using that nth_mem by metis+
  from this [of "unat (index (parser l))" "method (parser l)"] show ?thesis
    using assms
    by (cases "unat (index (parser l)) = length (method_name (method (parser l)))")
      (auto simp: case_s_req_method_def Let_def cstr_at_def IS_ALPHA_def)
qed

text \<open>A parser inside a method name: \<open>i\<close> letters of the guess have been read.\<close>

definition in_method :: "http_method \<Rightarrow> nat \<Rightarrow> 'd locals \<Rightarrow> bool" where
  "in_method m i l \<longleftrightarrow> p_state l = s_req_method \<and> method (parser l) = m \<and> unat (index (parser l)) = i \<and>
     i \<le> length (method_name m) \<and> unat (nread (parser l)) \<le> i \<and> http_errno (parser l) = HPE_OK \<and>
     marks l = (\<lambda>_. None)"

definition method_rejected :: "'d exec_result option \<Rightarrow> bool" where
  "method_rejected r \<longleftrightarrow> (\<exists>n Q. r = Some (Inr (n, Q)) \<and> http_errno Q = HPE_INVALID_METHOD)"

lemma in_method_head:
  assumes "in_method m i l" "p_off l < length (buf E)"
  shows "loop_head E l = Break (count_byte E l)"
    and "unat (index (parser l) + 1) = Suc i"
    and "unat (nread (parser l) + 1) \<le> Suc i"
proof -
  have i: "i \<le> 11"
    using assms(1) length_method_string(2) [of m] by (simp add: in_method_def)
  have n: "unat (nread (parser l)) \<le> i"
    using assms(1) by (simp add: in_method_def)
  have "nread (parser l) < HTTP_MAX_HEADER_SIZE"
    using n i by (simp add: HTTP_MAX_HEADER_SIZE_def word_less_nat_alt)
  then show "loop_head E l = Break (count_byte E l)"
    using assms by (intro loop_head_count) (simp_all add: in_method_def PARSING_HEADER_def)
  show "unat (index (parser l) + 1) = Suc i"
    using assms(1) i by (subst unat_index_Suc) (auto simp: in_method_def)
  show "unat (nread (parser l) + 1) \<le> Suc i"
    using n i by (simp add: unat_word_ariths)
qed

lemma method_rejectedI: "method_rejected (Some (at_error (SET_ERRNO HPE_INVALID_METHOD l)))"
  by (simp add: method_rejected_def at_error_def SET_ERRNO_def)

text \<open>The main loop on the rest \<open>cs\<close> of a method name, followed by a space.\<close>

lemma method_loop:
  assumes "in_method m i l" "drop (p_off l) (buf E) = cs @ SP # rest" "SP \<notin> set cs"
  shows "case method_scan m i cs of
      None \<Rightarrow> method_rejected (main_loop E False l)
    | Some (m', i') \<Rightarrow>
        if i' = length (method_name m')
        then \<exists>l'. main_loop E False l = main_loop E False l' \<and> p_off l' = p_off l + length cs + 1 \<and>
          p_state l' = s_req_spaces_before_url \<and> method (parser l') = m' \<and>
          http_errno (parser l') = HPE_OK \<and> marks l' = (\<lambda>_. None)
        else method_rejected (main_loop E False l)"
  using assms
proof (induction cs arbitrary: m i l)
  case Nil
  then have p: "p_off l < length (buf E)" and c: "buf E ! p_off l = SP"
    using drop_eq_ConsD by fastforce+
  let ?l1 = "count_byte E l"
  have l1: "switch_state E ?l1 = case_s_req_method ?l1" "ch ?l1 = SP"
    using Nil.prems(1) c by (simp_all add: switch_state_def in_method_def count_byte_def)
  note r = case_s_req_method_space [of ?l1]
  show ?case
  proof (cases "i = length (method_name m)")
    case True
    with r l1 Nil.prems(1) have "switch_state E ?l1 = Break (inc_index (UPDATE_STATE s_req_spaces_before_url ?l1))"
      by (simp add: in_method_def count_byte_def)
    from main_loop_Break [OF p in_method_head(1) [OF Nil.prems(1) p] this] True Nil.prems(1) show ?thesis
      by (auto simp: in_method_def inc_index_def UPDATE_STATE_def upd_parser_def count_byte_def intro!: exI)
  next
    case False
    with r l1 Nil.prems(1) have "switch_state E ?l1 = Goto_error (SET_ERRNO HPE_INVALID_METHOD ?l1)"
      by (simp add: in_method_def count_byte_def error_def)
    from main_loop_error [OF p in_method_head(1) [OF Nil.prems(1) p] this] False show ?thesis
      by (simp add: method_rejectedI)
  qed
next
  case (Cons c cs)
  have p: "p_off l < length (buf E)" and c: "buf E ! p_off l = c" "c \<noteq> SP"
    and d: "drop (Suc (p_off l)) (buf E) = cs @ SP # rest"
    using Cons.prems(2,3) drop_eq_ConsD [of "p_off l" "buf E" c] by auto
  let ?l1 = "count_byte E l"
  have l1: "switch_state E ?l1 = case_s_req_method ?l1"
    using Cons.prems(1) by (simp add: switch_state_def in_method_def count_byte_def)
  note h = in_method_head [OF Cons.prems(1) p]
  have next_char: "case_s_req_method ?l1 =
    (case method_next m i c of
       None \<Rightarrow> error HPE_INVALID_METHOD ?l1
     | Some m \<Rightarrow> Break (inc_index (upd_parser (\<lambda>P. P\<lparr>method := m\<rparr>) ?l1)))"
    using case_s_req_method_next [of ?l1] Cons.prems(1) c by (simp add: in_method_def count_byte_def)
  show ?case
  proof (cases "method_next m i c")
    case None
    then have "switch_state E ?l1 = Goto_error (SET_ERRNO HPE_INVALID_METHOD ?l1)"
      using l1 next_char by (simp add: error_def)
    from main_loop_error [OF p h(1) this] None show ?thesis
      by (simp add: method_rejectedI)
  next
    case (Some m')
    let ?l2 = "inc_index (upd_parser (\<lambda>P. P\<lparr>method := m'\<rparr>) ?l1)"
    define L where "L = ?l2\<lparr>p_off := p_off ?l2 + 1\<rparr>"
    have "switch_state E ?l1 = Break ?l2"
      using l1 next_char Some by simp
    then have eq: "main_loop E False l = main_loop E False L"
      unfolding L_def using p h(1) by (intro main_loop_Break)
    have off: "p_off L = Suc (p_off l)"
      by (simp add: L_def inc_index_def upd_parser_def count_byte_def)
    have "in_method m' (Suc i) L"
      using Cons.prems(1) h(2,3) method_next_prefix [OF Some]
      by (simp add: in_method_def inc_index_def upd_parser_def count_byte_def L_def)
    from Cons.IH [OF this] d Cons.prems(3) eq off Some show ?thesis
      by (cases "method_scan m' (Suc i) cs") (auto split: if_splits)
  qed
qed

section \<open>The first letter\<close>

lemma IS_ALPHA_first_method: "first_method c \<noteq> None \<Longrightarrow> IS_ALPHA c"
  by (auto simp: first_method_def IS_ALPHA_def split: if_splits)

lemma execute_first:
  assumes "dat \<noteq> []"
  shows "http_parser_execute http_parser_settings_init (http_parser_init d HTTP_REQUEST) dat =
    main_loop \<lparr>settings = http_parser_settings_init, buf = dat, lenient = False\<rparr> False
      \<lparr>parser = http_parser_init d HTTP_REQUEST, p_off = 0, ch = NUL, p_state = s_start_req,
       marks = (\<lambda>_. None)\<rparr>"
proof -
  have "entry_marks s_start_req = (\<lambda>_. None)"
    by (rule ext) (simp add: entry_marks_def url_states_def split: data_for.split)
  then show ?thesis
    using assms by (simp add: http_parser_execute_def http_parser_init_def)
qed

lemma start_req_step:
  fixes d :: 'd and dat :: string
  defines "E \<equiv> \<lparr>settings = http_parser_settings_init, buf = dat, lenient = False\<rparr>"
    and "l \<equiv> \<lparr>parser = http_parser_init d HTTP_REQUEST, p_off = 0, ch = NUL, p_state = s_start_req,
       marks = (\<lambda>_. None)\<rparr>"
  assumes "dat = c # cs" "c \<noteq> CR" "c \<noteq> LF"
  shows "case first_method c of
      None \<Rightarrow> method_rejected (main_loop E False l)
    | Some m \<Rightarrow> \<exists>l'. main_loop E False l = main_loop E False l' \<and> in_method m 1 l' \<and> p_off l' = 1"
proof -
  let ?l1 = "count_byte E l"
  have h: "loop_head E l = Break ?l1"
    using assms(3) by (intro loop_head_count)
      (simp_all add: E_def l_def PARSING_HEADER_def http_parser_init_def HTTP_MAX_HEADER_SIZE_def)
  have p: "p_off l < length (buf E)"
    using assms(3) by (simp add: E_def l_def)
  have s: "switch_state E ?l1 = case_s_start_req E ?l1" "ch ?l1 = c"
    using assms(3) by (simp_all add: switch_state_def count_byte_def l_def E_def)
  show ?thesis
  proof (cases "first_method c")
    case None
    then obtain l2 where "switch_state E ?l1 = Goto_error (SET_ERRNO HPE_INVALID_METHOD l2)"
      using s assms(4,5)
      by (auto simp: case_s_start_req_def Let_def error_def reset_message_def upd_parser_def split: if_splits)
    from main_loop_error [OF p h this] None show ?thesis
      by (simp add: method_rejectedI)
  next
    case (Some m)
    let ?l2 = "UPDATE_STATE s_req_method (upd_parser (\<lambda>P. P\<lparr>method := m\<rparr>)
        (upd_parser (\<lambda>P. P\<lparr>method := HTTP_DELETE, index := 1\<rparr>) (reset_message ?l1)))"
    have "switch_state E ?l1 = Break ?l2"
      using s assms(4,5) Some IS_ALPHA_first_method [of c]
      by (simp add: case_s_start_req_def Let_def reset_message_def upd_parser_def UPDATE_STATE_def
          CALLBACK_NOTIFY_def CALLBACK_NOTIFY_ER_def assertion_def E_def l_def count_byte_def
          http_parser_settings_init_def http_parser_init_def)
    note eq = main_loop_Break [OF p h this]
    have "in_method m 1 (?l2\<lparr>p_off := p_off ?l2 + 1\<rparr>)"
      by (simp add: in_method_def UPDATE_STATE_def upd_parser_def reset_message_def count_byte_def l_def E_def
          http_parser_init_def)
    with eq Some show ?thesis
      by (auto simp: UPDATE_STATE_def upd_parser_def reset_message_def count_byte_def l_def intro!: exI)
  qed
qed

text \<open>A word that is not in the table does not take the scan to the end of a name.\<close>

lemma method_scan_reject:
  assumes "first_method c = Some m" "method_scan m 1 cs = Some (m', i)" "c # cs \<notin> set method_strings"
  shows "i \<noteq> length (method_name m')"
proof -
  have "take i (method_name m') = c # cs"
    using method_scan_prefix [OF assms(2)] first_method_prefix [OF assms(1)] by auto
  moreover have "method_name m' \<in> set method_strings"
    by (auto simp: method_strings_names)
  ultimately show ?thesis
    using assms(3) by auto
qed

text \<open>C18.  Method recognition.  Started on a fresh request parser, the word before the first space
  is accepted exactly if it is one of the names in \<open>method_strings\<close>, and then the parser
  has recorded that method; any other word stops the parser with \<open>HPE_INVALID_METHOD\<close>.\<close>

theorem request_method_recognition:
  assumes "w \<noteq> []" "SP \<notin> set w" "hd w \<noteq> CR" "hd w \<noteq> LF"
  shows "\<exists>n Q. http_parser_execute http_parser_settings_init (http_parser_init d HTTP_REQUEST) (w @ '' '') =
      Some (Inr (n, Q)) \<and>
    (if w \<in> set method_strings
     then n = length w + 1 \<and> http_errno Q = HPE_OK \<and> state Q = s_req_spaces_before_url \<and>
       method_strings ! http_method_num (method Q) = w
     else http_errno Q = HPE_INVALID_METHOD)"
proof -
  obtain c cs where w: "w = c # cs"
    using assms(1) by (cases w) auto
  let ?E = "\<lparr>settings = http_parser_settings_init, buf = w @ '' '', lenient = False\<rparr>"
  let ?l = "\<lparr>parser = http_parser_init d HTTP_REQUEST, p_off = 0, ch = NUL, p_state = s_start_req,
       marks = (\<lambda>_. None)\<rparr>"
  have start: "http_parser_execute http_parser_settings_init (http_parser_init d HTTP_REQUEST) (w @ '' '') =
      main_loop ?E False ?l"
    by (simp add: execute_first)
  note first = start_req_step [where dat = "w @ '' ''" and c = c and cs = "cs @ '' ''" and d = d]
  have reject: ?thesis if "method_rejected (main_loop ?E False ?l)" "w \<notin> set method_strings"
    using that start by (auto simp: method_rejected_def)
  show ?thesis
  proof (cases "first_method c")
    case None
    then have "w \<notin> set method_strings"
      using method_scan_complete w by (metis list.sel(1) method_strings_names)
    then show ?thesis
      using first None reject w assms by simp
  next
    case (Some m)
    then obtain l where l: "main_loop ?E False ?l = main_loop ?E False l" "in_method m 1 l" "p_off l = 1"
      using first w assms by auto
    have "drop (p_off l) (buf ?E) = cs @ SP # []"
      using l(3) w by simp
    note loop = method_loop [OF l(2) this]
    show ?thesis
    proof (cases "w \<in> set method_strings")
      case True
      then obtain m' where m': "w = method_name m'"
        by (auto simp: method_strings_names)
      then have "method_scan m 1 cs = Some (m', length w)"
        using method_scan_complete [of m'] Some w by (metis list.sel(1,3) option.sel)
      then obtain l' where "main_loop ?E False l = main_loop ?E False l'" "p_off l' = length (buf ?E)"
        "p_state l' = s_req_spaces_before_url" "method (parser l') = m'" "http_errno (parser l') = HPE_OK"
        "marks l' = (\<lambda>_. None)"
        using loop w assms(2) l(3) m' by auto
      then show ?thesis
        using start l(1) True m' by (auto simp: main_loop_end flush_no_marks RETURN_def)
    next
      case False
      have "method_rejected (main_loop ?E False l)"
        using loop w assms(2) method_scan_reject [OF Some] False by (cases "method_scan m 1 cs") auto
      then show ?thesis
        using False l(1) reject by simp
    qed
  qed
qed

theorem request_method_recognition_witness:
  "(\<exists>n Q. http_parser_execute http_parser_settings_init (http_parser_init () HTTP_REQUEST) ''M-SEARCH '' =
      Some (Inr (n, Q)) \<and> n = length ''M-SEARCH'' + 1 \<and> http_errno Q = HPE_OK \<and> state Q = s_req_spaces_before_url \<and>
      method_strings ! http_method_num (method Q) = ''M-SEARCH'') \<and>
   (\<exists>n Q. http_parser_execute http_parser_settings_init (http_parser_init () HTTP_REQUEST) ''GOT '' =
      Some (Inr (n, Q)) \<and> http_errno Q = HPE_INVALID_METHOD)"
proof -
  have "''M-SEARCH'' \<in> set method_strings" "''GOT'' \<notin> set method_strings"
    by (simp_all add: method_strings_def)
  then show ?thesis
    using request_method_recognition [of "''M-SEARCH''" "()"] request_method_recognition [of "''GOT''" "()"]
    by simp
qed

end
