(* ===== verification/HttpDelivery.thy ===== *)
theory HttpDelivery
  imports HttpRequest
begin

text \<open>
  What reaches the callbacks of a message with a body: the bytes of the body, in order, each
  once, however they are split into buffers; and the lengths that frame the body.
\<close>

section \<open>Feeding a message in pieces\<close>

text \<open>Calls of \<open>http_parser_execute\<close> on successive buffers, as long as each call consumes its
  buffer.\<close>

fun feed :: "'d http_parser_settings \<Rightarrow> 'd http_parser \<Rightarrow> string list \<Rightarrow> 'd http_parser option" where
  "feed S P [] = Some P"
| "feed S P (b # bs) =
    (case http_parser_execute S P b of
       Some (Inr (n, Q)) \<Rightarrow> if n = length b then feed S Q bs else None
     | _ \<Rightarrow> None)"

lemma unat_of_nat_length: "n < 2 ^ 64 \<Longrightarrow> unat (of_nat n :: u64) = n"
  by (simp add: unat_of_nat take_bit_nat_eq_self)

lemma content_length_bound: "unat (c :: u64) < 2 ^ 64"
  using unsigned_less [where 'a = nat, of c] by simp

lemma unat_minus_of_nat:
  assumes "n \<le> unat (c :: u64)"
  shows "unat (c - of_nat n) = unat c - n"
proof -
  have "unat (of_nat n :: u64) = n"
    using assms content_length_bound [of c] by (intro unat_of_nat_length) linarith
  then show ?thesis
    using assms by (simp add: unat_sub word_le_nat_alt)
qed

lemma loop_head_body:
  "p_off l < length (buf E) \<Longrightarrow> \<not> PARSING_HEADER (p_state l) \<Longrightarrow>
   loop_head E l = Break (l\<lparr>ch := buf E ! p_off l\<rparr>)"
  by (simp add: loop_head_def)

lemma entry_marks_body [simp]:
  "entry_marks s_body_identity = (\<lambda>_. None)" "entry_marks s_chunk_data = (\<lambda>_. None)"
  by (rule ext; simp add: entry_marks_def url_states_def split: data_for.split)+

lemma unat_ULLONG_MAX: "unat ULLONG_MAX = 2 ^ 64 - 1"
  by (simp add: ULLONG_MAX_def unsigned_minus_1_eq_mask mask_eq_exp_minus_1)

text \<open>The body callback of the recorder.\<close>

lemma recorder_body:
  assumes "http_errno (parser l) = HPE_OK" "marks l D_body = Some m" "m \<le> p_off l" "settings E = recorder"
    and "p_off l + extra \<le> length (buf E)"
  shows "CALLBACK_DATA_ER E D_body extra er l k =
    k (l\<lparr>parser := (parser l)\<lparr>state := p_state l,
          data := data (parser l) @ [Ev_body (take (p_off l - m + extra) (drop m (buf E)))]\<rparr>,
        marks := (marks l)(D_body := None)\<rparr>)"
  using assms
  by (simp add: CALLBACK_DATA_ER_def assertion_def recorder_def log_event_def after_callback_def UPDATE_STATE_def)

lemma recorder_message_complete:
  assumes "http_errno (parser l) = HPE_OK" "settings E = recorder"
  shows "message_complete E l k =
    k (l\<lparr>parser := (parser l)\<lparr>state := NEW_MESSAGE (parser l), data := data (parser l) @ [Ev_message_complete]\<rparr>,
        p_state := NEW_MESSAGE (parser l)\<rparr>)"
  using assms
  by (simp add: message_complete_def CALLBACK_NOTIFY_def CALLBACK_NOTIFY_ER_def assertion_def recorder_def
      log_event_def after_callback_def UPDATE_STATE_def)

section \<open>Bodies of known length\<close>

lemma advance_body_eq:
  assumes "length (buf E) < 2 ^ 64" "p_off l = 0" "marks l = (\<lambda>_. None)"
    and "length (buf E) \<le> unat (content_length (parser l))"
  shows "advance_body E l = l\<lparr>parser := (parser l)\<lparr>content_length := content_length (parser l) - of_nat (length (buf E))\<rparr>,
    p_off := length (buf E) - 1, marks := (\<lambda>_. None)(D_body := Some 0)\<rparr>"
proof -
  have "unat (to_read E l) = length (buf E)"
    using to_read_unat [OF assms(1), of l] assms(2,4) by simp
  then have "to_read E l = of_nat (length (buf E))"
    using assms(1) by (simp add: word_unat_eq_iff unat_of_nat_length)
  then show ?thesis
    using \<open>unat (to_read E l) = length (buf E)\<close> assms(2,3)
    by (simp add: advance_body_def upd_parser_def MARK_def Let_def)
qed

abbreviation body_env :: "event list http_parser \<Rightarrow> string \<Rightarrow> event list env" where
  "body_env P b \<equiv> \<lparr>settings = recorder, buf = b, lenient = lenient_http_headers P\<rparr>"

abbreviation body_locals :: "event list http_parser \<Rightarrow> string \<Rightarrow> event list locals" where
  "body_locals P b \<equiv> \<lparr>parser = P, p_off = 0, ch = b ! 0, p_state = state P, marks = (\<lambda>_. None)\<rparr>"

lemma execute_body_start:
  assumes "state P \<in> {s_body_identity, s_chunk_data}" "http_errno P = HPE_OK" "b \<noteq> []"
  shows "http_parser_execute recorder P b = main_loop (body_env P b) True (body_locals P b)"
proof -
  have "http_parser_execute recorder P b =
      main_loop (body_env P b) False ((body_locals P b)\<lparr>ch := NUL\<rparr>)"
    using assms by (auto simp: http_parser_execute_def)
  also have "\<dots> = main_loop (body_env P b) True (body_locals P b)"
    using assms by (subst main_loop.simps, subst loop_head_body) (auto simp: PARSING_HEADER_def)
  finally show ?thesis .
qed

lemma body_piece:
  assumes "state P = s_body_identity" "http_errno P = HPE_OK" "b \<noteq> []"
    and "length b < unat (content_length P)" "content_length P \<noteq> ULLONG_MAX"
  shows "http_parser_execute recorder P b = Some (Inr (length b,
    P\<lparr>content_length := content_length P - of_nat (length b), data := data P @ [Ev_body b]\<rparr>))"
proof -
  let ?E = "body_env P b" and ?l = "body_locals P b"
  have len: "length b < 2 ^ 64"
    using assms(4) content_length_bound [of "content_length P"] by linarith
  have left: "content_length P - of_nat (length b) \<noteq> 0"
    using unat_minus_of_nat [of "length b" "content_length P"] assms(4) by (metis diff_is_0_eq less_imp_le linorder_not_le unsigned_0)
  have adv: "advance_body ?E ?l = ?l\<lparr>parser := P\<lparr>content_length := content_length P - of_nat (length b)\<rparr>,
    p_off := length b - 1, marks := (\<lambda>_. None)(D_body := Some 0)\<rparr>" (is "_ = ?l2")
    using len assms(4) by (subst advance_body_eq) simp_all
  have pos: "content_length P \<noteq> 0"
    using assms(4) by auto
  have "switch_state ?E ?l = Break ?l2"
    using assms(1,5) left pos adv by (simp add: switch_state_def case_s_body_identity_def assertion_def)
  then have "main_loop ?E True ?l = main_loop ?E False (?l2\<lparr>p_off := length b\<rparr>)"
    using assms(3) by (subst main_loop.simps) simp
  also have "\<dots> = Some (leave (flush_marks ?E (?l2\<lparr>p_off := length b\<rparr>)))"
    by (rule main_loop_end) simp
  also have "flush_marks ?E (?l2\<lparr>p_off := length b\<rparr>) =
      Return (length b) (P\<lparr>content_length := content_length P - of_nat (length b), data := data P @ [Ev_body b]\<rparr>)"
    using assms(1,2)
    by (simp add: flush_marks_def assertion_def CALLBACK_DATA_NOADVANCE_def CALLBACK_DATA_ER_def recorder_def
        log_event_def after_callback_def UPDATE_STATE_def RETURN_def)
  finally show ?thesis
    using execute_body_start assms by simp
qed

lemma body_last_piece:
  assumes "state P = s_body_identity" "http_errno P = HPE_OK" "b \<noteq> []"
    and "length b = unat (content_length P)" "content_length P \<noteq> ULLONG_MAX"
  defines "P' \<equiv> P\<lparr>content_length := 0\<rparr>"
  shows "http_parser_execute recorder P b = Some (Inr (length b,
    P'\<lparr>state := NEW_MESSAGE P', data := data P @ [Ev_body b, Ev_message_complete]\<rparr>))"
proof -
  let ?E = "body_env P b" and ?l = "body_locals P b"
  have len: "length b < 2 ^ 64"
    using assms(4) content_length_bound [of "content_length P"] by linarith
  have left: "content_length P - of_nat (length b) = 0"
    using assms(4) len by (simp add: word_unat_eq_iff unat_of_nat_length)
  have adv: "advance_body ?E ?l = ?l\<lparr>parser := P', p_off := length b - 1, marks := (\<lambda>_. None)(D_body := Some 0)\<rparr>"
    (is "_ = ?l2")
    using len assms(4) left by (subst advance_body_eq) (simp_all add: P'_def)
  have pos: "content_length P \<noteq> 0"
    using assms(3,4) by auto
  let ?l3 = "?l2\<lparr>parser := P'\<lparr>state := s_message_done, data := data P @ [Ev_body b]\<rparr>,
    p_state := s_message_done, marks := (\<lambda>_. None)\<rparr>"
  have "switch_state ?E ?l = Reexecute ?l3"
    using assms(1-3,5) pos adv
    by (simp add: switch_state_def case_s_body_identity_def assertion_def UPDATE_STATE_def recorder_body P'_def)
  then have "main_loop ?E True ?l = main_loop ?E True ?l3"
    by (subst main_loop.simps) simp
  also have "\<dots> = Some (Inr (length b,
      P'\<lparr>state := NEW_MESSAGE P', data := data P @ [Ev_body b, Ev_message_complete]\<rparr>))"
  proof -
    let ?l4 = "?l3\<lparr>parser := P'\<lparr>state := NEW_MESSAGE P', data := data P @ [Ev_body b, Ev_message_complete]\<rparr>,
      p_state := NEW_MESSAGE P'\<rparr>"
    have new: "NEW_MESSAGE (P'\<lparr>state := s, data := d\<rparr>) = NEW_MESSAGE P'" for s d
      by (simp add: NEW_MESSAGE_def start_state_def http_should_keep_alive_def http_message_needs_eof_def has_flag_def)
    have "switch_state ?E ?l3 = (if upgrade P' then RETURN (length b) ?l4 else Break ?l4)"
      using assms(2,3) new
      by (simp add: switch_state_def case_s_message_done_def recorder_message_complete P'_def)
    then show ?thesis
      using assms(2,3)
      by (subst main_loop.simps) (simp add: RETURN_def main_loop_end flush_no_marks P'_def)
  qed
  finally show ?thesis
    using execute_body_start assms by simp
qed

text \<open>C3.  Delivery of a body.  A message body of known length reaches \<open>on_body\<close> completely, in
  order and unchanged, whatever the sizes of the buffers it arrives in: one call per buffer, then
  one call of \<open>on_message_complete\<close>; and the parser is ready for the next message, or closed.\<close>

theorem body_delivery:
  assumes "state P = s_body_identity" "http_errno P = HPE_OK" "content_length P \<noteq> ULLONG_MAX"
    and "[] \<notin> set bs" "bs \<noteq> []" "length (concat bs) = unat (content_length P)"
  shows "feed recorder P bs = Some (P\<lparr>content_length := 0, state := NEW_MESSAGE (P\<lparr>content_length := 0\<rparr>),
    data := data P @ map Ev_body bs @ [Ev_message_complete]\<rparr>)"
  using assms
proof (induction bs arbitrary: P)
  case (Cons b bs)
  show ?case
  proof (cases "bs = []")
    case True
    then show ?thesis
      using body_last_piece [of P b] Cons.prems by simp
  next
    case False
    then have "0 < length (concat bs)"
      using Cons.prems(4) by (cases bs) auto
    moreover have "length b + length (concat bs) = unat (content_length P)"
      using Cons.prems(6) by simp
    ultimately have less: "length b < unat (content_length P)"
      by linarith
    let ?Q = "P\<lparr>content_length := content_length P - of_nat (length b), data := data P @ [Ev_body b]\<rparr>"
    have len: "unat (content_length ?Q) = unat (content_length P) - length b"
      using less by (simp add: unat_minus_of_nat)
    moreover have "0 < length b"
      using Cons.prems(4) by auto
    ultimately have "unat (content_length ?Q) < unat ULLONG_MAX"
      using less content_length_bound [of "content_length P"]
      by (simp add: unat_ULLONG_MAX del: length_greater_0_conv)
    then have "content_length ?Q \<noteq> ULLONG_MAX"
      by auto
    then have "feed recorder ?Q bs = Some (?Q\<lparr>content_length := 0, state := NEW_MESSAGE (?Q\<lparr>content_length := 0\<rparr>),
        data := data ?Q @ map Ev_body bs @ [Ev_message_complete]\<rparr>)"
      using Cons.prems len False by (intro Cons.IH) simp_all
    moreover have "NEW_MESSAGE (?Q\<lparr>content_length := 0\<rparr>) = NEW_MESSAGE (P\<lparr>content_length := 0\<rparr>)"
      by (simp add: NEW_MESSAGE_def start_state_def http_should_keep_alive_def http_message_needs_eof_def has_flag_def)
    moreover have "http_parser_execute recorder P b = Some (Inr (length b, ?Q))"
      using Cons.prems less by (intro body_piece) auto
    ultimately show ?thesis by simp
  qed
qed simp

theorem body_delivery_witness:
  "feed recorder (http_parser_init [] HTTP_REQUEST\<lparr>state := s_body_identity, content_length := 5,
      http_major := 1, http_minor := 1\<rparr>) [''ab'', ''cde''] =
    Some (http_parser_init [] HTTP_REQUEST\<lparr>state := s_start_req, content_length := 0,
      http_major := 1, http_minor := 1, data := [Ev_body ''ab'', Ev_body ''cde'', Ev_message_complete]\<rparr>)"
  using body_delivery [of "http_parser_init [] HTTP_REQUEST\<lparr>state := s_body_identity, content_length := 5,
      http_major := 1, http_minor := 1\<rparr>" "[''ab'', ''cde'']"]
  by (simp add: http_parser_init_def ULLONG_MAX_def NEW_MESSAGE_def start_state_def http_should_keep_alive_def
      http_message_needs_eof_def has_flag_def)

end
