(* ===== verification/HttpChunked.thy ===== *)
theory HttpChunked
  imports HttpDelivery
begin

text \<open>
  Chunked bodies: the decoder of \<open>http_parser_execute\<close> inverts the wire format, and chunk
  sizes do not wrap around.
\<close>

section \<open>Chunk sizes\<close>

definition hex_digit :: "char \<Rightarrow> bool" where
  "hex_digit c \<longleftrightarrow> (of_char c :: nat) < 128 \<and> 0 \<le> hex_value c"

fun hex_number :: "nat \<Rightarrow> string \<Rightarrow> nat" where
  "hex_number acc [] = acc"
| "hex_number acc (c # cs) = hex_number (acc * 16 + nat (hex_value c)) cs"

lemma hex_number_ge: "acc \<le> hex_number acc hs"
proof (induction hs arbitrary: acc)
  case (Cons c cs)
  have "acc \<le> acc * 16 + nat (hex_value c)"
    by simp
  also have "\<dots> \<le> hex_number (acc * 16 + nat (hex_value c)) cs"
    by (rule Cons.IH)
  finally show ?case by simp
qed simp

lemma hex_digit_unhex: "hex_digit c \<Longrightarrow> unhex c = hex_value c \<and> 0 \<le> unhex c \<and> unhex c \<le> 15 \<and> c \<noteq> CR"
  using unhex_range [of c] unhex_hex_value [of c] by (auto simp: hex_digit_def hex_value_def)

lemma chunk_digit_accepted:
  assumes "unat c * 16 + v < 2 ^ 64 - 16"
  shows "\<not> (ULLONG_MAX - 16) div 16 < c"
proof -
  have "unat ((ULLONG_MAX - 16) div 16 :: u64) = 1152921504606846974"
    by (simp add: ULLONG_MAX_def unat_div)
  moreover have "unat c \<le> 1152921504606846974"
    using assms by simp
  ultimately show ?thesis
    by (simp add: word_less_nat_alt)
qed

text \<open>The locals at an offset, with no mark set; and the order in which updates of a parser are
  written.\<close>

abbreviation at_off :: "'d http_parser \<Rightarrow> nat \<Rightarrow> char \<Rightarrow> state \<Rightarrow> 'd locals" where
  "at_off P p c s \<equiv> \<lparr>parser = P, p_off = p, ch = c, p_state = s, marks = (\<lambda>_. None)\<rparr>"

lemma parser_update_order [simp]:
  "P\<lparr>content_length := c, nread := n\<rparr> = P\<lparr>nread := n, content_length := c\<rparr>"
  "P\<lparr>data := d, nread := n\<rparr> = P\<lparr>nread := n, data := d\<rparr>"
  "P\<lparr>state := s, nread := n\<rparr> = P\<lparr>nread := n, state := s\<rparr>"
  "P\<lparr>data := d, content_length := c\<rparr> = P\<lparr>content_length := c, data := d\<rparr>"
  "P\<lparr>state := s, content_length := c\<rparr> = P\<lparr>content_length := c, state := s\<rparr>"
  "P\<lparr>data := d, state := s\<rparr> = P\<lparr>state := s, data := d\<rparr>"
  "P\<lparr>flags := f, nread := n\<rparr> = P\<lparr>nread := n, flags := f\<rparr>"
  "P\<lparr>flags := f, content_length := c\<rparr> = P\<lparr>content_length := c, flags := f\<rparr>"
  "P\<lparr>state := s, flags := f\<rparr> = P\<lparr>flags := f, state := s\<rparr>"
  "P\<lparr>data := d, flags := f\<rparr> = P\<lparr>flags := f, data := d\<rparr>"
  by simp_all

text \<open>The main loop on the digits of a chunk size and the CR behind them.\<close>

lemma chunk_size_digits:
  assumes "drop p (buf E) = hs @ CR # rest" "\<forall>c \<in> set hs. hex_digit c"
    and "has_flag F_CHUNKED P" "hex_number (unat (content_length P)) hs < 2 ^ 64 - 16"
    and "unat (nread P) + length hs < 81920"
  shows "main_loop E False (at_off P p x s_chunk_size) = main_loop E False
    (at_off (P\<lparr>nread := nread P + of_nat (length hs) + 1,
        content_length := of_nat (hex_number (unat (content_length P)) hs)\<rparr>)
      (p + length hs + 1) CR s_chunk_size_almost_done)"
  using assms
proof (induction hs arbitrary: P p x)
  case Nil
  let ?l = "at_off P p x s_chunk_size"
  have p: "p < length (buf E)" "buf E ! p = CR"
    using Nil.prems(1) drop_eq_ConsD [of p "buf E" CR] by auto
  have "loop_head E ?l = Break (count_byte E ?l)"
    using Nil.prems p(1) by (intro loop_head_count)
      (simp_all add: PARSING_HEADER_def HTTP_MAX_HEADER_SIZE_def word_less_nat_alt)
  moreover have "switch_state E (count_byte E ?l) = Break (UPDATE_STATE s_chunk_size_almost_done (count_byte E ?l))"
    using Nil.prems p
    by (simp add: switch_state_def count_byte_def case_s_chunk_size_def assertion_def has_flag_def)
  ultimately show ?case
    using main_loop_Break [of ?l E] p by (simp add: UPDATE_STATE_def count_byte_def)
next
  case (Cons c hs)
  let ?l = "at_off P p x s_chunk_size"
  have p: "p < length (buf E)" "buf E ! p = c" "drop (Suc p) (buf E) = hs @ CR # rest"
    using Cons.prems(1) drop_eq_ConsD [of p "buf E" c] by auto
  let ?c = "content_length P"
  have c: "hex_digit c" "unhex c = hex_value c" "0 \<le> unhex c" "unhex c \<le> 15" "c \<noteq> CR"
    using Cons.prems(2) hex_digit_unhex [of c] by auto
  have "unat ?c * 16 + nat (hex_value c) < 2 ^ 64 - 16"
    using Cons.prems(4) hex_number_ge [of "unat ?c * 16 + nat (hex_value c)" hs]
    by simp
  note ok = chunk_digit_accepted [OF this]
  define t where "t = ?c * 16 + of_int (unhex c)"
  have t: "unat t = unat ?c * 16 + nat (hex_value c)"
    using chunk_digit_bound(2) [OF ok c(3,4)] c(2) by (simp add: t_def)
  have h: "loop_head E ?l = Break (count_byte E ?l)"
    using Cons.prems p(1) by (intro loop_head_count)
      (simp_all add: PARSING_HEADER_def HTTP_MAX_HEADER_SIZE_def word_less_nat_alt)
  let ?P = "P\<lparr>nread := nread P + 1, content_length := t\<rparr>"
  have "switch_state E (count_byte E ?l) = Break (at_off ?P p c s_chunk_size)"
    using Cons.prems(3) p(2) c ok
    by (simp add: switch_state_def count_byte_def case_s_chunk_size_def assertion_def has_flag_def upd_parser_def t_def)
  then have "main_loop E False ?l = main_loop E False (at_off ?P (Suc p) c s_chunk_size)"
    using main_loop_Break [of ?l E] h p(1) by simp
  moreover have n: "unat (nread P + 1) = unat (nread P) + 1"
    using Cons.prems(5) by (simp add: unat_word_ariths)
  moreover note Cons.IH [of "Suc p" ?P c]
  ultimately show ?case
    using Cons.prems p(3) t
    by (simp add: has_flag_def add.commute add.left_commute)
qed

section \<open>Chunked bodies\<close>

text \<open>A byte whose case ends in \<open>break\<close> at the next offset, for locals without marks.\<close>

lemma main_loop_header_byte:
  assumes "p < length (buf E)" "PARSING_HEADER s" "nread P < HTTP_MAX_HEADER_SIZE"
    and "switch_state E (at_off (P\<lparr>nread := nread P + 1\<rparr>) p (buf E ! p) s) = Break (at_off Q p c s')"
  shows "main_loop E False (at_off P p x s) = main_loop E False (at_off Q (Suc p) c s')"
  using assms main_loop_Break [of "at_off P p x s" E] loop_head_count [of "at_off P p x s" E]
  by (simp add: count_byte_def)

lemma recorder_notify:
  assumes "http_errno (parser l) = HPE_OK" "settings E = recorder"
  shows "CALLBACK_NOTIFY_ER E n er l k =
    k (l\<lparr>parser := (parser l)\<lparr>state := p_state l, data := data (parser l) @
        [case n of N_message_begin \<Rightarrow> Ev_message_begin | N_message_complete \<Rightarrow> Ev_message_complete
         | N_chunk_header \<Rightarrow> Ev_chunk_header | N_chunk_complete \<Rightarrow> Ev_chunk_complete]\<rparr>\<rparr>)"
  using assms
  by (cases n) (simp_all add: CALLBACK_NOTIFY_ER_def assertion_def recorder_def log_event_def after_callback_def
      UPDATE_STATE_def)

text \<open>The first digit.\<close>

lemma chunk_size_first:
  assumes "p < length (buf E)" "buf E ! p = c" "hex_digit c" "has_flag F_CHUNKED P" "nread P = 0"
  shows "main_loop E False (at_off P p x s_chunk_size_start) = main_loop E False
    (at_off (P\<lparr>nread := 1, content_length := of_nat (nat (hex_value c))\<rparr>) (Suc p) c s_chunk_size)"
proof (rule main_loop_header_byte)
  have "(of_nat (nat (unhex c)) :: u64) = of_int (unhex c)"
    using hex_digit_unhex [OF assms(3)] by simp
  then show "switch_state E (at_off (P\<lparr>nread := nread P + 1\<rparr>) p (buf E ! p) s_chunk_size_start) =
      Break (at_off (P\<lparr>nread := 1, content_length := of_nat (nat (hex_value c))\<rparr>) p c s_chunk_size)"
    using assms hex_digit_unhex [OF assms(3)]
    by (simp add: switch_state_def case_s_chunk_size_start_def assertion_def has_flag_def Let_def upd_parser_def
        UPDATE_STATE_def)
qed (use assms in \<open>simp_all add: PARSING_HEADER_def HTTP_MAX_HEADER_SIZE_def\<close>)

text \<open>The size line: digits, CR, LF.\<close>

lemma chunk_size_line:
  fixes hs :: string
  defines "n \<equiv> hex_number 0 hs"
  assumes "drop p (buf E) = hs @ CR # LF # rest" "hs \<noteq> []" "\<forall>c \<in> set hs. hex_digit c"
    and "has_flag F_CHUNKED P" "n < 2 ^ 64 - 16" "length hs < 80000" "nread P = 0" "http_errno P = HPE_OK"
    and "settings E = recorder"
  shows "main_loop E False (at_off P p x s_chunk_size_start) = main_loop E False
    (at_off
      (if n = 0
       then P\<lparr>nread := 0, content_length := 0, flags := flags P OR F_TRAILING, state := s_header_field_start,
         data := data P @ [Ev_chunk_header]\<rparr>
       else P\<lparr>nread := 0, content_length := of_nat n, state := s_chunk_data, data := data P @ [Ev_chunk_header]\<rparr>)
      (p + length hs + 2) LF (if n = 0 then s_header_field_start else s_chunk_data))"
proof -
  obtain c cs where hs: "hs = c # cs"
    using assms(3) by (cases hs) auto
  have p: "p < length (buf E)" "buf E ! p = c" "drop (Suc p) (buf E) = cs @ CR # LF # rest"
    using assms(2) hs drop_eq_ConsD [of p "buf E" c] by auto
  have c: "hex_digit c" "\<forall>c \<in> set cs. hex_digit c" "0 \<le> hex_value c" "hex_value c \<le> 15"
    using assms(4) hs hex_digit_unhex [of c] by auto
  let ?P = "P\<lparr>nread := 1, content_length := of_nat (nat (hex_value c))\<rparr>"
  have v: "unat (of_nat (nat (hex_value c)) :: u64) = nat (hex_value c)"
    using c(4) by (intro unat_of_nat_length) simp
  have "main_loop E False (at_off P p x s_chunk_size_start) = main_loop E False (at_off ?P (Suc p) c s_chunk_size)"
    using p c(1) assms by (intro chunk_size_first) auto
  also have "\<dots> = main_loop E False (at_off (?P\<lparr>nread := 1 + of_nat (length cs) + 1, content_length := of_nat n\<rparr>)
      (p + length hs + 1) CR s_chunk_size_almost_done)"
    using chunk_size_digits [OF p(3) c(2), of ?P c] assms v hs
    by (simp add: has_flag_def n_def)
  also have "\<dots> = main_loop E False (at_off
      (if n = 0
       then P\<lparr>nread := 0, content_length := 0, flags := flags P OR F_TRAILING, state := s_header_field_start,
         data := data P @ [Ev_chunk_header]\<rparr>
       else P\<lparr>nread := 0, content_length := of_nat n, state := s_chunk_data, data := data P @ [Ev_chunk_header]\<rparr>)
      (Suc (p + length hs + 1)) LF (if n = 0 then s_header_field_start else s_chunk_data))"
  proof (rule main_loop_header_byte)
    have "drop (p + length hs + 1) (buf E) = drop (length hs + 1) (drop p (buf E))"
      by (simp add: add.commute add.left_commute)
    then have "drop (p + length hs + 1) (buf E) = LF # rest"
      using assms(2) by simp
    then have LF: "p + length hs + 1 < length (buf E)" "buf E ! (p + length hs + 1) = LF"
      using drop_eq_ConsD [of "p + length hs + 1" "buf E" LF rest] by simp_all
    then show "p + length hs + 1 < length (buf E)"
      by simp
    have "1 + of_nat (length cs) + 1 = (of_nat (length cs + 2) :: u32)"
      by simp
    moreover have "unat (of_nat (length cs + 2) :: u32) = length cs + 2"
      using assms(7) hs by (simp only: unat_of_nat) (simp add: take_bit_nat_eq_self)
    ultimately show "nread (?P\<lparr>nread := 1 + of_nat (length cs) + 1, content_length := of_nat n\<rparr>) < HTTP_MAX_HEADER_SIZE"
      using assms(7) hs by (simp add: word_less_nat_alt HTTP_MAX_HEADER_SIZE_def)
    have "of_nat n = (0 :: u64) \<longleftrightarrow> n = 0"
      using unat_of_nat_length [of n] assms(6) by (auto simp: word_unat_eq_iff)
    then show "switch_state E (at_off (?P\<lparr>nread := 1 + of_nat (length cs) + 1, content_length := of_nat n,
          nread := nread (?P\<lparr>nread := 1 + of_nat (length cs) + 1, content_length := of_nat n\<rparr>) + 1\<rparr>)
        (p + length hs + 1) (buf E ! (p + length hs + 1)) s_chunk_size_almost_done) =
      Break (at_off
      (if n = 0
       then P\<lparr>nread := 0, content_length := 0, flags := flags P OR F_TRAILING, state := s_header_field_start,
         data := data P @ [Ev_chunk_header]\<rparr>
       else P\<lparr>nread := 0, content_length := of_nat n, state := s_chunk_data, data := data P @ [Ev_chunk_header]\<rparr>)
      (p + length hs + 1) LF (if n = 0 then s_header_field_start else s_chunk_data))"
      using LF assms
      by (simp add: switch_state_def case_s_chunk_size_almost_done_def assertion_def has_flag_def Let_def
          STRICT_CHECK_def upd_parser_def set_flag_def UPDATE_STATE_def CALLBACK_NOTIFY_def recorder_notify)
  qed (simp add: PARSING_HEADER_def)
  finally show ?thesis by simp
qed

lemma main_loop_body_byte:
  assumes "p_off l < length (buf E)" "\<not> PARSING_HEADER (p_state l)"
    and "switch_state E (l\<lparr>ch := buf E ! p_off l\<rparr>) = Break l2"
  shows "main_loop E False l = main_loop E False (l2\<lparr>p_off := p_off l2 + 1\<rparr>)"
  using assms by (intro main_loop_Break [OF assms(1) loop_head_body])

lemma drop_append_nth:
  assumes "drop p xs = ys @ y # zs"
  shows "p + length ys < length xs" "xs ! (p + length ys) = y" "take (length ys) (drop p xs) = ys"
proof -
  have "drop (p + length ys) xs = y # zs"
    using assms by (metis add.commute append_eq_conv_conj drop_drop)
  then show "p + length ys < length xs" "xs ! (p + length ys) = y"
    using drop_eq_ConsD by metis+
  show "take (length ys) (drop p xs) = ys"
    using assms by simp
qed

text \<open>The data of a chunk and the line end behind it.\<close>

lemma chunk_data_line:
  assumes "drop p (buf E) = d @ CR # LF # rest" "d \<noteq> []" "content_length P = of_nat (length d)"
    and "has_flag F_CHUNKED P" "http_errno P = HPE_OK" "settings E = recorder" "length (buf E) < 2 ^ 64 - 16"
  shows "main_loop E False (at_off P p x s_chunk_data) = main_loop E False
    (at_off (P\<lparr>nread := 0, content_length := 0, state := s_chunk_size_start,
        data := data P @ [Ev_body d, Ev_chunk_complete]\<rparr>) (p + length d + 2) LF s_chunk_size_start)"
proof -
  let ?l = "at_off P p x s_chunk_data"
  note CR = drop_append_nth [OF assms(1)]
  have LF: "p + length d + 1 < length (buf E)" "buf E ! (p + length d + 1) = LF"
    using drop_append_nth [of p "buf E" "d @ [CR]" LF rest] assms(1) by simp_all
  have len: "unat (of_nat (length d) :: u64) = length d"
    using CR(1) assms(7) by (intro unat_of_nat_length) linarith
  then have P: "content_length P \<noteq> 0" "content_length P \<noteq> ULLONG_MAX" "unat (content_length P) = length d"
    using assms(2,3,7) CR(1) unat_ULLONG_MAX by auto
  let ?M = "(\<lambda>_. None)(D_body := Some p)"
  let ?l1 = "\<lparr>parser = P\<lparr>content_length := 0\<rparr>, p_off = p + length d - 1, ch = buf E ! p,
    p_state = s_chunk_data_almost_done, marks = ?M\<rparr>"
  have "unat (to_read E (?l\<lparr>ch := buf E ! p\<rparr>)) = length d"
    using to_read_unat [of E "?l\<lparr>ch := buf E ! p\<rparr>"] CR(1) P(3) assms(7) by simp
  moreover from this have "to_read E (?l\<lparr>ch := buf E ! p\<rparr>) = content_length P"
    using P(3) by (simp add: word_unat_eq_iff)
  ultimately have "advance_body E (?l\<lparr>ch := buf E ! p\<rparr>) = ?l1\<lparr>p_state := s_chunk_data\<rparr>"
    by (simp add: advance_body_def upd_parser_def MARK_def Let_def)
  then have "switch_state E (?l\<lparr>ch := buf E ! p_off ?l\<rparr>) = Break ?l1"
    using assms(4) P
    by (simp add: switch_state_def case_s_chunk_data_def assertion_def has_flag_def UPDATE_STATE_def)
  then have "main_loop E False ?l = main_loop E False (?l1\<lparr>p_off := p_off ?l1 + 1\<rparr>)"
    using CR(1) by (intro main_loop_body_byte) (simp_all add: PARSING_HEADER_def)
  also have "?l1\<lparr>p_off := p_off ?l1 + 1\<rparr> = ?l1\<lparr>p_off := p + length d\<rparr>"
    using assms(2) by (cases d) simp_all
  also have "main_loop E False (?l1\<lparr>p_off := p + length d\<rparr>) = main_loop E False
      (at_off (P\<lparr>content_length := 0, state := s_chunk_data_done, data := data P @ [Ev_body d]\<rparr>)
        (p + length d + 1) CR s_chunk_data_done)"
    using CR assms(4-6)
    by (subst main_loop_body_byte)
      (auto simp: PARSING_HEADER_def switch_state_def case_s_chunk_data_almost_done_def assertion_def has_flag_def
        STRICT_CHECK_def CALLBACK_DATA_def UPDATE_STATE_def recorder_body)
  also have "\<dots> = main_loop E False
      (at_off (P\<lparr>nread := 0, content_length := 0, state := s_chunk_size_start,
        data := data P @ [Ev_body d, Ev_chunk_complete]\<rparr>) (p + length d + 2) LF s_chunk_size_start)"
    using LF assms(4-6)
    by (subst main_loop_body_byte)
      (auto simp: PARSING_HEADER_def switch_state_def case_s_chunk_data_done_def assertion_def has_flag_def
        STRICT_CHECK_def CALLBACK_NOTIFY_def UPDATE_STATE_def recorder_notify upd_parser_def)
  finally show ?thesis .
qed

text \<open>The wire format of a chunked body: per chunk the size in hexadecimal, the data and line ends;
  then a chunk of size 0 and an empty line.\<close>

definition encode_chunk :: "string \<times> string \<Rightarrow> string" where
  "encode_chunk c = fst c @ [CR, LF] @ snd c @ [CR, LF]"

definition encode_chunked :: "(string \<times> string) list \<Rightarrow> string" where
  "encode_chunked cs = concat (map encode_chunk cs) @ ''0'' @ [CR, LF, CR, LF]"

definition valid_chunk :: "string \<times> string \<Rightarrow> bool" where
  "valid_chunk c \<longleftrightarrow> fst c \<noteq> [] \<and> list_all hex_digit (fst c) \<and> length (fst c) < 80000 \<and> snd c \<noteq> [] \<and>
     hex_number 0 (fst c) = length (snd c)"

definition chunk_events :: "string \<times> string \<Rightarrow> event list" where
  "chunk_events c = [Ev_chunk_header, Ev_body (snd c), Ev_chunk_complete]"

lemma one_chunk:
  assumes "drop p (buf E) = encode_chunk c @ rest" "valid_chunk c" "has_flag F_CHUNKED P" "nread P = 0"
    and "http_errno P = HPE_OK" "settings E = recorder" "length (buf E) < 2 ^ 64 - 16"
  shows "main_loop E False (at_off P p x s_chunk_size_start) = main_loop E False
    (at_off (P\<lparr>nread := 0, content_length := 0, state := s_chunk_size_start, data := data P @ chunk_events c\<rparr>)
      (p + length (encode_chunk c)) LF s_chunk_size_start)"
proof -
  obtain hs d where c: "c = (hs, d)" by (cases c)
  have v: "hs \<noteq> []" "\<forall>c \<in> set hs. hex_digit c" "length hs < 80000" "d \<noteq> []" "hex_number 0 hs = length d"
    using assms(2) c by (auto simp: valid_chunk_def list_all_iff)
  have hs: "drop p (buf E) = hs @ CR # LF # d @ CR # LF # rest"
    using assms(1) c by (simp add: encode_chunk_def)
  have "drop (p + length hs + 2) (buf E) = drop (length hs + 2) (drop p (buf E))"
    by (simp add: add.commute add.left_commute)
  then have d: "drop (p + length hs + 2) (buf E) = d @ CR # LF # rest"
    using hs by simp
  have "p + length hs + 2 + length d < length (buf E)"
    using drop_append_nth(1) [OF d] .
  then have n: "hex_number 0 hs < 2 ^ 64 - 16"
    using assms(7) v(5) by linarith
  have "main_loop E False (at_off P p x s_chunk_size_start) = main_loop E False
      (at_off (P\<lparr>nread := 0, content_length := of_nat (length d), state := s_chunk_data,
        data := data P @ [Ev_chunk_header]\<rparr>) (p + length hs + 2) LF s_chunk_data)"
    using chunk_size_line [OF hs v(1,2) assms(3) n v(3) assms(4-6)] v(4,5) by simp
  also have "\<dots> = main_loop E False
      (at_off (P\<lparr>nread := 0, content_length := 0, state := s_chunk_size_start, data := data P @ chunk_events c\<rparr>)
      (p + length hs + 2 + length d + 2) LF s_chunk_size_start)"
    using assms(3,5,6,7) v(4)
    by (subst chunk_data_line [OF d]) (simp_all add: has_flag_def chunk_events_def c)
  finally show ?thesis
    by (simp add: c encode_chunk_def add.commute add.left_commute)
qed

lemma chunks_loop:
  assumes "drop p (buf E) = concat (map encode_chunk cs) @ rest" "list_all valid_chunk cs"
    and "has_flag F_CHUNKED P" "nread P = 0"
    and "http_errno P = HPE_OK" "settings E = recorder" "length (buf E) < 2 ^ 64 - 16"
  shows "\<exists>x' n s. main_loop E False (at_off P p x s_chunk_size_start) = main_loop E False
    (at_off (P\<lparr>nread := 0, content_length := n, state := s, data := data P @ concat (map chunk_events cs)\<rparr>)
      (p + length (concat (map encode_chunk cs))) x' s_chunk_size_start)"
  using assms
proof (induction cs arbitrary: P p x)
  case Nil
  have "P = P\<lparr>nread := 0, content_length := content_length P, state := state P, data := data P\<rparr>"
    using Nil.prems(4) by (cases P) simp
  then show ?case by (metis append.right_neutral concat.simps(1) list.simps(8) list.size(3) add_0_right)
next
  case (Cons c cs)
  let ?P = "P\<lparr>nread := 0, content_length := 0, state := s_chunk_size_start, data := data P @ chunk_events c\<rparr>"
  let ?p = "p + length (encode_chunk c)"
  have first: "main_loop E False (at_off P p x s_chunk_size_start) =
      main_loop E False (at_off ?P ?p LF s_chunk_size_start)"
    using Cons.prems by (intro one_chunk [of _ _ _ "concat (map encode_chunk cs) @ rest"]) auto
  have "drop ?p (buf E) = drop (length (encode_chunk c)) (drop p (buf E))"
    by (simp add: add.commute)
  then have "drop ?p (buf E) = concat (map encode_chunk cs) @ rest"
    using Cons.prems(1) by simp
  then obtain x' n s where "main_loop E False (at_off ?P ?p LF s_chunk_size_start) = main_loop E False
      (at_off (?P\<lparr>nread := 0, content_length := n, state := s, data := data ?P @ concat (map chunk_events cs)\<rparr>)
      (?p + length (concat (map encode_chunk cs))) x' s_chunk_size_start)"
    using Cons.IH [of ?p ?P LF] Cons.prems by (auto simp: has_flag_def)
  with first have "main_loop E False (at_off P p x s_chunk_size_start) = main_loop E False
      (at_off (P\<lparr>nread := 0, content_length := n, state := s, data := data P @ concat (map chunk_events (c # cs))\<rparr>)
      (p + length (concat (map encode_chunk (c # cs)))) x' s_chunk_size_start)"
    by (simp add: add.assoc)
  then show ?case by blast
qed

lemma or_and_absorb: "(a OR b) AND b = (b :: 'a::len word)"
  by (rule bit_eqI) (auto simp: bit_simps)

text \<open>The end of the trailer: an empty line.\<close>

lemma trailer_end:
  assumes "p + 2 = length (buf E)" "buf E ! p = CR" "buf E ! Suc p = LF"
    and "has_flag F_TRAILING P" "nread P = 0" "http_errno P = HPE_OK" "settings E = recorder"
  shows "\<exists>Q. main_loop E False (at_off P p x s_header_field_start) = Some (Inr (length (buf E), Q)) \<and>
    http_errno Q = HPE_OK \<and> state Q = NEW_MESSAGE P \<and> data Q = data P @ [Ev_chunk_complete, Ev_message_complete]"
proof -
  let ?P = "P\<lparr>nread := 1\<rparr>" and ?Q = "P\<lparr>nread := 2\<rparr>"
  have 1: "main_loop E False (at_off P p x s_header_field_start) =
      main_loop E False (at_off ?P (Suc p) CR s_headers_almost_done)"
    using assms
    by (intro main_loop_header_byte) (simp_all add: PARSING_HEADER_def HTTP_MAX_HEADER_SIZE_def switch_state_def
        case_s_header_field_start_def UPDATE_STATE_def)
  let ?l2 = "at_off ?Q (Suc p) LF s_headers_almost_done"
  let ?l3 = "at_off (?Q\<lparr>state := s_message_done, data := data P @ [Ev_chunk_complete]\<rparr>) (Suc p) LF s_message_done"
  have 2: "loop_head E (at_off ?P (Suc p) CR s_headers_almost_done) = Break ?l2"
    using assms by (subst loop_head_count)
      (simp_all add: PARSING_HEADER_def HTTP_MAX_HEADER_SIZE_def count_byte_def)
  have 3: "switch_state E ?l2 = Reexecute ?l3"
    using assms(4,6,7)
    by (simp add: switch_state_def case_s_headers_almost_done_def STRICT_CHECK_def has_flag_def UPDATE_STATE_def
        CALLBACK_NOTIFY_NOADVANCE_def recorder_notify)
  have new: "NEW_MESSAGE (?Q\<lparr>state := s, data := d\<rparr>) = NEW_MESSAGE P" for s d
    by (simp add: NEW_MESSAGE_def start_state_def http_should_keep_alive_def http_message_needs_eof_def has_flag_def)
  let ?l4 = "at_off (?Q\<lparr>state := NEW_MESSAGE P, data := data P @ [Ev_chunk_complete, Ev_message_complete]\<rparr>)
    (Suc p) LF (NEW_MESSAGE P)"
  have "switch_state E ?l3 = (if upgrade P then RETURN (length (buf E)) ?l4 else Break ?l4)"
    using assms(1,6,7) new by (simp add: switch_state_def case_s_message_done_def recorder_message_complete)
  then have "main_loop E True ?l3 = Some (Inr (length (buf E),
      ?Q\<lparr>state := NEW_MESSAGE P, data := data P @ [Ev_chunk_complete, Ev_message_complete]\<rparr>))"
    using assms(1,6)
    by (subst main_loop.simps) (simp add: RETURN_def main_loop_end flush_no_marks)
  then show ?thesis
    using 1 main_loop_Reexecute [OF _ 2 3] assms(1,6) by simp
qed

text \<open>C2.  Chunked bodies.  On a chunked body in its wire format, in one buffer, the parser reports
  for every chunk its header, its data unchanged and its end, then the end of the message, and
  consumes the whole body; the sizes may be written with any number of leading zeros and in
  either case.\<close>

theorem chunked_roundtrip:
  assumes "state P = s_chunk_size_start" "has_flag F_CHUNKED P" "nread P = 0" "http_errno P = HPE_OK"
    and "list_all valid_chunk cs" "length (encode_chunked cs) < 2 ^ 64 - 16"
  shows "\<exists>Q. http_parser_execute recorder P (encode_chunked cs) = Some (Inr (length (encode_chunked cs), Q)) \<and>
    http_errno Q = HPE_OK \<and>
    data Q = data P @ concat (map chunk_events cs) @ [Ev_chunk_header, Ev_chunk_complete, Ev_message_complete]"
proof -
  let ?b = "encode_chunked cs"
  let ?E = "body_env P ?b" and ?p = "length (concat (map encode_chunk cs))"
  have "entry_marks s_chunk_size_start = (\<lambda>_. None)"
    by (rule ext; simp add: entry_marks_def url_states_def split: data_for.split)
  then have start: "http_parser_execute recorder P ?b = main_loop ?E False (at_off P 0 NUL s_chunk_size_start)"
    using assms(1,4) by (simp add: http_parser_execute_def encode_chunked_def)
  have b: "drop 0 (buf ?E) = concat (map encode_chunk cs) @ ''0'' @ [CR, LF, CR, LF]"
    by (simp add: encode_chunked_def)
  obtain x n s where loop: "main_loop ?E False (at_off P 0 NUL s_chunk_size_start) = main_loop ?E False
      (at_off (P\<lparr>nread := 0, content_length := n, state := s, data := data P @ concat (map chunk_events cs)\<rparr>)
      ?p x s_chunk_size_start)"
    using chunks_loop [OF b, of P NUL] assms by auto
  let ?P = "P\<lparr>nread := 0, content_length := n, state := s, data := data P @ concat (map chunk_events cs)\<rparr>"
  let ?Q = "?P\<lparr>nread := 0, content_length := 0, flags := flags P OR F_TRAILING, state := s_header_field_start,
         data := data ?P @ [Ev_chunk_header]\<rparr>"
  have tail: "drop ?p ?b = ''0'' @ CR # LF # [CR, LF]"
    by (simp add: encode_chunked_def)
  have zero: "hex_digit (CHR ''0'')" "hex_number 0 ''0'' = 0"
    by (simp_all add: hex_digit_def hex_value_def)
  have "main_loop ?E False (at_off ?P ?p x s_chunk_size_start) =
      main_loop ?E False (at_off ?Q (?p + 3) LF s_header_field_start)"
    using chunk_size_line [of ?p ?E "''0''" "[CR, LF]" ?P x] tail zero assms(2,4)
    by (simp add: has_flag_def numeral_3_eq_3)
  moreover have "?b ! (?p + 3) = CR" "?b ! Suc (?p + 3) = LF" "?p + 3 + 2 = length ?b"
    by (simp_all add: encode_chunked_def nth_append)
  moreover have "has_flag F_TRAILING ?Q"
    by (simp add: has_flag_def or_and_absorb F_TRAILING_def)
  ultimately show ?thesis
    using trailer_end [of "?p + 3" ?E ?Q LF] start loop assms(4) by auto
qed

theorem chunked_roundtrip_witness:
  "\<exists>Q. http_parser_execute recorder
      (http_parser_init [] HTTP_RESPONSE\<lparr>state := s_chunk_size_start, flags := F_CHUNKED\<rparr>)
      (encode_chunked [(''5'', ''hello''), (''0A'', ''chunk body'')]) =
      Some (Inr (length (encode_chunked [(''5'', ''hello''), (''0A'', ''chunk body'')]), Q)) \<and>
    http_errno Q = HPE_OK \<and>
    data Q = [Ev_chunk_header, Ev_body ''hello'', Ev_chunk_complete, Ev_chunk_header, Ev_body ''chunk body'',
      Ev_chunk_complete, Ev_chunk_header, Ev_chunk_complete, Ev_message_complete]"
  using chunked_roundtrip [of "http_parser_init [] HTTP_RESPONSE\<lparr>state := s_chunk_size_start, flags := F_CHUNKED\<rparr>"
      "[(''5'', ''hello''), (''0A'', ''chunk body'')]"]
  by (simp add: http_parser_init_def has_flag_def F_CHUNKED_def valid_chunk_def hex_digit_def hex_value_def
      encode_chunked_def encode_chunk_def chunk_events_def)

text \<open>C24.  Chunk sizes do not wrap.  Each further hexadecimal digit either extends the size to its exact
  value, or stops the parser with \<open>HPE_INVALID_CONTENT_LENGTH\<close>, exactly when the size would
  reach \<open>2^64 - 16\<close>.\<close>

theorem chunk_size_no_wrap:
  assumes "has_flag F_CHUNKED (parser l)" "hex_digit (ch l)"
  shows "case_s_chunk_size l =
    (let n = unat (content_length (parser l)) * 16 + nat (hex_value (ch l)) in
     if n < 2 ^ 64 - 16 then Break (l\<lparr>parser := (parser l)\<lparr>content_length := of_nat n\<rparr>\<rparr>)
     else error HPE_INVALID_CONTENT_LENGTH l)"
proof -
  let ?c = "content_length (parser l)" and ?n = "unat (content_length (parser l)) * 16 + nat (hex_value (ch l))"
  note v = hex_digit_unhex [OF assms(2)]
  show ?thesis
  proof (cases "?n < 2 ^ 64 - 16")
    case True
    note ok = chunk_digit_accepted [OF this]
    have "unat (?c * 16 + of_int (unhex (ch l))) = ?n"
      using chunk_digit_bound(2) [OF ok, of "unhex (ch l)"] v by simp
    moreover have "unat (of_nat ?n :: u64) = ?n"
      using True by (intro unat_of_nat_length) linarith
    ultimately have "?c * 16 + of_int (unhex (ch l)) = of_nat ?n"
      by (simp only: word_unat_eq_iff)
    then show ?thesis
      using ok v True assms(1) by (simp add: case_s_chunk_size_def assertion_def upd_parser_def Let_def)
  next
    case False
    moreover have "nat (hex_value (ch l)) \<le> 15"
      using v by (simp add: nat_le_iff)
    ultimately have "1152921504606846974 < unat ?c"
      by simp
    moreover have "unat ((ULLONG_MAX - 16) div 16 :: u64) = 1152921504606846974"
      by (simp add: ULLONG_MAX_def unat_div)
    ultimately have "(ULLONG_MAX - 16) div 16 < ?c"
      by (simp add: word_less_nat_alt)
    then show ?thesis
      using v False assms(1) by (simp add: case_s_chunk_size_def assertion_def Let_def)
  qed
qed

theorem chunk_size_no_wrap_witness:
  "case_s_chunk_size (at_off (http_parser_init () HTTP_REQUEST\<lparr>flags := F_CHUNKED, content_length := 0xFF\<rparr>) 0 (CHR ''e'') s_chunk_size) =
     Break (at_off (http_parser_init () HTTP_REQUEST\<lparr>flags := F_CHUNKED, content_length := 0xFFE\<rparr>) 0 (CHR ''e'') s_chunk_size)"
  using chunk_size_no_wrap [of "at_off (http_parser_init () HTTP_REQUEST\<lparr>flags := F_CHUNKED, content_length := 0xFF\<rparr>) 0 (CHR ''e'') s_chunk_size"]
  by (simp add: http_parser_init_def has_flag_def F_CHUNKED_def hex_digit_def hex_value_def)

end
