(* ===== verification/HttpHeaderSpec.thy ===== *)
theory HttpHeaderSpec
  imports HttpChunked
begin

text \<open>
  What the header states recognise.  The automaton over header names is compared with a
  direct definition on the name read so far, and the digits of a Content-Length value with the
  number they write.
\<close>

section \<open>Content-Length\<close>

lemma digit_of_value: "IS_NUM c \<Longrightarrow> (digit_of c :: u64) = of_nat (digit_value c) \<and> digit_value c \<le> 9"
  by (drule IS_NUM_cases) (auto simp: digit_of_def digit_value_def)

text \<open>C25.  Content-Length values do not wrap.  Each further decimal digit either extends the length to its
  exact value, or stops the parser with \<open>HPE_INVALID_CONTENT_LENGTH\<close>, exactly when the
  length would reach 18446744073709551610.\<close>

theorem content_length_no_wrap:
  assumes "IS_NUM (ch l)"
  shows "header_value_char E h_content_length l =
    (let n = unat (content_length (parser l)) * 10 + digit_value (ch l) in
     if n < 18446744073709551610
     then Inr (h_content_length, l\<lparr>parser := (parser l)\<lparr>content_length := of_nat n\<rparr>\<rparr>)
     else Inl (error HPE_INVALID_CONTENT_LENGTH (l\<lparr>parser := (parser l)\<lparr>header_state := h_content_length\<rparr>\<rparr>)))"
proof -
  let ?c = "content_length (parser l)" and ?d = "digit_value (ch l)"
  note d = digit_of_value [OF assms]
  have SP: "ch l \<noteq> SP"
    using IS_NUM_cases [OF assms] by auto
  have m: "unat ((ULLONG_MAX - 10) div 10 :: u64) = 1844674407370955160"
    by (simp add: ULLONG_MAX_def unat_div)
  have "unat ?c \<le> 1844674407370955160 \<longleftrightarrow> unat ?c * 10 + ?d < 18446744073709551610"
    using d by auto
  then have ok: "(ULLONG_MAX - 10) div 10 < ?c \<longleftrightarrow> \<not> unat ?c * 10 + ?d < 18446744073709551610"
    using m by (auto simp: word_less_nat_alt)
  have "?c * 10 + digit_of (ch l) = of_nat (unat ?c * 10 + ?d)"
    using d by simp
  then show ?thesis
    using ok SP assms by (simp add: header_value_char_def Let_def upd_parser_def)
qed

theorem content_length_no_wrap_witness:
  "header_value_char \<lparr>settings = recorder, buf = ''7'', lenient = False\<rparr> h_content_length
      (at_off (http_parser_init [] HTTP_REQUEST\<lparr>content_length := 12\<rparr>) 0 (CHR ''7'') s_header_value) =
    Inr (h_content_length, at_off (http_parser_init [] HTTP_REQUEST\<lparr>content_length := 127\<rparr>) 0 (CHR ''7'') s_header_value)"
  using content_length_no_wrap [of "at_off (http_parser_init [] HTTP_REQUEST\<lparr>content_length := 12\<rparr>) 0 (CHR ''7'') s_header_value"
      "\<lparr>settings = recorder, buf = ''7'', lenient = False\<rparr>"]
  by (simp add: http_parser_init_def IS_NUM_def digit_value_def)

section \<open>Header names\<close>

text \<open>The header state that belongs to a name (in lower case) of which \<open>u\<close> has been read.\<close>

definition is_prefix :: "string \<Rightarrow> string \<Rightarrow> bool" where
  "is_prefix u v \<longleftrightarrow> take (length u) v = u"

definition header_state_of :: "string \<Rightarrow> header_states" where
  "header_state_of u =
    (if u = CONNECTION \<or> u = PROXY_CONNECTION then h_connection
     else if u = CONTENT_LENGTH then h_content_length
     else if u = TRANSFER_ENCODING then h_transfer_encoding
     else if u = UPGRADE then h_upgrade
     else if u = ''c'' then h_C
     else if u = ''co'' then h_CO
     else if u = ''con'' then h_CON
     else if is_prefix u CONNECTION then h_matching_connection
     else if is_prefix u PROXY_CONNECTION then h_matching_proxy_connection
     else if is_prefix u CONTENT_LENGTH then h_matching_content_length
     else if is_prefix u TRANSFER_ENCODING then h_matching_transfer_encoding
     else if is_prefix u UPGRADE then h_matching_upgrade
     else h_general)"

text \<open>The prefixes the automaton distinguishes.\<close>

definition header_names :: "string list" where
  "header_names = [CONNECTION, PROXY_CONNECTION, CONTENT_LENGTH, TRANSFER_ENCODING, UPGRADE]"

definition header_prefixes :: "string list" where
  "header_prefixes = concat (map (\<lambda>v. map (\<lambda>n. take (Suc n) v) [0..<length v]) header_names)"

lemma header_prefixes_iff: "u \<in> set header_prefixes \<longleftrightarrow> (\<exists>v\<in>set header_names. \<exists>n<length v. u = take (Suc n) v)"
  unfolding header_prefixes_def by (simp add: image_iff) (meson atLeastLessThan_iff image_eqI image_iff zero_le)

lemma is_prefix_header_prefixes:
  assumes "u \<noteq> []" "v \<in> set header_names"
    and "is_prefix u v"
  shows "u \<in> set header_prefixes"
proof -
  have l: "length u \<le> length v" "0 < length u"
    using assms(1,3) by (auto simp: is_prefix_def min_def dest: arg_cong [where f = length] split: if_splits)
  have "u = take (Suc (length u - 1)) v"
    using assms(3) l(2) by (simp add: is_prefix_def)
  moreover have "length u - 1 \<in> set [0..<length v]"
    using l unfolding set_upt atLeastLessThan_iff by linarith
  ultimately show ?thesis
    using assms(2) unfolding header_prefixes_iff set_upt atLeastLessThan_iff by blast
qed

lemma header_state_of_general:
  assumes "u \<noteq> []" "u \<notin> set header_prefixes"
  shows "header_state_of u = h_general"
proof -
  have np: "\<not> is_prefix u v" if "v \<in> set header_names" for v
    using is_prefix_header_prefixes assms that by blast
  have "u \<noteq> ''c''" "u \<noteq> ''co''" "u \<noteq> ''con''"
    using np [of CONNECTION] by (auto simp: is_prefix_def CONNECTION_def header_names_def)
  moreover have "u \<noteq> v" if "v \<in> set header_names" for v
    using np [OF that] by (auto simp: is_prefix_def)
  ultimately show ?thesis
    using np by (simp add: header_state_of_def header_names_def)
qed

lemma header_prefixes_closed:
  assumes "u @ [c] \<in> set header_prefixes" "u \<noteq> []"
  shows "u \<in> set header_prefixes"
proof -
  obtain v n where v: "v \<in> set header_names"
    and n: "u @ [c] = take (Suc n) v" "n < length v"
    using assms(1) unfolding header_prefixes_iff by blast
  have "length u = n"
    using arg_cong [OF n(1), of length] n(2) by simp
  then have "take (length u) v = take n (take (Suc n) v)"
    by simp
  then have "is_prefix u v"
    using n(1) \<open>length u = n\<close> by (metis append_eq_conv_conj is_prefix_def)
  then show ?thesis
    using is_prefix_header_prefixes assms(2) v by blast
qed

text \<open>The invariant of the loop over the characters of a name.\<close>

definition name_read :: "string \<Rightarrow> 'd http_parser \<Rightarrow> bool" where
  "name_read u P \<longleftrightarrow> header_state P = header_state_of u \<and>
     (u \<in> set header_prefixes \<longrightarrow> unat (index P) = length u - 1) \<and>
     (has_flag F_CONTENTLENGTH P \<longrightarrow> is_prefix CONTENT_LENGTH u)"

lemma header_prefixes_eq:
  "header_prefixes =
    [''c'', ''co'', ''con'', ''conn'', ''conne'', ''connec'', ''connect'', ''connecti'', ''connectio'', ''connection'',
     ''p'', ''pr'', ''pro'', ''prox'', ''proxy'', ''proxy-'', ''proxy-c'', ''proxy-co'', ''proxy-con'', ''proxy-conn'',
     ''proxy-conne'', ''proxy-connec'', ''proxy-connect'', ''proxy-connecti'', ''proxy-connectio'', ''proxy-connection'',
     ''c'', ''co'', ''con'', ''cont'', ''conte'', ''conten'', ''content'', ''content-'', ''content-l'', ''content-le'',
     ''content-len'', ''content-leng'', ''content-lengt'', ''content-length'',
     ''t'', ''tr'', ''tra'', ''tran'', ''trans'', ''transf'', ''transfe'', ''transfer'', ''transfer-'', ''transfer-e'',
     ''transfer-en'', ''transfer-enc'', ''transfer-enco'', ''transfer-encod'', ''transfer-encodi'', ''transfer-encodin'',
     ''transfer-encoding'',
     ''u'', ''up'', ''upg'', ''upgr'', ''upgra'', ''upgrad'', ''upgrade'']"
  by (simp add: header_prefixes_def header_names_def header_name_defs upt_rec numeral_eq_Suc)

lemma name_read_char:
  assumes "name_read u P" "u \<noteq> []" "x \<noteq> SP"
  shows "\<exists>Q. header_field_char P c x = Inr Q \<and> name_read (u @ [c]) Q"
proof (cases "u \<in> set header_prefixes")
  case False
  then have "u @ [c] \<notin> set header_prefixes"
    using header_prefixes_closed assms(2) by blast
  then have "header_state_of (u @ [c]) = h_general"
    by (simp add: header_state_of_general)
  moreover have "header_state P = h_general"
    using assms(1,2) False by (simp add: name_read_def header_state_of_general)
  moreover have "is_prefix CONTENT_LENGTH u \<Longrightarrow> is_prefix CONTENT_LENGTH (u @ [c])"
    by (auto simp: is_prefix_def min_def dest: arg_cong [where f = length] split: if_splits)
  ultimately show ?thesis
    using assms(1) \<open>u @ [c] \<notin> set header_prefixes\<close> by (auto simp: name_read_def header_field_char_def)
next
  case True
  then have "length u \<le> 17"
    by (auto simp: header_prefixes_eq)
  then have i: "unat (index P + 1) = length u"
    using assms(1,2) True by (subst unat_index_Suc) (auto simp: name_read_def)
  have u: "header_state P = header_state_of u" "flags P AND F_CONTENTLENGTH \<noteq> 0 \<longrightarrow> is_prefix CONTENT_LENGTH u"
    using assms(1) by (auto simp: name_read_def has_flag_def)
  from True i u assms(3) show ?thesis
    unfolding header_prefixes_eq set_simps
    by (elim insertE emptyE; simp add: header_state_of_def is_prefix_def header_name_defs header_field_char_def
        match_char_def cstr_at_def name_read_def header_prefixes_eq set_flag_def has_flag_def)
qed

text \<open>The loop over a name, from its second character on.\<close>

lemma header_field_loop_name:
  assumes "name_read u P" "u \<noteq> []" "\<forall>x \<in> set xs. TOKEN x \<noteq> NUL"
  shows "\<exists>Q. header_field_loop P n y (xs @ CHR '':'' # rest) = Inr (Q, n + length xs, CHR '':'') \<and>
    name_read (u @ map TOKEN xs) Q"
  using assms
proof (induction xs arbitrary: u P n y)
  case Nil
  have "TOKEN (CHR '':'') = NUL"
    by (simp add: TOKEN_def tokens_def tokens_tab_def)
  then show ?case
    using Nil.prems(1) by simp
next
  case (Cons x xs)
  have "x \<noteq> SP"
    using Cons.prems(3) by (auto simp: TOKEN_def tokens_def tokens_tab_def)
  then obtain Q where Q: "header_field_char P (TOKEN x) x = Inr Q" "name_read (u @ [TOKEN x]) Q"
    using name_read_char Cons.prems(1,2) by blast
  with Cons.IH [OF Q(2), of "Suc n" x] Cons.prems(3) show ?case
    by simp
qed

lemma name_read_start:
  assumes "TOKEN x \<noteq> NUL" "\<not> has_flag F_CONTENTLENGTH P"
  shows "name_read [TOKEN x] (P\<lparr>index := 0, header_state := field_header_state (TOKEN x)\<rparr>)"
  using assms(2)
  by (simp add: name_read_def has_flag_def header_state_of_def field_header_state_def is_prefix_def header_name_defs)

text \<open>C19.  Header names.  Reading a complete header name (token characters, then a colon) ends in a
  recognising state exactly for the five names that matter to the framing of the message,
  compared without regard to case; no other name, shorter or longer, is taken for one of them.\<close>

theorem header_name_recognition:
  assumes "TOKEN x \<noteq> NUL" "list_all (\<lambda>x. TOKEN x \<noteq> NUL) xs" "\<not> has_flag F_CONTENTLENGTH P"
  shows "\<exists>Q. header_field_loop (P\<lparr>index := 0, header_state := field_header_state (TOKEN x)\<rparr>) 0 x (xs @ CHR '':'' # rest) =
      Inr (Q, length xs, CHR '':'') \<and>
    (header_state Q = h_connection \<longleftrightarrow>
       map TOKEN (x # xs) = ''connection'' \<or> map TOKEN (x # xs) = ''proxy-connection'') \<and>
    (header_state Q = h_content_length \<longleftrightarrow> map TOKEN (x # xs) = ''content-length'') \<and>
    (header_state Q = h_transfer_encoding \<longleftrightarrow> map TOKEN (x # xs) = ''transfer-encoding'') \<and>
    (header_state Q = h_upgrade \<longleftrightarrow> map TOKEN (x # xs) = ''upgrade'')"
proof -
  obtain Q where Q: "header_field_loop (P\<lparr>index := 0, header_state := field_header_state (TOKEN x)\<rparr>) 0 x (xs @ CHR '':'' # rest) =
      Inr (Q, length xs, CHR '':'')" "name_read (map TOKEN (x # xs)) Q"
    using header_field_loop_name [OF name_read_start [OF assms(1,3)], of xs 0 x rest] assms(2)
    by (auto simp: list_all_iff)
  then have "header_state Q = header_state_of (map TOKEN (x # xs))"
    by (simp add: name_read_def)
  then show ?thesis
    using Q(1) by (auto simp: header_state_of_def header_name_defs)
qed

theorem header_name_recognition_witness:
  "\<exists>Q. header_field_loop (http_parser_init () HTTP_REQUEST\<lparr>index := 0, header_state := field_header_state (TOKEN (CHR ''C''))\<rparr>)
      0 (CHR ''C'') (''ontent-LENGTH'' @ '':'' @ '' 12'') = Inr (Q, length ''ontent-LENGTH'', CHR '':'') \<and>
    header_state Q = h_content_length"
  using header_name_recognition [of "CHR ''C''" "''ontent-LENGTH''" "http_parser_init () HTTP_REQUEST" "'' 12''"]
  by (auto simp: http_parser_init_def has_flag_def TOKEN_def tokens_def tokens_tab_def)

end
