(* ===== verification/Socks5.thy ===== *)
theory Socks5
  imports Prelude
begin

text \<open>
  The SOCKS5 handshake of \<open>src/base/net/socks5_client.cc\<close>.

  A client is a record with the members of \<open>Socks5ClientImpl\<close> (without the final underscores) and the effects of its calls: the
  messages given to \<open>async_write\<close>, the number of outstanding \<open>async_read_some\<close> calls and the
  values passed to \<open>OnSocks5Handshake\<close>, all in order.  The completion handlers are separate
  operations; \<open>socks5_run\<close> interleaves them in every way the stream allows.  The functions
  \<open>address_v4::from_string\<close> and \<open>address_v6::from_string\<close> of Boost are the parameters
  \<open>v4\<close> and \<open>v6\<close>: the bytes of the address, or \<open>None\<close> for an error code.
\<close>

section \<open>Data\<close>

datatype Socks5CheckStatus =
    kProxySocks5Init | kProxySocks5Hello | kProxySocks5NeedAuth | kProxySocks5AuthSuccess
  | kProxySocks5AuthReq | kProxySocks5ConSvr | kProxySocks5ConSvrSuccess

definition kSocks5Version :: u8 where "kSocks5Version = 0x05"
definition kSocks5AuthVersion :: u8 where "kSocks5AuthVersion = 0x01"
definition kSockstNAuthMethos :: u8 where "kSockstNAuthMethos = 0x01"
definition kSocks5NoAuth :: u8 where "kSocks5NoAuth = 0x00"
definition kSocks5UsrNamePwdAuth :: u8 where "kSocks5UsrNamePwdAuth = 0x02"
definition kSocks5RespStatus :: u8 where "kSocks5RespStatus = 0x00"
definition kSocks5ConnectCmd :: u8 where "kSocks5ConnectCmd = 0x01"
definition kSocks5RsvVal :: u8 where "kSocks5RsvVal = 0x00"
definition kSocksATYPIPv4 :: u8 where "kSocksATYPIPv4 = 0x01"
definition kSocksATYPHost :: u8 where "kSocksATYPHost = 0x03"
definition kSocksATYPIPv6 :: u8 where "kSocksATYPIPv6 = 0x04"

lemmas socks5_consts =
  kSocks5Version_def kSocks5AuthVersion_def kSockstNAuthMethos_def kSocks5NoAuth_def
  kSocks5UsrNamePwdAuth_def kSocks5RespStatus_def kSocks5ConnectCmd_def kSocks5RsvVal_def
  kSocksATYPIPv4_def kSocksATYPHost_def kSocksATYPIPv6_def

type_synonym bytes = "u8 list"

record Socks5ProxyProperty =
  server :: bytes
  port :: u16
  username :: bytes
  password :: bytes

record Socks5ClientImpl =
  proxy_info :: Socks5ProxyProperty
  socks5_status :: Socks5CheckStatus
  received_data :: bytes
  write_data :: bytes
  asio_buffers :: nat
  sent :: "bytes list"
  reading :: nat
  handshakes :: "int list"

definition Socks5ClientImpl_new :: "Socks5ProxyProperty \<Rightarrow> Socks5ClientImpl" where
  "Socks5ClientImpl_new info =
    \<lparr>proxy_info = info, socks5_status = kProxySocks5Init, received_data = [], write_data = [],
     asio_buffers = 0, sent = [], reading = 0, handshakes = []\<rparr>"

section \<open>Operations\<close>

definition OnSocks5Handshake :: "int \<Rightarrow> Socks5ClientImpl \<Rightarrow> Socks5ClientImpl" where
  "OnSocks5Handshake r s = s\<lparr>handshakes := handshakes s @ [r]\<rparr>"

definition DoReceiveData :: "Socks5ClientImpl \<Rightarrow> Socks5ClientImpl" where
  "DoReceiveData s = s\<lparr>reading := reading s + 1\<rparr>"

definition DoSendData :: "bytes \<Rightarrow> Socks5ClientImpl \<Rightarrow> Socks5ClientImpl" where
  "DoSendData buffer s = s\<lparr>write_data := buffer, sent := sent s @ [buffer]\<rparr>"

definition set_status :: "Socks5CheckStatus \<Rightarrow> Socks5ClientImpl \<Rightarrow> Socks5ClientImpl" where
  "set_status st s = s\<lparr>socks5_status := st\<rparr>"

definition DoSendHello :: "Socks5ClientImpl \<Rightarrow> Socks5ClientImpl" where
  "DoSendHello s =
    (let socks5_greet_data = [kSocks5Version, kSockstNAuthMethos,
           if username (proxy_info s) = [] \<or> password (proxy_info s) = [] then kSocks5NoAuth
           else kSocks5UsrNamePwdAuth]
     in DoReceiveData (set_status kProxySocks5Hello (DoSendData socks5_greet_data s)))"

text \<open>A length in one byte, \<open>static_cast<uint8_t>\<close>, and that many bytes.\<close>

definition with_length :: "bytes \<Rightarrow> bytes" where
  "with_length b = (let len = of_nat (length b) :: u8 in len # take (unat len) b)"

definition DoSocks5Auth :: "Socks5ClientImpl \<Rightarrow> Socks5ClientImpl" where
  "DoSocks5Auth s =
    (let buf = [kSocks5AuthVersion] @ with_length (username (proxy_info s)) @
           with_length (password (proxy_info s))
     in DoReceiveData (set_status kProxySocks5AuthReq (DoSendData buf s)))"

text \<open>The two bytes of \<open>htons(port)\<close> in memory.\<close>

definition net_port :: "u16 \<Rightarrow> bytes" where
  "net_port p = [ucast (drop_bit 8 p), ucast p]"

text \<open>\<open>v4.from_string(server, ec)\<close> calls a static member function and drops its result: only
  \<open>ec\<close> is used, and \<open>v4\<close> and \<open>v6\<close> stay the default addresses, all bytes zero.\<close>

definition DoConnectMyServer ::
  "(bytes \<Rightarrow> bytes option) \<Rightarrow> (bytes \<Rightarrow> bytes option) \<Rightarrow> Socks5ClientImpl \<Rightarrow> Socks5ClientImpl" where
  "DoConnectMyServer v4 v6 s =
    (let srv = server (proxy_info s); p = net_port (port (proxy_info s));
         socks_type = (if v4 srv \<noteq> None then kSocksATYPIPv4
           else if v6 srv \<noteq> None then kSocksATYPIPv6 else kSocksATYPHost);
         head_data = [kSocks5Version, kSocks5ConnectCmd, kSocks5RsvVal, socks_type];
         buf = head_data @
           (if socks_type = kSocksATYPIPv4 then replicate 4 0 @ p
            else if socks_type = kSocksATYPIPv6 then replicate 16 0 @ p
            else with_length srv @ p)
     in DoReceiveData (set_status kProxySocks5ConSvr (DoSendData buf s)))"

text \<open>\<open>4 + 1 + received_data[4] + 2\<close> as \<open>size_t\<close>: the \<open>char\<close> is signed, and the element behind
  the last one reads as 0.\<close>

definition host_reply_size :: "bytes \<Rightarrow> nat" where
  "host_reply_size r =
    nat ((7 + (if length r = 4 then 0 else sint (r ! 4))) mod 2 ^ 64)"

definition HandleConnectBussinessServer :: "bytes \<Rightarrow> Socks5ClientImpl \<Rightarrow> Socks5ClientImpl" where
  "HandleConnectBussinessServer dat s =
    (let s = s\<lparr>received_data := received_data s @ dat\<rparr>; r = received_data s in
     if length r < 4 then DoReceiveData s
     else let atyp = r ! 3 in
       if atyp = kSocksATYPIPv4 \<and> length r < 4 + 4 + 2 then s
       else if atyp = kSocksATYPHost \<and> length r < host_reply_size r then s
       else if atyp = kSocksATYPIPv6 \<and> length r < 4 + 16 + 2 then s
       else if kSocks5Version \<noteq> r ! 0 \<or> kSocks5RespStatus \<noteq> r ! 1 then OnSocks5Handshake (-1) s
       else OnSocks5Handshake 0 (set_status kProxySocks5ConSvrSuccess s))"

text \<open>The dispatch and the two handlers that call it again.  \<open>LoopSocks5Handshake\<close> always returns
  true, and no caller looks at the result.\<close>

function LoopSocks5Handshake ::
  "(bytes \<Rightarrow> bytes option) \<Rightarrow> (bytes \<Rightarrow> bytes option) \<Rightarrow> bytes \<Rightarrow> Socks5ClientImpl \<Rightarrow> Socks5ClientImpl"
  and HandleHello ::
  "(bytes \<Rightarrow> bytes option) \<Rightarrow> (bytes \<Rightarrow> bytes option) \<Rightarrow> bytes \<Rightarrow> Socks5ClientImpl \<Rightarrow> Socks5ClientImpl"
  and HandleSocks5Auth ::
  "(bytes \<Rightarrow> bytes option) \<Rightarrow> (bytes \<Rightarrow> bytes option) \<Rightarrow> bytes \<Rightarrow> Socks5ClientImpl \<Rightarrow> Socks5ClientImpl"
where
  "LoopSocks5Handshake v4 v6 dat s =
    (case socks5_status s of
       kProxySocks5Init \<Rightarrow> DoSendHello s
     | kProxySocks5Hello \<Rightarrow> HandleHello v4 v6 dat s
     | kProxySocks5NeedAuth \<Rightarrow> DoSocks5Auth s
     | kProxySocks5AuthSuccess \<Rightarrow> DoConnectMyServer v4 v6 s
     | kProxySocks5AuthReq \<Rightarrow> HandleSocks5Auth v4 v6 dat s
     | kProxySocks5ConSvr \<Rightarrow> HandleConnectBussinessServer dat s
     | kProxySocks5ConSvrSuccess \<Rightarrow> s)"
| "HandleHello v4 v6 dat s =
    (let s = s\<lparr>received_data := received_data s @ dat\<rparr>; r = received_data s in
     if length r < 2 then DoReceiveData s
     else if kSocks5Version \<noteq> r ! 0 then OnSocks5Handshake (-1) s
     else if kSocks5NoAuth = r ! 1 then
       LoopSocks5Handshake v4 v6 [] ((set_status kProxySocks5AuthSuccess s)\<lparr>received_data := []\<rparr>)
     else if kSocks5UsrNamePwdAuth = r ! 1 then
       LoopSocks5Handshake v4 v6 [] ((set_status kProxySocks5NeedAuth s)\<lparr>received_data := []\<rparr>)
     else OnSocks5Handshake (-1) s)"
| "HandleSocks5Auth v4 v6 dat s =
    (let s = s\<lparr>received_data := received_data s @ dat\<rparr>; r = received_data s in
     if length r < 2 then DoReceiveData s
     else if kSocks5AuthVersion \<noteq> r ! 0 \<or> kSocks5RespStatus \<noteq> r ! 1 then OnSocks5Handshake (-1) s
     else LoopSocks5Handshake v4 v6 [] (set_status kProxySocks5AuthSuccess (s\<lparr>received_data := []\<rparr>)))"
  by pat_completeness auto
termination
  by (relation "measure (\<lambda>x. case x of
      Inl (_, _, _, s) \<Rightarrow> if socks5_status s \<in> {kProxySocks5Hello, kProxySocks5AuthReq} then 2 else 0
    | Inr _ \<Rightarrow> 1)")
    (auto simp: set_status_def)

declare LoopSocks5Handshake.simps [simp del] HandleHello.simps [simp del] HandleSocks5Auth.simps [simp del]

definition Connect :: "(bytes \<Rightarrow> bytes option) \<Rightarrow> (bytes \<Rightarrow> bytes option) \<Rightarrow> Socks5ClientImpl \<Rightarrow> Socks5ClientImpl" where
  "Connect v4 v6 s =
    (if kProxySocks5Init \<noteq> socks5_status s then s
     else LoopSocks5Handshake v4 v6 [] (s\<lparr>asio_buffers := 10\<rparr>))"

text \<open>The completion handlers of \<open>async_read_some\<close> and \<open>async_write\<close>.  The handler of a write that
  succeeded does nothing.\<close>

definition read_handler ::
  "(bytes \<Rightarrow> bytes option) \<Rightarrow> (bytes \<Rightarrow> bytes option) \<Rightarrow> bytes option \<Rightarrow> Socks5ClientImpl \<Rightarrow> Socks5ClientImpl" where
  "read_handler v4 v6 result s =
    (let s = s\<lparr>reading := reading s - 1\<rparr> in
     case result of None \<Rightarrow> OnSocks5Handshake (-1) s | Some dat \<Rightarrow> LoopSocks5Handshake v4 v6 dat s)"

definition write_failed :: "Socks5ClientImpl \<Rightarrow> Socks5ClientImpl" where
  "write_failed s = OnSocks5Handshake (-1) s"

section \<open>Runs of the handshake\<close>

text \<open>Every order of completions the stream allows: a read that is outstanding delivers between one
  byte and the size of the buffer, or fails; a write fails.\<close>

inductive socks5_run ::
  "(bytes \<Rightarrow> bytes option) \<Rightarrow> (bytes \<Rightarrow> bytes option) \<Rightarrow> Socks5ProxyProperty \<Rightarrow> Socks5ClientImpl \<Rightarrow> bool"
  for v4 v6 info where
  start: "socks5_run v4 v6 info (Connect v4 v6 (Socks5ClientImpl_new info))"
| received: "socks5_run v4 v6 info s \<Longrightarrow> 0 < reading s \<Longrightarrow> dat \<noteq> [] \<Longrightarrow> length dat \<le> asio_buffers s \<Longrightarrow>
    socks5_run v4 v6 info (read_handler v4 v6 (Some dat) s)"
| read_error: "socks5_run v4 v6 info s \<Longrightarrow> 0 < reading s \<Longrightarrow> socks5_run v4 v6 info (read_handler v4 v6 None s)"
| write_error: "socks5_run v4 v6 info s \<Longrightarrow> sent s \<noteq> [] \<Longrightarrow> socks5_run v4 v6 info (write_failed s)"

text \<open>The dispatch in each status.\<close>

lemma Loop_Init: "socks5_status s = kProxySocks5Init \<Longrightarrow> LoopSocks5Handshake v4 v6 dat s = DoSendHello s"
  by (subst LoopSocks5Handshake.simps) simp

lemma Loop_Hello: "socks5_status s = kProxySocks5Hello \<Longrightarrow> LoopSocks5Handshake v4 v6 dat s = HandleHello v4 v6 dat s"
  by (subst LoopSocks5Handshake.simps) simp

lemma Loop_NeedAuth: "socks5_status s = kProxySocks5NeedAuth \<Longrightarrow> LoopSocks5Handshake v4 v6 dat s = DoSocks5Auth s"
  by (subst LoopSocks5Handshake.simps) simp

lemma Loop_AuthSuccess:
  "socks5_status s = kProxySocks5AuthSuccess \<Longrightarrow> LoopSocks5Handshake v4 v6 dat s = DoConnectMyServer v4 v6 s"
  by (subst LoopSocks5Handshake.simps) simp

lemma Loop_AuthReq:
  "socks5_status s = kProxySocks5AuthReq \<Longrightarrow> LoopSocks5Handshake v4 v6 dat s = HandleSocks5Auth v4 v6 dat s"
  by (subst LoopSocks5Handshake.simps) simp

lemma Loop_ConSvr:
  "socks5_status s = kProxySocks5ConSvr \<Longrightarrow> LoopSocks5Handshake v4 v6 dat s = HandleConnectBussinessServer dat s"
  by (subst LoopSocks5Handshake.simps) simp

lemma Loop_ConSvrSuccess: "socks5_status s = kProxySocks5ConSvrSuccess \<Longrightarrow> LoopSocks5Handshake v4 v6 dat s = s"
  by (subst LoopSocks5Handshake.simps) simp

lemmas Loop_simps = Loop_Init Loop_Hello Loop_NeedAuth Loop_AuthSuccess Loop_AuthReq Loop_ConSvr Loop_ConSvrSuccess

lemmas socks5_effects = OnSocks5Handshake_def DoReceiveData_def DoSendData_def set_status_def

text \<open>The messages of the client.\<close>

definition hello_message :: "Socks5ProxyProperty \<Rightarrow> bytes" where
  "hello_message info = [5, 1, if username info = [] \<or> password info = [] then 0 else 2]"

definition auth_message :: "Socks5ProxyProperty \<Rightarrow> bytes" where
  "auth_message info = 1 # with_length (username info) @ with_length (password info)"

definition connect_message ::
  "(bytes \<Rightarrow> bytes option) \<Rightarrow> (bytes \<Rightarrow> bytes option) \<Rightarrow> Socks5ProxyProperty \<Rightarrow> bytes" where
  "connect_message v4 v6 info =
    (if v4 (server info) \<noteq> None then [5, 1, 0, 1] @ replicate 4 0
     else if v6 (server info) \<noteq> None then [5, 1, 0, 4] @ replicate 16 0
     else [5, 1, 0, 3] @ with_length (server info)) @ net_port (port info)"

lemma DoSendHello_eq:
  "DoSendHello s = s\<lparr>socks5_status := kProxySocks5Hello, write_data := hello_message (proxy_info s),
    sent := sent s @ [hello_message (proxy_info s)], reading := reading s + 1\<rparr>"
  by (simp add: DoSendHello_def socks5_effects hello_message_def socks5_consts Let_def)

lemma DoSocks5Auth_eq:
  "DoSocks5Auth s = s\<lparr>socks5_status := kProxySocks5AuthReq, write_data := auth_message (proxy_info s),
    sent := sent s @ [auth_message (proxy_info s)], reading := reading s + 1\<rparr>"
  by (simp add: DoSocks5Auth_def socks5_effects auth_message_def socks5_consts Let_def)

lemma DoConnectMyServer_eq:
  "DoConnectMyServer v4 v6 s = s\<lparr>socks5_status := kProxySocks5ConSvr, write_data := connect_message v4 v6 (proxy_info s),
    sent := sent s @ [connect_message v4 v6 (proxy_info s)], reading := reading s + 1\<rparr>"
  by (simp add: DoConnectMyServer_def socks5_effects connect_message_def socks5_consts Let_def)

text \<open>The invariant: at most one read is outstanding, and none once the handshake is over; the
  messages go out in the order of the protocol; success is reported once, and only after the
  server has confirmed the connection.\<close>

definition socks5_inv ::
  "(bytes \<Rightarrow> bytes option) \<Rightarrow> (bytes \<Rightarrow> bytes option) \<Rightarrow> Socks5ProxyProperty \<Rightarrow> Socks5ClientImpl \<Rightarrow> bool" where
  "socks5_inv v4 v6 info s \<longleftrightarrow>
    proxy_info s = info \<and> asio_buffers s = 10 \<and> reading s \<le> 1 \<and>
    (let hello = hello_message info; auth = auth_message info; con = connect_message v4 v6 info;
         n = length (received_data s); ok = count_list (handshakes s) 0
     in case socks5_status s of
          kProxySocks5Hello \<Rightarrow> sent s = [hello] \<and> (reading s = 1 \<longrightarrow> n < 2) \<and> ok = 0
        | kProxySocks5AuthReq \<Rightarrow> sent s = [hello, auth] \<and> (reading s = 1 \<longrightarrow> n < 2) \<and> ok = 0
        | kProxySocks5ConSvr \<Rightarrow> (sent s = [hello, con] \<or> sent s = [hello, auth, con]) \<and> (reading s = 1 \<longrightarrow> n < 4) \<and> ok = 0
        | kProxySocks5ConSvrSuccess \<Rightarrow> (sent s = [hello, con] \<or> sent s = [hello, auth, con]) \<and> reading s = 0 \<and>
            4 \<le> n \<and> received_data s ! 0 = 5 \<and> received_data s ! 1 = 0 \<and> ok = 1
        | _ \<Rightarrow> False)"

lemma socks5_inv_start: "socks5_inv v4 v6 info (Connect v4 v6 (Socks5ClientImpl_new info))"
  by (simp add: socks5_inv_def Connect_def Socks5ClientImpl_new_def Loop_Init DoSendHello_eq)

lemma socks5_inv_failed: "socks5_inv v4 v6 info s \<Longrightarrow> socks5_inv v4 v6 info (OnSocks5Handshake (-1) s)"
  by (simp add: socks5_inv_def socks5_effects Let_def split: Socks5CheckStatus.splits)

lemma socks5_inv_received:
  assumes "socks5_inv v4 v6 info s" "0 < reading s"
  shows "socks5_inv v4 v6 info (read_handler v4 v6 (Some dat) s)"
proof -
  have "socks5_status s \<in> {kProxySocks5Hello, kProxySocks5AuthReq, kProxySocks5ConSvr}" "reading s = 1"
    using assms by (auto simp: socks5_inv_def Let_def split: Socks5CheckStatus.splits)
  then show ?thesis
    using assms(1)
    by (elim insertE emptyE)
      (auto simp: socks5_inv_def read_handler_def Loop_simps HandleHello.simps HandleSocks5Auth.simps Let_def
        HandleConnectBussinessServer_def DoSocks5Auth_eq DoConnectMyServer_eq socks5_effects socks5_consts)
qed

lemma socks5_inv_read_error: "socks5_inv v4 v6 info s \<Longrightarrow> socks5_inv v4 v6 info (read_handler v4 v6 None s)"
  by (auto simp: socks5_inv_def read_handler_def socks5_effects Let_def split: Socks5CheckStatus.splits)

lemma socks5_run_inv: "socks5_run v4 v6 info s \<Longrightarrow> socks5_inv v4 v6 info s"
  by (induction rule: socks5_run.induct)
    (auto simp: write_failed_def socks5_inv_start socks5_inv_received socks5_inv_read_error socks5_inv_failed)

text \<open>C8.  Safety of the handshake, in every order of completions: at most one read is outstanding; the
  messages sent are a prefix of greeting, credentials (if asked for), connection request; success is
  reported at most once, exactly when the status is \<open>kProxySocks5ConSvrSuccess\<close>, and then the reply
  of the server carries version 5 and the status 0 and nothing is read any more.\<close>

theorem socks5_handshake_safe:
  assumes "socks5_run v4 v6 info s"
  shows "reading s \<le> 1 \<and> count_list (handshakes s) 0 \<le> 1 \<and>
    (count_list (handshakes s) 0 = 1 \<longleftrightarrow> socks5_status s = kProxySocks5ConSvrSuccess) \<and>
    (socks5_status s = kProxySocks5ConSvrSuccess \<longrightarrow>
       reading s = 0 \<and> received_data s ! 0 = 5 \<and> received_data s ! 1 = 0) \<and>
    sent s \<in> {[hello_message info], [hello_message info, auth_message info],
      [hello_message info, connect_message v4 v6 info],
      [hello_message info, auth_message info, connect_message v4 v6 info]}"
  using socks5_run_inv [OF assms]
  by (cases "socks5_status s") (auto simp: socks5_inv_def Let_def)

theorem socks5_handshake_safe_witness:
  "reading (Connect Map.empty Map.empty (Socks5ClientImpl_new \<lparr>server = [104], port = 80, username = [], password = []\<rparr>)) \<le> 1"
  using socks5_handshake_safe [OF socks5_run.start] by blast

section \<open>Complete handshakes\<close>

definition reads ::
  "(bytes \<Rightarrow> bytes option) \<Rightarrow> (bytes \<Rightarrow> bytes option) \<Rightarrow> bytes list \<Rightarrow> Socks5ClientImpl \<Rightarrow> Socks5ClientImpl" where
  "reads v4 v6 frs s = fold (\<lambda>dat s. if 0 < reading s then read_handler v4 v6 (Some dat) s else s) frs s"

lemma reads_Nil [simp]: "reads v4 v6 [] s = s"
  by (simp add: reads_def)

lemma reads_Cons: "reads v4 v6 (d # frs) s = reads v4 v6 frs (if 0 < reading s then read_handler v4 v6 (Some d) s else s)"
  by (simp add: reads_def)

lemma reads_append: "reads v4 v6 (a @ b) s = reads v4 v6 b (reads v4 v6 a s)"
  by (simp add: reads_def)

lemma reads_stopped: "reading s = 0 \<Longrightarrow> reads v4 v6 frs s = s"
  by (induction frs) (simp_all add: reads_Cons)

text \<open>In the statuses that wait for a reply, short fragments are collected.\<close>

lemma read_short:
  assumes "reading s = 1"
    and "socks5_status s = kProxySocks5ConSvr \<and> length (received_data s @ d) < 4 \<or>
      socks5_status s \<in> {kProxySocks5Hello, kProxySocks5AuthReq} \<and> length (received_data s @ d) < 2"
  shows "read_handler v4 v6 (Some d) s = s\<lparr>received_data := received_data s @ d\<rparr>"
  using assms
  by (auto simp: read_handler_def Loop_simps HandleHello.simps HandleSocks5Auth.simps
      HandleConnectBussinessServer_def socks5_effects Let_def)

lemma concat_Nil_nonempty: "[] \<notin> set frs \<Longrightarrow> concat frs = [] \<longleftrightarrow> frs = []"
  by (cases frs) auto

lemma two_bytes: "length (r @ d) \<ge> 2 \<Longrightarrow> (r @ d) @ c = [x, y] \<Longrightarrow> r @ d = [x, y] \<and> c = []"
  by (auto simp: append_eq_Cons_conv)

lemma reads_hello:
  assumes "socks5_status s = kProxySocks5Hello" "reading s = 1" "[] \<notin> set frs"
    and "received_data s @ concat frs = [5, m]" "length (received_data s) < 2" "m = 0 \<or> m = 2"
  shows "reads v4 v6 frs s = LoopSocks5Handshake v4 v6 [] (s\<lparr>reading := 0,
    socks5_status := (if m = 0 then kProxySocks5AuthSuccess else kProxySocks5NeedAuth), received_data := []\<rparr>)"
  using assms(1-5)
proof (induction frs arbitrary: s)
  case (Cons d frs)
  show ?case
  proof (cases "length (received_data s @ d) < 2")
    case True
    then show ?thesis
      using Cons by (simp add: reads_Cons read_short)
  next
    case False
    then have r: "received_data s @ d = [5, m]" "frs = []"
      using two_bytes [of "received_data s" d "concat frs" 5 m] Cons.prems concat_Nil_nonempty [of frs] by auto
    then show ?thesis
      using Cons.prems assms(6)
      by (auto simp: reads_Cons read_handler_def Loop_Hello HandleHello.simps Let_def socks5_consts set_status_def)
  qed
qed simp

lemma reads_auth:
  assumes "socks5_status s = kProxySocks5AuthReq" "reading s = 1" "[] \<notin> set frs"
    and "received_data s @ concat frs = [1, 0]" "length (received_data s) < 2"
  shows "reads v4 v6 frs s = LoopSocks5Handshake v4 v6 [] (s\<lparr>reading := 0, received_data := [],
    socks5_status := kProxySocks5AuthSuccess\<rparr>)"
  using assms
proof (induction frs arbitrary: s)
  case (Cons d frs)
  show ?case
  proof (cases "length (received_data s @ d) < 2")
    case True
    then show ?thesis
      using Cons by (simp add: reads_Cons read_short)
  next
    case False
    then have r: "received_data s @ d = [1, 0]" "frs = []"
      using two_bytes [of "received_data s" d "concat frs" 1 0] Cons.prems concat_Nil_nonempty [of frs] by auto
    then show ?thesis
      using Cons.prems
      by (auto simp: reads_Cons read_handler_def Loop_AuthReq HandleSocks5Auth.simps Let_def socks5_consts set_status_def)
  qed
qed simp

lemma reads_collect:
  "socks5_status s = kProxySocks5ConSvr \<Longrightarrow> reading s = 1 \<Longrightarrow> length (received_data s @ concat frs) < 4 \<Longrightarrow>
    reads v4 v6 frs s = s\<lparr>received_data := received_data s @ concat frs\<rparr>"
  by (induction frs arbitrary: s) (simp_all add: reads_Cons read_short)

lemma read_ipv4_reply:
  assumes "socks5_status s = kProxySocks5ConSvr" "reading s = 1"
    and "length (received_data s @ d) = 10" "(received_data s @ d) ! 0 = 5" "(received_data s @ d) ! 1 = 0"
    and "(received_data s @ d) ! 3 = 1"
  shows "read_handler v4 v6 (Some d) s = s\<lparr>reading := 0, received_data := received_data s @ d,
    socks5_status := kProxySocks5ConSvrSuccess, handshakes := handshakes s @ [0]\<rparr>"
  using assms
  by (simp add: read_handler_def Loop_ConSvr HandleConnectBussinessServer_def socks5_effects socks5_consts Let_def)



text \<open>A reply with an IPv6 address is never accepted.  The buffer holds ten bytes and the reply has
  22; once four bytes have arrived, \<open>HandleConnectBussinessServer\<close> returns on the incomplete reply
  without reading on.  So however the reply is cut, the client ends up with no read outstanding
  and the handshake is reported neither as done nor as failed.\<close>

lemma socks5_ipv6_reply_stalls:
  assumes "socks5_run v4 v6 info s" "socks5_status s = kProxySocks5ConSvr" "reading s = 1" "received_data s = []"
    and "length (concat frs) = 22" "concat frs ! 3 = 4" "list_all (\<lambda>d. length d \<le> asio_buffers s) frs"
  shows "let t = reads v4 v6 frs s
    in reading t = 0 \<and> handshakes t = handshakes s \<and> socks5_status t = kProxySocks5ConSvr"
proof -
  have "asio_buffers s = 10"
    using socks5_run_inv [OF assms(1)] by (simp add: socks5_inv_def)
  then have frs: "list_all (\<lambda>d. length d \<le> 10) frs"
    using assms(7) by simp
  have "\<exists>r. reads v4 v6 frs s = s\<lparr>reading := 0, received_data := r\<rparr>"
    if "socks5_status s = kProxySocks5ConSvr" "reading s = 1" "length (received_data s) < 4"
      "length (received_data s @ concat frs) = 22" "(received_data s @ concat frs) ! 3 = 4"
      "list_all (\<lambda>d. length d \<le> 10) frs" for s
    using that
  proof (induction frs arbitrary: s)
    case (Cons d frs)
    show ?case
    proof (cases "length (received_data s @ d) < 4")
      case True
      then show ?thesis
        using Cons.IH [of "s\<lparr>received_data := received_data s @ d\<rparr>"] Cons.prems by (simp add: reads_Cons read_short)
    next
      case False
      moreover have "((received_data s @ d) @ concat frs) ! 3 = (received_data s @ d) ! 3"
        using False by (subst nth_append) simp
      then have "(received_data s @ d) ! 3 = 4"
        using Cons.prems(5) by simp
      moreover have "length (received_data s @ d) < 22"
        using Cons.prems by simp
      ultimately have "read_handler v4 v6 (Some d) s = s\<lparr>reading := 0, received_data := received_data s @ d\<rparr>"
        using Cons.prems
        by (simp add: read_handler_def Loop_ConSvr HandleConnectBussinessServer_def socks5_consts Let_def)
      then show ?thesis
        using Cons.prems by (auto simp: reads_Cons reads_stopped)
    qed
  qed simp
  from this [of s] show ?thesis
    using assms frs by (auto simp: Let_def)
qed

section \<open>Messages\<close>

text \<open>Readers for the messages of RFC 1929 and RFC 1928.\<close>

definition parse_counted :: "bytes \<Rightarrow> (bytes \<times> bytes) option" where
  "parse_counted b =
    (case b of [] \<Rightarrow> None
     | n # r \<Rightarrow> if unat n \<le> length r then Some (take (unat n) r, drop (unat n) r) else None)"

definition parse_auth :: "bytes \<Rightarrow> (bytes \<times> bytes) option" where
  "parse_auth b =
    (case b of [] \<Rightarrow> None
     | v # r \<Rightarrow> if v \<noteq> 1 then None
       else case parse_counted r of None \<Rightarrow> None
         | Some (u, r) \<Rightarrow> (case parse_counted r of Some (p, []) \<Rightarrow> Some (u, p) | _ \<Rightarrow> None))"

definition parse_port :: "bytes \<Rightarrow> u16 option" where
  "parse_port b = (case b of [h, l] \<Rightarrow> Some (push_bit 8 (ucast h) OR ucast l) | _ \<Rightarrow> None)"

definition parse_connect :: "bytes \<Rightarrow> (u8 \<times> bytes \<times> u16) option" where
  "parse_connect b =
    (case b of v # c # r # t # rest \<Rightarrow>
       if v \<noteq> 5 \<or> c \<noteq> 1 \<or> r \<noteq> 0 then None
       else (case (if t = 1 then Some (take 4 rest, drop 4 rest)
                   else if t = 4 then Some (take 16 rest, drop 16 rest)
                   else if t = 3 then parse_counted rest else None) of
               None \<Rightarrow> None
             | Some (a, p) \<Rightarrow> map_option (\<lambda>p. (t, a, p)) (parse_port p))
     | _ \<Rightarrow> None)"

lemma parse_counted_with_length: "length b < 256 \<Longrightarrow> parse_counted (with_length b @ r) = Some (b, r)"
  by (simp add: parse_counted_def with_length_def unat_of_nat take_bit_nat_eq_self)

lemma parse_port_net_port: "parse_port (net_port p) = Some p"
proof -
  have "push_bit 8 (ucast (ucast (drop_bit 8 p) :: u8)) OR ucast (ucast p :: u8) = p"
    by (rule bit_eqI) (auto simp: bit_simps)
  then show ?thesis
    by (simp add: parse_port_def net_port_def)
qed

text \<open>C28.  Messages on the wire.  Credentials of at most 255 bytes arrive as they are; the connection
  request names the configured port, and the configured host if it is a name of at most 255 bytes.
  For a literal IPv4 or IPv6 address, however, it names the address zero, whatever the address is.\<close>

theorem socks5_messages:
  assumes "length (username (proxy_info s)) < 256" "length (password (proxy_info s)) < 256"
    and "length (server (proxy_info s)) < 256"
  shows "parse_auth (write_data (DoSocks5Auth s)) = Some (username (proxy_info s), password (proxy_info s)) \<and>
    parse_connect (write_data (DoConnectMyServer v4 v6 s)) =
      Some (if v4 (server (proxy_info s)) \<noteq> None then (1, replicate 4 0, port (proxy_info s))
            else if v6 (server (proxy_info s)) \<noteq> None then (4, replicate 16 0, port (proxy_info s))
            else (3, server (proxy_info s), port (proxy_info s)))"
proof -
  let ?i = "proxy_info s"
  have "parse_counted (with_length (password ?i)) = Some (password ?i, [])"
    using parse_counted_with_length [OF assms(2), of "[]"] by simp
  then have "parse_auth (auth_message ?i) = Some (username ?i, password ?i)"
    using assms(1) by (simp add: parse_auth_def auth_message_def parse_counted_with_length)
  then show ?thesis
    using assms(3)
    by (simp add: DoSocks5Auth_eq DoConnectMyServer_eq parse_connect_def connect_message_def
        parse_counted_with_length parse_port_net_port)
qed

theorem socks5_messages_witness:
  "let s = Socks5ClientImpl_new \<lparr>server = [49, 46, 49, 46, 49, 46, 49], port = 443, username = [117], password = [112]\<rparr>
    in parse_auth (write_data (DoSocks5Auth s)) = Some ([117], [112]) \<and>
       parse_connect (write_data (DoConnectMyServer (\<lambda>_. Some [1, 1, 1, 1]) Map.empty s)) = Some (1, replicate 4 0, 443)"
  using socks5_messages [of "Socks5ClientImpl_new
      \<lparr>server = [49, 46, 49, 46, 49, 46, 49], port = 443, username = [117], password = [112]\<rparr>"
    "\<lambda>_. Some [1, 1, 1, 1]" Map.empty]
  by (simp add: Socks5ClientImpl_new_def)

end
