(* ===== verification/NetConnection.thy ===== *)
theory NetConnection
  imports Socks5
begin

text \<open>
  The connections of \<open>src/base/net/net_connection_impl.cc\<close>, with the resolver of
  \<open>dns_resolver_impl.cc\<close> and the SOCKS5 client of theory \<open>Socks5\<close> as their parts.

  A connection is a record with the members of \<open>NetConnectionImpl\<close>, without the final underscores, and
  with the asynchronous operations it has started: \<open>DoConnect\<close>, \<open>DoTlsHandshake\<close>,
  \<open>DoWebsocketHandshake\<close>, \<open>DoRecvData\<close> and \<open>DoSendData\<close> are the virtual functions of the protocols, and
  each starts one operation of the stream and leaves the rest to its completion handler.  The
  calls of the delegate are logged.  \<open>PostRunable\<close> on the single-threaded IO pump appends to a queue
  of tasks.  The owner keeps the connection alive, so the weak pointers can be locked.
\<close>

section \<open>Data\<close>

datatype NetType =
  kNetTypeTcp | kNetTypeTcpTls | kNetTypeWebsocket | kNetTypeWebsocketTls | kNetTypeHttp | kNetTypeHttps

record NetConnectionRequest =
  host :: bytes
  net_port :: u16
  net_type :: NetType
  path :: bytes
  proxy_host :: bytes
  proxy_port :: u16
  proxy_username :: bytes
  proxy_passwd :: bytes

datatype callback = OnConnect int | OnRecvData bytes | OnDisconnect int

datatype task = Task_DoDnsResolve | Task_DoResolver | Task_DoCancel | Task_HandleCleanUp | Task_DoSendFromQueue bytes

text \<open>The operations in progress on the stream.\<close>

record pending =
  resolving :: nat
  connecting :: nat
  tls_handshaking :: nat
  ws_handshaking :: nat
  receiving :: nat
  writing :: nat

text \<open>The resolver of a connection: the host and the service it looks up, whether it still has its
  delegate, and whether it was cancelled.\<close>

record DnsResolverImpl =
  dns_host :: bytes
  dns_schem :: u16
  dns_delegate :: bool
  dns_stoped :: bool

record NetConnectionImpl =
  request :: NetConnectionRequest
  delegate :: bool
  send_buffers :: "bytes list"
  dns_resolver :: "DnsResolverImpl option"
  stoped :: bool
  already_clean_up :: bool
  socks5_client :: "Socks5ClientImpl option"
  pending :: pending
  closed :: bool
  written :: "bytes list"
  callbacks :: "callback list"
  tasks :: "task list"

definition no_pending :: pending where
  "no_pending = \<lparr>resolving = 0, connecting = 0, tls_handshaking = 0, ws_handshaking = 0, receiving = 0, writing = 0\<rparr>"

definition NetConnectionImpl_new :: "NetConnectionRequest \<Rightarrow> NetConnectionImpl" where
  "NetConnectionImpl_new req =
    \<lparr>request = req, delegate = True, send_buffers = [], dns_resolver = None, stoped = False,
     already_clean_up = False, socks5_client = None, pending = no_pending, closed = False, written = [],
     callbacks = [], tasks = []\<rparr>"

definition PostRunable :: "task \<Rightarrow> NetConnectionImpl \<Rightarrow> NetConnectionImpl" where
  "PostRunable t c = c\<lparr>tasks := tasks c @ [t]\<rparr>"

section \<open>The resolver\<close>

definition CreateDnsResolver :: "bytes \<Rightarrow> u16 \<Rightarrow> DnsResolverImpl" where
  "CreateDnsResolver h s = \<lparr>dns_host = h, dns_schem = s, dns_delegate = True, dns_stoped = False\<rparr>"

text \<open>\<open>Resolver\<close> and \<open>Cancel\<close> of the resolver of a connection.\<close>

definition dns_Resolver :: "NetConnectionImpl \<Rightarrow> NetConnectionImpl" where
  "dns_Resolver c = (case dns_resolver c of
     Some d \<Rightarrow> if dns_stoped d then c else PostRunable Task_DoResolver c | None \<Rightarrow> c)"

definition dns_Cancel :: "NetConnectionImpl \<Rightarrow> NetConnectionImpl" where
  "dns_Cancel c = (case dns_resolver c of
     Some d \<Rightarrow> if dns_stoped d then c
       else PostRunable Task_DoCancel (c\<lparr>dns_resolver := Some (d\<lparr>dns_stoped := True, dns_delegate := False\<rparr>)\<rparr>)
   | None \<Rightarrow> c)"

section \<open>Operations\<close>

definition Connect :: "NetConnectionImpl \<Rightarrow> NetConnectionImpl" where
  "Connect c = PostRunable Task_DoDnsResolve c"

definition DisConnect :: "NetConnectionImpl \<Rightarrow> NetConnectionImpl" where
  "DisConnect c =
    (if stoped c then c else PostRunable Task_HandleCleanUp (c\<lparr>stoped := True, delegate := False\<rparr>))"

definition Send :: "bytes \<Rightarrow> NetConnectionImpl \<Rightarrow> NetConnectionImpl" where
  "Send buffer c = (if stoped c then c else PostRunable (Task_DoSendFromQueue buffer) c)"

definition notify :: "callback \<Rightarrow> NetConnectionImpl \<Rightarrow> NetConnectionImpl" where
  "notify cb c = (if delegate c then c\<lparr>callbacks := callbacks c @ [cb]\<rparr> else c)"

definition HandleConnectStatus :: "int \<Rightarrow> NetConnectionImpl \<Rightarrow> NetConnectionImpl" where
  "HandleConnectStatus code c = notify (OnConnect code) c"

definition NotifyDisconnect :: "int \<Rightarrow> NetConnectionImpl \<Rightarrow> NetConnectionImpl" where
  "NotifyDisconnect ec c = notify (OnDisconnect ec) c"

definition upd_pending :: "(pending \<Rightarrow> pending) \<Rightarrow> NetConnectionImpl \<Rightarrow> NetConnectionImpl" where
  "upd_pending f c = c\<lparr>pending := f (pending c)\<rparr>"

definition DoConnect :: "NetConnectionImpl \<Rightarrow> NetConnectionImpl" where
  "DoConnect = upd_pending (\<lambda>p. p\<lparr>connecting := connecting p + 1\<rparr>)"

definition DoTlsHandshake :: "NetConnectionImpl \<Rightarrow> NetConnectionImpl" where
  "DoTlsHandshake = upd_pending (\<lambda>p. p\<lparr>tls_handshaking := tls_handshaking p + 1\<rparr>)"

definition DoWebsocketHandshake :: "NetConnectionImpl \<Rightarrow> NetConnectionImpl" where
  "DoWebsocketHandshake = upd_pending (\<lambda>p. p\<lparr>ws_handshaking := ws_handshaking p + 1\<rparr>)"

definition DoRecvData :: "NetConnectionImpl \<Rightarrow> NetConnectionImpl" where
  "DoRecvData = upd_pending (\<lambda>p. p\<lparr>receiving := receiving p + 1\<rparr>)"

definition DoSendData :: "bytes \<Rightarrow> NetConnectionImpl \<Rightarrow> NetConnectionImpl" where
  "DoSendData b c = (upd_pending (\<lambda>p. p\<lparr>writing := writing p + 1\<rparr>) c)\<lparr>written := written c @ [b]\<rparr>"

text \<open>\<open>DoCleanUp\<close> closes the socket.\<close>

definition DoCleanUp :: "NetConnectionImpl \<Rightarrow> NetConnectionImpl" where
  "DoCleanUp c = c\<lparr>closed := True\<rparr>"

definition HandleCleanUp :: "NetConnectionImpl \<Rightarrow> NetConnectionImpl" where
  "HandleCleanUp c =
    (if already_clean_up c then c
     else let c = c\<lparr>already_clean_up := True, socks5_client := None\<rparr>;
              c = (if dns_resolver c \<noteq> None then (dns_Cancel c)\<lparr>dns_resolver := None\<rparr> else c)
       in DoCleanUp c)"

definition StartRecvDate :: "NetConnectionImpl \<Rightarrow> NetConnectionImpl" where
  "StartRecvDate c = DoRecvData c"

definition DoOtherHandshake :: "int \<Rightarrow> NetConnectionImpl \<Rightarrow> NetConnectionImpl" where
  "DoOtherHandshake code c =
    (case net_type (request c) of
       kNetTypeWebsocketTls \<Rightarrow> DoTlsHandshake c
     | kNetTypeTcpTls \<Rightarrow> DoTlsHandshake c
     | kNetTypeHttps \<Rightarrow> DoTlsHandshake c
     | kNetTypeWebsocket \<Rightarrow> DoWebsocketHandshake c
     | _ \<Rightarrow> StartRecvDate (HandleConnectStatus code c))"

definition OnSocks5Handshake :: "int \<Rightarrow> NetConnectionImpl \<Rightarrow> NetConnectionImpl" where
  "OnSocks5Handshake state c =
    (if state \<noteq> 0 then HandleConnectStatus state (HandleCleanUp c) else DoOtherHandshake state c)
      \<lparr>socks5_client := None\<rparr>"

text \<open>\<open>OnDnsResolvered\<close>; setting the time limit of the stream is not modelled.\<close>

definition OnDnsResolvered :: "int \<Rightarrow> NetConnectionImpl \<Rightarrow> NetConnectionImpl" where
  "OnDnsResolvered code c =
    (let c = (if dns_resolver c \<noteq> None then (dns_Cancel c)\<lparr>dns_resolver := None\<rparr> else c)
     in if 0 \<noteq> code then HandleCleanUp (HandleConnectStatus code c) else DoConnect c)"

definition DoDnsResolve :: "NetConnectionImpl \<Rightarrow> NetConnectionImpl" where
  "DoDnsResolve c =
    (let r = request c;
         d = (if proxy_host r \<noteq> [] then CreateDnsResolver (proxy_host r) (proxy_port r)
              else CreateDnsResolver (host r) (net_port r))
     in dns_Resolver (c\<lparr>dns_resolver := Some d\<rparr>))"

definition proxy_property :: "NetConnectionRequest \<Rightarrow> Socks5ProxyProperty" where
  "proxy_property r = \<lparr>server = host r, port = net_port r, username = proxy_username r, password = proxy_passwd r\<rparr>"

definition NotifyConnectComplete ::
  "(bytes \<Rightarrow> bytes option) \<Rightarrow> (bytes \<Rightarrow> bytes option) \<Rightarrow> int \<Rightarrow> NetConnectionImpl \<Rightarrow> NetConnectionImpl" where
  "NotifyConnectComplete v4 v6 ec c =
    (if ec = 0 then
       (if proxy_host (request c) \<noteq> [] then
          c\<lparr>socks5_client := Some (Socks5.Connect v4 v6 (Socks5ClientImpl_new (proxy_property (request c))))\<rparr>
        else DoOtherHandshake ec c)
     else HandleConnectStatus ec (HandleCleanUp c))"

definition NotifyTlsHandshakeComplete :: "int \<Rightarrow> NetConnectionImpl \<Rightarrow> NetConnectionImpl" where
  "NotifyTlsHandshakeComplete ec c =
    (if ec = 0 then
       (case net_type (request c) of
          kNetTypeWebsocketTls \<Rightarrow> DoWebsocketHandshake c
        | _ \<Rightarrow> StartRecvDate (HandleConnectStatus ec c))
     else HandleCleanUp (HandleConnectStatus ec c))"

definition NotifyWebsocketHandshakeComplte :: "int \<Rightarrow> NetConnectionImpl \<Rightarrow> NetConnectionImpl" where
  "NotifyWebsocketHandshakeComplte ec c =
    (let c = HandleConnectStatus ec c in if ec = 0 then StartRecvDate c else HandleCleanUp c)"

definition DoSendFromQueue :: "bytes \<Rightarrow> NetConnectionImpl \<Rightarrow> NetConnectionImpl" where
  "DoSendFromQueue send_buffer c =
    (let write_in_progress = (send_buffers c \<noteq> []);
         c = c\<lparr>send_buffers := send_buffers c @ [send_buffer]\<rparr>
     in if \<not> write_in_progress \<and> \<not> already_clean_up c then DoSendData (hd (send_buffers c)) c else c)"

definition NotifySendComplete :: "int \<Rightarrow> NetConnectionImpl \<Rightarrow> NetConnectionImpl" where
  "NotifySendComplete ec c =
    (if ec \<noteq> 0 then HandleCleanUp (NotifyDisconnect ec c)
     else let c = c\<lparr>send_buffers := tl (send_buffers c)\<rparr>
       in if send_buffers c \<noteq> [] \<and> \<not> already_clean_up c then DoSendData (hd (send_buffers c)) c else c)"

definition HandleRecvData :: "bytes \<Rightarrow> NetConnectionImpl \<Rightarrow> NetConnectionImpl" where
  "HandleRecvData dat c = DoRecvData (notify (OnRecvData dat) c)"

text \<open>The result of a read: an error code, or the bytes in the buffer.\<close>

definition NotifyRecvData :: "int + bytes \<Rightarrow> NetConnectionImpl \<Rightarrow> NetConnectionImpl" where
  "NotifyRecvData r c =
    (case r of Inl ec \<Rightarrow> HandleCleanUp (NotifyDisconnect ec c) | Inr dat \<Rightarrow> HandleRecvData dat c)"

text \<open>The completion handlers of the resolver and of the SOCKS5 client, and the tasks of the pump.\<close>

definition NotifyResult :: "int \<Rightarrow> NetConnectionImpl \<Rightarrow> NetConnectionImpl" where
  "NotifyResult ec c = (case dns_resolver c of
     Some d \<Rightarrow> if dns_delegate d then OnDnsResolvered ec c else c | None \<Rightarrow> c)"

definition socks5_event ::
  "(Socks5ClientImpl \<Rightarrow> Socks5ClientImpl) \<Rightarrow> NetConnectionImpl \<Rightarrow> NetConnectionImpl" where
  "socks5_event f c = (case socks5_client c of
     None \<Rightarrow> c
   | Some s \<Rightarrow> (let s' = f s; c' = c\<lparr>socks5_client := Some s'\<rparr>
       in if length (handshakes s) < length (handshakes s') then OnSocks5Handshake (last (handshakes s')) c' else c'))"

primrec run_task :: "task \<Rightarrow> NetConnectionImpl \<Rightarrow> NetConnectionImpl" where
  "run_task Task_DoDnsResolve c = DoDnsResolve c"
| "run_task Task_DoResolver c = upd_pending (\<lambda>p. p\<lparr>resolving := resolving p + 1\<rparr>) c"
| "run_task Task_DoCancel c = c"
| "run_task Task_HandleCleanUp c = HandleCleanUp c"
| "run_task (Task_DoSendFromQueue b) c = DoSendFromQueue b c"

section \<open>Runs of a connection\<close>

text \<open>The layers of a connection, in the order in which they are set up, and those a request asks for.\<close>

datatype layer = Tcp | Socks | Tls | Ws

definition transport_layers :: "NetConnectionRequest \<Rightarrow> layer list" where
  "transport_layers r = Tcp # (if proxy_host r \<noteq> [] then [Socks] else [])"

definition uses_tls :: "NetConnectionRequest \<Rightarrow> bool" where
  "uses_tls r \<longleftrightarrow> net_type r \<in> {kNetTypeTcpTls, kNetTypeWebsocketTls, kNetTypeHttps}"

definition uses_ws :: "NetConnectionRequest \<Rightarrow> bool" where
  "uses_ws r \<longleftrightarrow> net_type r \<in> {kNetTypeWebsocket, kNetTypeWebsocketTls}"

definition required_layers :: "NetConnectionRequest \<Rightarrow> layer list" where
  "required_layers r =
    transport_layers r @ (if uses_tls r then [Tls] else []) @ (if uses_ws r then [Ws] else [])"

definition layer_done :: "layer \<Rightarrow> int \<Rightarrow> layer list" where
  "layer_done l ec = (if ec = 0 then [l] else [])"

text \<open>A step of a connection: a call by its owner, the next task of the pump, or the completion of an
  operation in progress.  Next to the connection itself the relation keeps the buffers given to
  \<open>Send\<close> and accepted, and the layers set up so far.\<close>

inductive conn_step ::
  "(bytes \<Rightarrow> bytes option) \<Rightarrow> (bytes \<Rightarrow> bytes option) \<Rightarrow> NetConnectionImpl \<times> bytes list \<times> layer list \<Rightarrow>
   NetConnectionImpl \<times> bytes list \<times> layer list \<Rightarrow> bool"
  for v4 v6 where
  send: "conn_step v4 v6 (c, q, ls) (Send b c, if stoped c then q else q @ [b], ls)"
| disconnect: "conn_step v4 v6 (c, q, ls) (DisConnect c, q, ls)"
| run: "tasks c = t # ts \<Longrightarrow> conn_step v4 v6 (c, q, ls) (run_task t (c\<lparr>tasks := ts\<rparr>), q, ls)"
| resolved: "0 < resolving (pending c) \<Longrightarrow>
    conn_step v4 v6 (c, q, ls) (NotifyResult ec (upd_pending (\<lambda>p. p\<lparr>resolving := resolving p - 1\<rparr>) c), q, ls)"
| connected: "0 < connecting (pending c) \<Longrightarrow>
    conn_step v4 v6 (c, q, ls)
      (NotifyConnectComplete v4 v6 ec (upd_pending (\<lambda>p. p\<lparr>connecting := connecting p - 1\<rparr>) c), q, ls @ layer_done Tcp ec)"
| socks_read: "socks5_client c = Some s \<Longrightarrow> 0 < reading s \<Longrightarrow> dat \<noteq> [] \<Longrightarrow> length dat \<le> asio_buffers s \<Longrightarrow>
    conn_step v4 v6 (c, q, ls)
      (socks5_event (read_handler v4 v6 (Some dat)) c, q,
       ls @ (if 0 \<in> set (handshakes (read_handler v4 v6 (Some dat) s)) then [Socks] else []))"
| socks_read_error: "socks5_client c = Some s \<Longrightarrow> 0 < reading s \<Longrightarrow>
    conn_step v4 v6 (c, q, ls) (socks5_event (read_handler v4 v6 None) c, q, ls)"
| socks_write_error: "socks5_client c = Some s \<Longrightarrow> conn_step v4 v6 (c, q, ls) (socks5_event write_failed c, q, ls)"
| tls: "0 < tls_handshaking (pending c) \<Longrightarrow>
    conn_step v4 v6 (c, q, ls)
      (NotifyTlsHandshakeComplete ec (upd_pending (\<lambda>p. p\<lparr>tls_handshaking := tls_handshaking p - 1\<rparr>) c), q,
       ls @ layer_done Tls ec)"
| websocket: "0 < ws_handshaking (pending c) \<Longrightarrow>
    conn_step v4 v6 (c, q, ls)
      (NotifyWebsocketHandshakeComplte ec (upd_pending (\<lambda>p. p\<lparr>ws_handshaking := ws_handshaking p - 1\<rparr>) c), q,
       ls @ layer_done Ws ec)"
| sent: "0 < writing (pending c) \<Longrightarrow>
    conn_step v4 v6 (c, q, ls) (NotifySendComplete ec (upd_pending (\<lambda>p. p\<lparr>writing := writing p - 1\<rparr>) c), q, ls)"
| received: "0 < receiving (pending c) \<Longrightarrow>
    conn_step v4 v6 (c, q, ls) (NotifyRecvData r (upd_pending (\<lambda>p. p\<lparr>receiving := receiving p - 1\<rparr>) c), q, ls)"

inductive conn_run ::
  "(bytes \<Rightarrow> bytes option) \<Rightarrow> (bytes \<Rightarrow> bytes option) \<Rightarrow> NetConnectionRequest \<Rightarrow>
   NetConnectionImpl \<times> bytes list \<times> layer list \<Rightarrow> bool"
  for v4 v6 req where
  start: "conn_run v4 v6 req (Connect (NetConnectionImpl_new req), [], [])"
| step: "conn_run v4 v6 req x \<Longrightarrow> conn_step v4 v6 x y \<Longrightarrow> conn_run v4 v6 req y"

lemmas conn_defs =
  PostRunable_def dns_Resolver_def dns_Cancel_def Connect_def DisConnect_def Send_def notify_def
  HandleConnectStatus_def NotifyDisconnect_def upd_pending_def DoConnect_def DoTlsHandshake_def
  DoWebsocketHandshake_def DoRecvData_def DoSendData_def DoCleanUp_def HandleCleanUp_def StartRecvDate_def
  DoOtherHandshake_def OnSocks5Handshake_def OnDnsResolvered_def DoDnsResolve_def
  NotifyConnectComplete_def NotifyTlsHandshakeComplete_def NotifyWebsocketHandshakeComplte_def
  DoSendFromQueue_def NotifySendComplete_def HandleRecvData_def NotifyRecvData_def NotifyResult_def
  socks5_event_def

end
