(* ===== verification/NetConnectionSpec.thy ===== *)
theory NetConnectionSpec
  imports NetConnection
begin

text \<open>
  Properties of the connections of theory \<open>NetConnection\<close>: the queue of buffers to send, the order of the
  handshakes, and the calls of the delegate.
\<close>

section \<open>What the operations change\<close>

text \<open>The buffers in the tasks that are not yet in the queue.\<close>

fun task_buffers :: "task list \<Rightarrow> bytes list" where
  "task_buffers [] = []"
| "task_buffers (Task_DoSendFromQueue b # ts) = b # task_buffers ts"
| "task_buffers (_ # ts) = task_buffers ts"

lemma task_buffers_append [simp]: "task_buffers (a @ b) = task_buffers a @ task_buffers b"
  by (induction a rule: task_buffers.induct) simp_all

abbreviation dns_tasks :: "NetConnectionImpl \<Rightarrow> nat" where
  "dns_tasks c \<equiv> count_list (tasks c) Task_DoDnsResolve"

lemma PostRunable_sel [simp]:
  "request (PostRunable t c) = request c" "delegate (PostRunable t c) = delegate c" "send_buffers (PostRunable t c) = send_buffers c"
  "dns_resolver (PostRunable t c) = dns_resolver c" "stoped (PostRunable t c) = stoped c"
  "already_clean_up (PostRunable t c) = already_clean_up c" "socks5_client (PostRunable t c) = socks5_client c"
  "pending (PostRunable t c) = pending c" "written (PostRunable t c) = written c" "callbacks (PostRunable t c) = callbacks c"
  "tasks (PostRunable t c) = tasks c @ [t]"
  by (simp_all add: PostRunable_def)

lemma dns_Cancel_sel [simp]:
  "request (dns_Cancel c) = request c" "delegate (dns_Cancel c) = delegate c" "send_buffers (dns_Cancel c) = send_buffers c"
  "stoped (dns_Cancel c) = stoped c" "already_clean_up (dns_Cancel c) = already_clean_up c"
  "socks5_client (dns_Cancel c) = socks5_client c" "pending (dns_Cancel c) = pending c" "written (dns_Cancel c) = written c"
  "callbacks (dns_Cancel c) = callbacks c" "task_buffers (tasks (dns_Cancel c)) = task_buffers (tasks c)"
  "dns_tasks (dns_Cancel c) = dns_tasks c"
  by (simp_all add: dns_Cancel_def split: option.split)

lemma dns_Resolver_sel [simp]:
  "request (dns_Resolver c) = request c" "delegate (dns_Resolver c) = delegate c" "send_buffers (dns_Resolver c) = send_buffers c"
  "dns_resolver (dns_Resolver c) = dns_resolver c" "stoped (dns_Resolver c) = stoped c"
  "already_clean_up (dns_Resolver c) = already_clean_up c"
  "socks5_client (dns_Resolver c) = socks5_client c" "pending (dns_Resolver c) = pending c" "written (dns_Resolver c) = written c"
  "callbacks (dns_Resolver c) = callbacks c" "task_buffers (tasks (dns_Resolver c)) = task_buffers (tasks c)"
  "dns_tasks (dns_Resolver c) = dns_tasks c"
  by (simp_all add: dns_Resolver_def split: option.split)

lemma HandleCleanUp_sel [simp]:
  "request (HandleCleanUp c) = request c" "delegate (HandleCleanUp c) = delegate c" "send_buffers (HandleCleanUp c) = send_buffers c"
  "stoped (HandleCleanUp c) = stoped c" "already_clean_up (HandleCleanUp c)"
  "socks5_client (HandleCleanUp c) = (if already_clean_up c then socks5_client c else None)"
  "dns_resolver (HandleCleanUp c) = (if already_clean_up c then dns_resolver c else None)"
  "pending (HandleCleanUp c) = pending c" "written (HandleCleanUp c) = written c"
  "callbacks (HandleCleanUp c) = callbacks c" "task_buffers (tasks (HandleCleanUp c)) = task_buffers (tasks c)"
  "dns_tasks (HandleCleanUp c) = dns_tasks c"
  by (simp_all add: HandleCleanUp_def DoCleanUp_def Let_def)

lemma notify_sel [simp]:
  "request (notify cb c) = request c" "delegate (notify cb c) = delegate c" "send_buffers (notify cb c) = send_buffers c"
  "dns_resolver (notify cb c) = dns_resolver c" "stoped (notify cb c) = stoped c"
  "already_clean_up (notify cb c) = already_clean_up c" "socks5_client (notify cb c) = socks5_client c"
  "pending (notify cb c) = pending c" "written (notify cb c) = written c" "tasks (notify cb c) = tasks c"
  "callbacks (notify cb c) = callbacks c @ (if delegate c then [cb] else [])"
  by (simp_all add: notify_def)

lemma upd_pending_sel [simp]:
  "request (upd_pending f c) = request c" "delegate (upd_pending f c) = delegate c" "send_buffers (upd_pending f c) = send_buffers c"
  "dns_resolver (upd_pending f c) = dns_resolver c" "stoped (upd_pending f c) = stoped c"
  "already_clean_up (upd_pending f c) = already_clean_up c" "socks5_client (upd_pending f c) = socks5_client c"
  "pending (upd_pending f c) = f (pending c)" "written (upd_pending f c) = written c" "tasks (upd_pending f c) = tasks c"
  "callbacks (upd_pending f c) = callbacks c"
  by (simp_all add: upd_pending_def)

text \<open>The remaining operations, in terms of these.\<close>

lemmas conn_ops =
  DisConnect_def Send_def HandleConnectStatus_def NotifyDisconnect_def DoConnect_def DoTlsHandshake_def
  DoWebsocketHandshake_def DoRecvData_def DoSendData_def StartRecvDate_def
  OnSocks5Handshake_def OnDnsResolvered_def DoDnsResolve_def NotifyConnectComplete_def NotifyTlsHandshakeComplete_def
  NotifyWebsocketHandshakeComplte_def DoSendFromQueue_def NotifySendComplete_def HandleRecvData_def NotifyRecvData_def
  NotifyResult_def socks5_event_def

section \<open>The send queue\<close>

definition queue_inv :: "NetConnectionImpl \<Rightarrow> bytes list \<Rightarrow> bool" where
  "queue_inv c q \<longleftrightarrow> (\<exists>dn. q = dn @ send_buffers c @ task_buffers (tasks c) \<and> writing (pending c) \<le> 1 \<and>
    (written c = dn \<or> send_buffers c \<noteq> [] \<and> written c = dn @ [hd (send_buffers c)]) \<and>
    (writing (pending c) = 1 \<longrightarrow> send_buffers c \<noteq> [] \<and> written c = dn @ [hd (send_buffers c)]) \<and>
    (\<not> already_clean_up c \<and> send_buffers c \<noteq> [] \<longrightarrow> writing (pending c) = 1))"

text \<open>Operations that have nothing to do with sending.\<close>

definition same_queue :: "NetConnectionImpl \<Rightarrow> NetConnectionImpl \<Rightarrow> bool" where
  "same_queue c d \<longleftrightarrow> send_buffers d = send_buffers c \<and> written d = written c \<and>
    writing (pending d) = writing (pending c) \<and> task_buffers (tasks d) = task_buffers (tasks c) \<and>
    (already_clean_up c \<longrightarrow> already_clean_up d)"

lemma queue_inv_same: "same_queue c d \<Longrightarrow> queue_inv c q \<Longrightarrow> queue_inv d q"
  unfolding queue_inv_def same_queue_def by (elim exE conjE) (intro exI conjI; simp; blast)

lemma same_queue_DoOtherHandshake: "same_queue c (DoOtherHandshake ec c)"
  by (simp add: same_queue_def DoOtherHandshake_def conn_ops split: NetType.split)

lemma same_queue_NotifyResult: "same_queue c (NotifyResult ec c)"
  by (auto simp: same_queue_def conn_ops Let_def split: option.split)

lemma same_queue_OnSocks5Handshake: "same_queue c (OnSocks5Handshake r c)"
  using same_queue_DoOtherHandshake [of c r] by (auto simp: same_queue_def conn_ops)

lemma same_queue_socks5_event: "same_queue c (socks5_event f c)"
  using same_queue_OnSocks5Handshake
  by (auto simp: same_queue_def socks5_event_def Let_def split: option.split)

lemma same_queue_handshakes:
  "same_queue c (NotifyConnectComplete v4 v6 ec c)" "same_queue c (NotifyTlsHandshakeComplete ec c)"
  "same_queue c (NotifyWebsocketHandshakeComplte ec c)"
  using same_queue_DoOtherHandshake [of c ec]
  by (auto simp: same_queue_def conn_ops Let_def split: NetType.split)

lemma same_queue_NotifyRecvData: "same_queue c (NotifyRecvData r c)"
  by (auto simp: same_queue_def conn_ops split: sum.split)

lemma queue_inv_upd_pending:
  "queue_inv c q \<Longrightarrow> writing (f (pending c)) = writing (pending c) \<Longrightarrow> queue_inv (upd_pending f c) q"
  by (rule queue_inv_same [of c]) (simp_all add: same_queue_def)

lemma queue_inv_DoSendFromQueue:
  assumes "queue_inv c q" "tasks c = Task_DoSendFromQueue b # ts"
  shows "queue_inv (DoSendFromQueue b (c\<lparr>tasks := ts\<rparr>)) q"
  using assms by (cases "send_buffers c") (auto simp: queue_inv_def conn_ops Let_def)

lemma queue_inv_NotifySendComplete:
  assumes "queue_inv c q" "0 < writing (pending c)"
  shows "queue_inv (NotifySendComplete ec (upd_pending (\<lambda>p. p\<lparr>writing := writing p - 1\<rparr>) c)) q"
  using assms by (cases "send_buffers c") (auto simp: queue_inv_def conn_ops Let_def neq_Nil_conv)

lemma queue_inv_other_task:
  assumes "queue_inv c q" "tasks c = t # ts" "\<forall>b. t \<noteq> Task_DoSendFromQueue b"
  shows "queue_inv (run_task t (c\<lparr>tasks := ts\<rparr>)) q"
  using assms by (intro queue_inv_same [OF _ assms(1)]) (cases t; auto simp: same_queue_def conn_ops Let_def)

lemma queue_inv_step: "conn_step v4 v6 x y \<Longrightarrow> queue_inv (fst x) (fst (snd x)) \<Longrightarrow> queue_inv (fst y) (fst (snd y))"
proof (induction rule: conn_step.induct)
  case (send c q ls b)
  then show ?case
    by (auto simp: queue_inv_def Send_def)
next
  case (disconnect c q ls)
  then show ?case
    by (auto simp: same_queue_def DisConnect_def intro: queue_inv_same [rotated])
next
  case (run c t ts q ls)
  show ?case
  proof (cases "\<exists>b. t = Task_DoSendFromQueue b")
    case True
    then show ?thesis
      using run queue_inv_DoSendFromQueue by auto
  next
    case False
    then show ?thesis
      using run queue_inv_other_task [of c q t ts] by simp
  qed
next
  case (sent c q ls ec)
  then show ?case
    using queue_inv_NotifySendComplete by simp
next
  case (socks_read c s dat q ls)
  then show ?case
    using queue_inv_same [OF same_queue_socks5_event] by simp
next
  case (socks_read_error c s q ls)
  then show ?case
    using queue_inv_same [OF same_queue_socks5_event] by simp
next
  case (socks_write_error c s q ls)
  then show ?case
    using queue_inv_same [OF same_queue_socks5_event] by simp
qed (simp_all add: queue_inv_upd_pending queue_inv_same [OF same_queue_NotifyResult]
    queue_inv_same [OF same_queue_handshakes(1)] queue_inv_same [OF same_queue_handshakes(2)]
    queue_inv_same [OF same_queue_handshakes(3)] queue_inv_same [OF same_queue_NotifyRecvData])

lemma queue_inv_run: "conn_run v4 v6 req x \<Longrightarrow> queue_inv (fst x) (fst (snd x))"
proof (induction rule: conn_run.induct)
  case start
  then show ?case
    by (simp add: queue_inv_def Connect_def NetConnectionImpl_new_def PostRunable_def no_pending_def)
qed (rule queue_inv_step)

text \<open>C10.  Buffers are written one at a time and in the order in which they were given to \<open>Send\<close>: in
  every run, at most one write is in progress, and the buffers written so far are an initial
  part of those accepted.\<close>

theorem conn_writes_in_order:
  assumes "conn_run v4 v6 req (c, q, ls)"
  shows "writing (pending c) \<le> 1 \<and> (\<exists>rest. q = written c @ rest)"
  using queue_inv_run [OF assms] by (auto simp: queue_inv_def neq_Nil_conv)

section \<open>Calls of the delegate\<close>

text \<open>Without a delegate no call is made, and none comes back.\<close>

lemma silent_DoOtherHandshake:
  "delegate (DoOtherHandshake ec c) = delegate c" "\<not> delegate c \<Longrightarrow> callbacks (DoOtherHandshake ec c) = callbacks c"
  by (simp_all add: DoOtherHandshake_def conn_ops split: NetType.split)

lemma silent_OnSocks5Handshake:
  "delegate (OnSocks5Handshake r c) = delegate c" "\<not> delegate c \<Longrightarrow> callbacks (OnSocks5Handshake r c) = callbacks c"
  by (simp_all add: OnSocks5Handshake_def HandleConnectStatus_def silent_DoOtherHandshake)

lemma silent_socks5_event:
  "delegate (socks5_event f c) = delegate c" "\<not> delegate c \<Longrightarrow> callbacks (socks5_event f c) = callbacks c"
  by (simp_all add: socks5_event_def silent_OnSocks5Handshake Let_def split: option.split)

lemma silent_run_task:
  "delegate (run_task t c) = delegate c" "callbacks (run_task t c) = callbacks c"
  by (cases t; simp add: conn_ops Let_def)+

lemma silent_step:
  "conn_step v4 v6 x y \<Longrightarrow> \<not> delegate (fst x) \<Longrightarrow> \<not> delegate (fst y) \<and> callbacks (fst y) = callbacks (fst x)"
  by (induction rule: conn_step.induct)
    (simp_all add: silent_run_task silent_socks5_event silent_DoOtherHandshake conn_ops(1-10,12-21) Let_def
      split: option.split sum.split NetType.split)

lemma silent_steps:
  assumes "(conn_step v4 v6)\<^sup>*\<^sup>* x y" "\<not> delegate (fst x)"
  shows "\<not> delegate (fst y) \<and> callbacks (fst y) = callbacks (fst x)"
  using assms by (induction rule: rtranclp_induct) (auto dest: silent_step)

text \<open>C20.  After \<open>DisConnect\<close> the delegate is not called any more, whatever operations complete later.\<close>

theorem disconnect_silent:
  assumes "\<not> stoped c" "(conn_step v4 v6)\<^sup>*\<^sup>* (DisConnect c, q, ls) (d, q', ls')"
  shows "callbacks d = callbacks c"
  using silent_steps [OF assms(2)] assms(1) by (simp add: DisConnect_def)

section \<open>The order of the handshakes\<close>

text \<open>A connection has at most one handshake under way.\<close>

definition handshaking :: "NetConnectionImpl \<Rightarrow> nat" where
  "handshaking c = dns_tasks c + (if dns_resolver c = None then 0 else 1) + connecting (pending c) +
    (if socks5_client c = None then 0 else 1) + tls_handshaking (pending c) + ws_handshaking (pending c)"

fun connects :: "callback list \<Rightarrow> int list" where
  "connects [] = []"
| "connects (OnConnect r # cbs) = r # connects cbs"
| "connects (_ # cbs) = connects cbs"

lemma connects_append [simp]: "connects (a @ b) = connects a @ connects b"
  by (induction a rule: connects.induct) simp_all

abbreviation connect_reports :: "NetConnectionImpl \<Rightarrow> int list" where
  "connect_reports c \<equiv> connects (callbacks c)"

definition layer_inv :: "NetConnectionRequest \<Rightarrow> NetConnectionImpl \<Rightarrow> layer list \<Rightarrow> bool" where
  "layer_inv req c ls \<longleftrightarrow> request c = req \<and> handshaking c + receiving (pending c) \<le> 1 \<and>
    (handshaking c = 1 \<longrightarrow> connect_reports c = []) \<and> length (connect_reports c) \<le> 1 \<and>
    (0 \<in> set (connect_reports c) \<longrightarrow> ls = required_layers req) \<and>
    (dns_tasks c = 1 \<or> dns_resolver c \<noteq> None \<or> connecting (pending c) = 1 \<longrightarrow> ls = []) \<and>
    (\<forall>s. socks5_client c = Some s \<longrightarrow> ls = [Tcp] \<and> proxy_host req \<noteq> [] \<and> handshakes s = []) \<and>
    (tls_handshaking (pending c) = 1 \<longrightarrow> ls = transport_layers req \<and> uses_tls req) \<and>
    (ws_handshaking (pending c) = 1 \<longrightarrow> ls = transport_layers req @ (if uses_tls req then [Tls] else []) \<and> uses_ws req)"

lemma layer_inv_start: "layer_inv req (Connect (NetConnectionImpl_new req)) []"
  by (simp add: layer_inv_def handshaking_def Connect_def NetConnectionImpl_new_def no_pending_def PostRunable_def)

text \<open>Steps that start no handshake.\<close>

lemma layer_inv_weaken:
  assumes "layer_inv req c ls" "request d = request c" "connect_reports d = connect_reports c"
    and "receiving (pending d) \<le> receiving (pending c)" "connecting (pending d) = connecting (pending c)"
    and "tls_handshaking (pending d) = tls_handshaking (pending c)" "ws_handshaking (pending d) = ws_handshaking (pending c)"
    and "dns_tasks d = dns_tasks c" "dns_resolver d = dns_resolver c \<or> dns_resolver d = None"
    and "socks5_client d = socks5_client c \<or> socks5_client d = None"
  shows "layer_inv req d ls"
  using assms unfolding layer_inv_def handshaking_def
  by (elim conjE disjE) (auto split: if_splits)

text \<open>A connection whose last handshake has just ended.\<close>

definition between :: "NetConnectionRequest \<Rightarrow> NetConnectionImpl \<Rightarrow> bool" where
  "between req c \<longleftrightarrow> request c = req \<and> handshaking c = 0 \<and> receiving (pending c) = 0 \<and> connect_reports c = []"

lemma between_failed:
  assumes "between req c" "ec \<noteq> 0"
  shows "layer_inv req (HandleConnectStatus ec (HandleCleanUp c)) ls" "layer_inv req (HandleCleanUp (HandleConnectStatus ec c)) ls"
  using assms by (auto simp: between_def layer_inv_def handshaking_def HandleConnectStatus_def split: if_splits)

lemma between_connected:
  assumes "between req c"
  shows "layer_inv req (StartRecvDate (HandleConnectStatus 0 c)) (required_layers req)"
  using assms by (auto simp: between_def layer_inv_def handshaking_def conn_ops split: if_splits)

lemma between_tls:
  assumes "between req c" "uses_tls req"
  shows "layer_inv req (DoTlsHandshake c) (transport_layers req)"
  using assms by (auto simp: between_def layer_inv_def handshaking_def conn_ops split: if_splits)

lemma between_ws:
  assumes "between req c" "uses_ws req"
  shows "layer_inv req (DoWebsocketHandshake c) (transport_layers req @ (if uses_tls req then [Tls] else []))"
  using assms by (auto simp: between_def layer_inv_def handshaking_def conn_ops split: if_splits)

lemma between_other:
  assumes "between req c"
  shows "layer_inv req (DoOtherHandshake 0 c) (transport_layers req)"
proof -
  have "request c = req"
    using assms by (simp add: between_def)
  then show ?thesis
    using between_tls [OF assms] between_ws [OF assms] between_connected [OF assms]
    by (cases "net_type req") (simp_all add: DoOtherHandshake_def uses_tls_def uses_ws_def required_layers_def)
qed

lemma between_tls_done:
  assumes "between req c" "uses_tls req"
  shows "layer_inv req (NotifyTlsHandshakeComplete ec c) (transport_layers req @ layer_done Tls ec)"
proof -
  have "request c = req"
    using assms by (simp add: between_def)
  then show ?thesis
    using between_ws [OF assms(1)] between_connected [OF assms(1)] between_failed [OF assms(1)] assms(2)
    by (cases "net_type req")
      (simp_all add: NotifyTlsHandshakeComplete_def uses_tls_def uses_ws_def required_layers_def layer_done_def)
qed

lemma between_ws_done:
  assumes "between req c" "uses_ws req"
  shows "layer_inv req (NotifyWebsocketHandshakeComplte ec c)
    (transport_layers req @ (if uses_tls req then [Tls] else []) @ layer_done Ws ec)"
  using between_connected [OF assms(1)] between_failed [OF assms(1)] assms(2)
  by (simp add: NotifyWebsocketHandshakeComplte_def required_layers_def layer_done_def Let_def)

lemma between_tcp_done:
  assumes "between req c"
  shows "layer_inv req (NotifyConnectComplete v4 v6 ec c) (layer_done Tcp ec)"
proof -
  have "layer_inv req (c\<lparr>socks5_client := Some (Socks5.Connect v4 v6 (Socks5ClientImpl_new (proxy_property req)))\<rparr>) [Tcp]"
    if "proxy_host req \<noteq> []"
    using assms that
    by (auto simp: between_def layer_inv_def handshaking_def Socks5.Connect_def Socks5ClientImpl_new_def Loop_Init
        DoSendHello_eq split: if_splits)
  then show ?thesis
    using assms between_other [OF assms] between_failed [OF assms]
    by (auto simp: NotifyConnectComplete_def layer_done_def transport_layers_def between_def)
qed

lemma between_socks_done:
  assumes "between req (c\<lparr>socks5_client := None\<rparr>)" "proxy_host req \<noteq> []"
  shows "layer_inv req (OnSocks5Handshake r c) ([Tcp] @ layer_done Socks r)"
proof (cases "r = 0")
  case True
  have "layer_inv req (DoOtherHandshake 0 (c\<lparr>socks5_client := None\<rparr>)) (transport_layers req)"
    by (rule between_other [OF assms(1)])
  then have "layer_inv req ((DoOtherHandshake 0 c)\<lparr>socks5_client := None\<rparr>) (transport_layers req)"
    by (rule layer_inv_weaken) (simp_all add: DoOtherHandshake_def conn_ops split: NetType.split)
  then show ?thesis
    using True assms(2) by (simp add: OnSocks5Handshake_def layer_done_def transport_layers_def)
next
  case False
  have "layer_inv req (HandleConnectStatus r (HandleCleanUp (c\<lparr>socks5_client := None\<rparr>))) [Tcp]"
    by (rule between_failed [OF assms(1) False])
  then have "layer_inv req ((HandleConnectStatus r (HandleCleanUp c))\<lparr>socks5_client := None\<rparr>) [Tcp]"
    by (rule layer_inv_weaken) (simp_all add: HandleConnectStatus_def)
  then show ?thesis
    using False by (simp add: OnSocks5Handshake_def layer_done_def)
qed

lemma socks5_one_report:
  assumes "handshakes s = []"
  shows "handshakes (read_handler v4 v6 x s) = [] \<or> handshakes (read_handler v4 v6 x s) = [0] \<or>
    handshakes (read_handler v4 v6 x s) = [-1]"
  using assms
  by (cases x; cases "socks5_status s")
    (auto simp: read_handler_def Loop_simps HandleHello.simps HandleSocks5Auth.simps HandleConnectBussinessServer_def
      DoSendHello_eq DoSocks5Auth_eq DoConnectMyServer_eq socks5_effects Let_def)

lemma layer_inv_socks5_event:
  assumes "layer_inv req c ls" "socks5_client c = Some s" "handshakes (f s) = [] \<or> handshakes (f s) = [0] \<or> handshakes (f s) = [-1]"
  shows "layer_inv req (socks5_event f c) (ls @ (if 0 \<in> set (handshakes (f s)) then [Socks] else []))"
proof -
  have s: "handshakes s = []" "ls = [Tcp]" "proxy_host req \<noteq> []"
    using assms(1,2) by (simp_all add: layer_inv_def)
  have b: "between req (c\<lparr>socks5_client := None\<rparr>)"
    using assms(1,2) by (auto simp: between_def layer_inv_def handshaking_def split: if_splits)
  have "layer_inv req (c\<lparr>socks5_client := Some (f s)\<rparr>) ls" if "handshakes (f s) = []"
    using assms(1,2) that by (auto simp: layer_inv_def handshaking_def split: if_splits)
  moreover have "layer_inv req (OnSocks5Handshake r (c\<lparr>socks5_client := Some (f s)\<rparr>)) ([Tcp] @ layer_done Socks r)" for r
    using b s(3) by (intro between_socks_done) simp_all
  note this [of 0] this [of "-1"]
  ultimately show ?thesis
    using assms(2,3) s by (elim disjE) (simp_all add: socks5_event_def layer_done_def)
qed

lemma layer_inv_handshakes: "layer_inv req c ls \<Longrightarrow> socks5_client c = Some s \<Longrightarrow> handshakes s = []"
  by (simp add: layer_inv_def)

lemma between_dec:
  assumes "layer_inv req c ls"
  shows "0 < connecting (pending c) \<Longrightarrow> between req (upd_pending (\<lambda>p. p\<lparr>connecting := connecting p - 1\<rparr>) c) \<and> ls = []"
    and "0 < tls_handshaking (pending c) \<Longrightarrow>
      between req (upd_pending (\<lambda>p. p\<lparr>tls_handshaking := tls_handshaking p - 1\<rparr>) c) \<and> ls = transport_layers req \<and> uses_tls req"
    and "0 < ws_handshaking (pending c) \<Longrightarrow>
      between req (upd_pending (\<lambda>p. p\<lparr>ws_handshaking := ws_handshaking p - 1\<rparr>) c) \<and>
      ls = transport_layers req @ (if uses_tls req then [Tls] else []) \<and> uses_ws req"
  using assms by (auto simp: between_def layer_inv_def handshaking_def split: if_splits)

lemma layer_inv_NotifyResult:
  assumes "layer_inv req c ls"
  shows "layer_inv req (NotifyResult ec c) ls"
proof (cases "dns_resolver c")
  case (Some d)
  then have b: "between req ((dns_Cancel c)\<lparr>dns_resolver := None\<rparr>)" "ls = []"
    using assms by (auto simp: between_def layer_inv_def handshaking_def split: if_splits)
  then have "layer_inv req (DoConnect ((dns_Cancel c)\<lparr>dns_resolver := None\<rparr>)) ls"
    by (auto simp: between_def layer_inv_def handshaking_def DoConnect_def split: if_splits)
  then show ?thesis
    using Some assms between_failed(2) [OF b(1)] by (simp add: NotifyResult_def OnDnsResolvered_def Let_def)
qed (use assms in \<open>simp add: NotifyResult_def\<close>)

lemma layer_inv_run_task:
  assumes "layer_inv req c ls" "tasks c = t # ts"
  shows "layer_inv req (run_task t (c\<lparr>tasks := ts\<rparr>)) ls"
proof (cases "t = Task_DoDnsResolve")
  case True
  then show ?thesis
    using assms by (auto simp: layer_inv_def handshaking_def DoDnsResolve_def Let_def split: if_splits)
next
  case False
  then show ?thesis
    using assms by (intro layer_inv_weaken [OF assms(1)]) (cases t; simp add: conn_ops Let_def)+
qed

lemma layer_inv_step:
  "conn_step v4 v6 x y \<Longrightarrow> layer_inv req (fst x) (snd (snd x)) \<Longrightarrow> layer_inv req (fst y) (snd (snd y))"
proof (induction rule: conn_step.induct)
  case (send c q ls b)
  then show ?case
    by (auto simp: Send_def intro: layer_inv_weaken)
next
  case (disconnect c q ls)
  then show ?case
    by (auto simp: DisConnect_def intro: layer_inv_weaken)
next
  case (run c t ts q ls)
  then show ?case
    by (simp add: layer_inv_run_task)
next
  case (resolved c q ls ec)
  then have "layer_inv req (upd_pending (\<lambda>p. p\<lparr>resolving := resolving p - 1\<rparr>) c) ls"
    by (auto intro: layer_inv_weaken)
  then show ?case
    by (simp add: layer_inv_NotifyResult)
next
  case (connected c q ls ec)
  then show ?case
    using between_dec(1) [of req c ls] between_tcp_done by simp
next
  case (socks_read c s dat q ls)
  then show ?case
    using layer_inv_socks5_event [of req c ls s] socks5_one_report [of s v4 v6 "Some dat"]
      layer_inv_handshakes [of req c ls s] by simp
next
  case (socks_read_error c s q ls)
  moreover have "handshakes (read_handler v4 v6 None s) = handshakes s @ [-1]"
    by (simp add: read_handler_def Socks5.OnSocks5Handshake_def)
  ultimately show ?case
    using layer_inv_socks5_event [of req c ls s "read_handler v4 v6 None"] layer_inv_handshakes [of req c ls s] by simp
next
  case (socks_write_error c s q ls)
  moreover have "handshakes (write_failed s) = handshakes s @ [-1]"
    by (simp add: write_failed_def Socks5.OnSocks5Handshake_def)
  ultimately show ?case
    using layer_inv_socks5_event [of req c ls s write_failed] layer_inv_handshakes [of req c ls s] by simp
next
  case (tls c q ls ec)
  then show ?case
    using between_dec(2) [of req c ls] between_tls_done by simp
next
  case (websocket c q ls ec)
  then show ?case
    using between_dec(3) [of req c ls] between_ws_done by simp
next
  case (sent c q ls ec)
  then show ?case
    by (auto simp: conn_ops Let_def intro!: layer_inv_weaken [of req c] split: if_splits)
next
  case (received c q ls r)
  then show ?case
    by (auto simp: conn_ops intro!: layer_inv_weaken [of req c] split: sum.split if_splits)
qed

lemma layer_inv_run: "conn_run v4 v6 req x \<Longrightarrow> layer_inv req (fst x) (snd (snd x))"
proof (induction rule: conn_run.induct)
  case start
  then show ?case
    by (simp add: layer_inv_start)
qed (rule layer_inv_step)

text \<open>C7.  The outcome of connecting is reported at most once, and success only when every layer the
  request asks for has been set up, in the right order: the transport connection, the handshake with
  the SOCKS5 proxy if there is one, the TLS handshake and the WebSocket handshake.\<close>

theorem connect_report_complete:
  assumes "conn_run v4 v6 req (c, q, ls)"
  shows "length (connects (callbacks c)) \<le> 1 \<and> (0 \<in> set (connects (callbacks c)) \<longrightarrow> ls = required_layers req)"
  using layer_inv_run [OF assms] by (simp add: layer_inv_def)

section \<open>An example run\<close>

definition plain_request :: NetConnectionRequest where
  "plain_request = \<lparr>host = [104], net_port = 80, net_type = kNetTypeTcp, path = [47], proxy_host = [], proxy_port = 0,
    proxy_username = [], proxy_passwd = []\<rparr>"

text \<open>A plain connection after its tasks \<open>ts\<close> are left, with \<open>n\<close> reads and \<open>w\<close> writes in progress.\<close>

abbreviation plain_conn ::
  "task list \<Rightarrow> DnsResolverImpl option \<Rightarrow> pending \<Rightarrow> bytes list \<Rightarrow> bytes list \<Rightarrow> callback list \<Rightarrow> bool \<Rightarrow> NetConnectionImpl" where
  "plain_conn ts d p sb wr cbs cl \<equiv>
    \<lparr>request = plain_request, delegate = True, send_buffers = sb, dns_resolver = d, stoped = False,
     already_clean_up = cl, socks5_client = None, pending = p, closed = cl, written = wr, callbacks = cbs, tasks = ts\<rparr>"

abbreviation plain_resolver :: DnsResolverImpl where
  "plain_resolver \<equiv> \<lparr>dns_host = [104], dns_schem = 80, dns_delegate = True, dns_stoped = False\<rparr>"

lemma plain_start: "conn_run v4 v6 plain_request (plain_conn [Task_DoDnsResolve] None no_pending [] [] [] False, [], [])"
  using conn_run.start [of v4 v6 plain_request] by (simp add: Connect_def NetConnectionImpl_new_def PostRunable_def)

lemma plain_resolving:
  "conn_run v4 v6 plain_request (plain_conn [] (Some plain_resolver) (no_pending\<lparr>resolving := 1\<rparr>) [] [] [] False, [], [])"
proof -
  have "conn_run v4 v6 plain_request (plain_conn [Task_DoResolver] (Some plain_resolver) no_pending [] [] [] False, [], [])"
    using conn_run.step [OF plain_start conn_step.run]
    by (simp add: DoDnsResolve_def CreateDnsResolver_def dns_Resolver_def PostRunable_def plain_request_def)
  from conn_run.step [OF this conn_step.run] show ?thesis
    by (simp add: upd_pending_def no_pending_def)
qed

lemma plain_established:
  "conn_run v4 v6 plain_request (plain_conn [Task_DoCancel] None (no_pending\<lparr>receiving := 1\<rparr>) [] [] [OnConnect 0] False, [], [Tcp])"
proof -
  have "conn_run v4 v6 plain_request (plain_conn [Task_DoCancel] None (no_pending\<lparr>connecting := 1\<rparr>) [] [] [] False, [], [])"
    using conn_run.step [OF plain_resolving conn_step.resolved [where ec = 0]]
    by (simp add: NotifyResult_def OnDnsResolvered_def dns_Cancel_def DoConnect_def PostRunable_def upd_pending_def no_pending_def)
  from conn_run.step [OF this conn_step.connected [where ec = 0]] show ?thesis
    by (simp add: NotifyConnectComplete_def DoOtherHandshake_def StartRecvDate_def HandleConnectStatus_def notify_def
        DoRecvData_def upd_pending_def no_pending_def layer_done_def plain_request_def)
qed

lemma plain_writing:
  "conn_run v4 v6 plain_request
    (plain_conn [] None (no_pending\<lparr>receiving := 1, writing := 1\<rparr>) [[1]] [[1]] [OnConnect 0] False, [[1]], [Tcp])"
proof -
  have "conn_run v4 v6 plain_request
      (plain_conn [Task_DoCancel, Task_DoSendFromQueue [1]] None (no_pending\<lparr>receiving := 1\<rparr>) [] [] [OnConnect 0] False, [[1]], [Tcp])"
    using conn_run.step [OF plain_established conn_step.send [where b = "[1]"]] by (simp add: Send_def PostRunable_def)
  from conn_run.step [OF this conn_step.run] have "conn_run v4 v6 plain_request
      (plain_conn [Task_DoSendFromQueue [1]] None (no_pending\<lparr>receiving := 1\<rparr>) [] [] [OnConnect 0] False, [[1]], [Tcp])"
    by simp
  from conn_run.step [OF this conn_step.run] show ?thesis
    by (simp add: DoSendFromQueue_def DoSendData_def upd_pending_def no_pending_def)
qed

text \<open>The end of a connection may be reported twice.  When a write fails, the delegate gets
  \<open>OnDisconnect\<close> and the socket is closed; the read that was in progress then fails as well,
  and reports \<open>OnDisconnect\<close> once more.\<close>

lemma disconnect_reported_twice:
  "\<exists>c q ls. conn_run v4 v6 plain_request (c, q, ls) \<and> callbacks c = [OnConnect 0, OnDisconnect 32, OnDisconnect 125]"
proof -
  have "conn_run v4 v6 plain_request
      (plain_conn [] None (no_pending\<lparr>receiving := 1\<rparr>) [[1]] [[1]] [OnConnect 0, OnDisconnect 32] True, [[1]], [Tcp])"
    using conn_run.step [OF plain_writing conn_step.sent [where ec = 32]]
    by (simp add: NotifySendComplete_def NotifyDisconnect_def notify_def HandleCleanUp_def DoCleanUp_def upd_pending_def
        no_pending_def)
  from conn_run.step [OF this conn_step.received [where r = "Inl 125"]]
  have "conn_run v4 v6 plain_request
      (plain_conn [] None no_pending [[1]] [[1]] [OnConnect 0, OnDisconnect 32, OnDisconnect 125] True, [[1]], [Tcp])"
    by (simp add: NotifyRecvData_def NotifyDisconnect_def notify_def HandleCleanUp_def DoCleanUp_def upd_pending_def
        no_pending_def)
  then show ?thesis
    by (intro exI conjI) (assumption, simp)
qed

theorem conn_writes_in_order_witness:
  "\<exists>rest. [[1 :: u8]] = written (plain_conn [] None (no_pending\<lparr>receiving := 1, writing := 1\<rparr>) [[1]] [[1]] [OnConnect 0] False) @ rest"
  using conn_writes_in_order [OF plain_writing] by blast

theorem connect_report_complete_witness: "[Tcp] = required_layers plain_request"
  using connect_report_complete [OF plain_established] by simp

theorem disconnect_silent_witness:
  "callbacks (Send [1] (DisConnect (plain_conn [] None no_pending [] [] [OnConnect 0] False))) = [OnConnect 0]"
proof -
  let ?c = "plain_conn [] None no_pending [] [] [OnConnect 0] False"
  have "conn_step Map.empty Map.empty (DisConnect ?c, [], []) (Send [1] (DisConnect ?c), [], [])"
    using conn_step.send [of Map.empty Map.empty "DisConnect ?c" "[]" "[]" "[1]"] by (simp add: DisConnect_def)
  then have "(conn_step Map.empty Map.empty)\<^sup>*\<^sup>* (DisConnect ?c, [], []) (Send [1] (DisConnect ?c), [], [])"
    by (rule r_into_rtranclp)
  from disconnect_silent [OF _ this] show ?thesis
    by simp
qed

end
