(* ===== verification/HttpUrlSpec.thy ===== *)
theory HttpUrlSpec
  imports HttpSafe
begin

text \<open>
  The URL parser: it stays inside the URL, the fields it reports are non-empty ranges of the
  URL, and it takes apart what a URL is composed of.
\<close>

section \<open>Fields\<close>

lemma UF_bit_and: "UF_bit g AND UF_bit f \<noteq> 0 \<longleftrightarrow> g = f"
  by (cases g; cases f; simp add: UF_bit_def)

lemma and_or_nonzero: "(a OR b) AND c \<noteq> 0 \<longleftrightarrow> a AND c \<noteq> 0 \<or> b AND c \<noteq> (0 :: 'a::len word)"
  by (metis bit.conj_disj_distrib2 or_eq_0_iff)

lemma has_field_set_field [simp]: "has_field f (set_field g u) \<longleftrightarrow> g = f \<or> has_field f u"
  by (simp add: has_field_def set_field_def and_or_nonzero UF_bit_and disj_commute)

lemma field_simps_url [simp]:
  "has_field f (put_off g v u) = has_field f u"
  "has_field f (put_len g v u) = has_field f u"
  "has_field f (inc_len g u) = has_field f u"
  "field_off (put_off g v u) = (field_off u)(g := v)" "field_len (put_off g v u) = field_len u"
  "field_off (put_len g v u) = field_off u" "field_len (put_len g v u) = (field_len u)(g := v)"
  "field_off (inc_len g u) = field_off u" "field_len (inc_len g u) = (field_len u)(g := field_len u g + 1)"
  "field_off (set_field g u) = field_off u" "field_len (set_field g u) = field_len u"
  by (simp_all add: has_field_def put_off_def put_len_def inc_len_def set_field_def)

abbreviation f_off :: "http_parser_url \<Rightarrow> http_parser_url_fields \<Rightarrow> nat" where
  "f_off u f \<equiv> unat (field_off u f)"

abbreviation f_len :: "http_parser_url \<Rightarrow> http_parser_url_fields \<Rightarrow> nat" where
  "f_len u f \<equiv> unat (field_len u f)"

lemma unat_of_nat_16: "n < 65536 \<Longrightarrow> unat (of_nat n :: u16) = n"
  by (simp add: unat_of_nat take_bit_nat_eq_self)

lemma unat_Suc_16: "unat (w :: u16) < 65535 \<Longrightarrow> unat (w + 1) = Suc (unat w)"
  by (simp add: unat_word_ariths)

text \<open>Every field is a non-empty range before offset \<open>p\<close>.\<close>

definition url_inv :: "nat \<Rightarrow> http_parser_url \<Rightarrow> bool" where
  "url_inv p u \<longleftrightarrow> (\<forall>f. has_field f u \<longrightarrow> 0 < f_len u f \<and> f_off u f + f_len u f \<le> p)"

lemma url_inv_mono: "url_inv p u \<Longrightarrow> p \<le> q \<Longrightarrow> url_inv q u"
  by (force simp: url_inv_def)

lemma url_step_of_url_states: "s \<in> url_states \<Longrightarrow> url_step_of s \<noteq> U_dead \<and> url_step_of s \<noteq> U_unexpected"
  by (auto simp: url_states_def url_step_of_def)

lemma url_step_parse_url_char: "url_step_of (parse_url_char s c) \<noteq> U_unexpected"
  using parse_url_char_url_states [of s c] url_step_of_url_states by (auto simp: url_step_of_def)

text \<open>The invariant of the loop of \<open>http_parser_parse_url\<close>: besides \<open>url_inv\<close>, the
  host field runs to the current offset or to the \<open>/\<close> or \<open>?\<close> behind it.\<close>

definition server_states :: "state set" where
  "server_states = {s_req_server, s_req_server_with_at}"

definition before_server :: "state set" where
  "before_server = {s_req_spaces_before_url, s_req_schema, s_req_schema_slash, s_req_schema_slash_slash,
     s_req_server_start}"

definition behind_server :: "state set" where
  "behind_server = {s_req_path, s_req_query_string_start, s_req_query_string, s_req_fragment_start, s_req_fragment}"

definition host_closed :: "string \<Rightarrow> nat \<Rightarrow> http_parser_url \<Rightarrow> bool" where
  "host_closed mem p u \<longleftrightarrow> f_off u UF_HOST + f_len u UF_HOST < p \<and>
     mem ! (f_off u UF_HOST + f_len u UF_HOST) \<in> {CHR ''/'', CHR ''?''}"

definition url_loop_inv :: "string \<Rightarrow> nat \<Rightarrow> state \<Rightarrow> http_parser_url_fields option \<Rightarrow> http_parser_url \<Rightarrow> bool" where
  "url_loop_inv mem p s old u \<longleftrightarrow>
     url_inv p u \<and> \<not> has_field UF_PORT u \<and> \<not> has_field UF_USERINFO u \<and>
     (\<forall>uf. old = Some uf \<longrightarrow> has_field uf u) \<and>
     s \<in> before_server \<union> server_states \<union> behind_server \<and>
     (s \<in> server_states \<longrightarrow> old = Some UF_HOST \<and> f_off u UF_HOST + f_len u UF_HOST = p) \<and>
     (s \<in> before_server \<longrightarrow> \<not> has_field UF_HOST u) \<and>
     (s \<in> behind_server \<longrightarrow> has_field UF_HOST u \<longrightarrow> host_closed mem p u)"

lemma parse_url_char_before:
  "s \<in> before_server \<Longrightarrow>
   parse_url_char s c \<in> {s_dead, s_req_schema, s_req_schema_slash, s_req_schema_slash_slash, s_req_server_start,
     s_req_server, s_req_server_with_at, s_req_path, s_req_query_string_start}"
  unfolding before_server_def
  by (elim insertE emptyE; simp add: parse_url_char_def url_server_char_def)

lemma parse_url_char_server:
  "s \<in> server_states \<Longrightarrow>
   parse_url_char s c \<in> insert s_dead server_states \<or>
   parse_url_char s c \<in> {s_req_path, s_req_query_string_start} \<and> c \<in> {CHR ''/'', CHR ''?''}"
  unfolding server_states_def
  by (elim insertE emptyE; simp add: parse_url_char_def url_server_char_def)

lemma parse_url_char_behind:
  "s \<in> behind_server \<Longrightarrow> parse_url_char s c \<in> insert s_dead behind_server"
  unfolding behind_server_def
  by (elim insertE emptyE; simp add: parse_url_char_def)

lemma url_step_field:
  assumes "url_step_of s = U_field uf"
  shows "uf \<noteq> UF_PORT" "uf \<noteq> UF_USERINFO" "uf = UF_HOST \<longleftrightarrow> s \<in> server_states"
  using assms by (cases s; auto simp: url_step_of_def server_states_def)+

lemma url_step_server: "s \<in> server_states \<Longrightarrow> url_step_of s = U_field UF_HOST"
  by (auto simp: server_states_def url_step_of_def)

lemma state_groups_disjoint:
  "s \<in> server_states \<Longrightarrow> s \<notin> before_server" "s \<in> server_states \<Longrightarrow> s \<notin> behind_server"
  "s \<in> behind_server \<Longrightarrow> s \<notin> before_server"
  by (auto simp: server_states_def before_server_def behind_server_def)

lemma url_inv_inc_len:
  assumes "url_inv p u" "has_field uf u" "p < 65535"
  shows "url_inv (Suc p) (inc_len uf u)"
  unfolding url_inv_def
proof (intro allI impI)
  fix f assume f: "has_field f (inc_len uf u)"
  have "f_len u uf < 65535"
    using assms by (auto simp: url_inv_def)
  then show "0 < f_len (inc_len uf u) f \<and> f_off (inc_len uf u) f + f_len (inc_len uf u) f \<le> Suc p"
    using assms(1,2) f unat_Suc_16 [of "field_len u uf"] by (cases "f = uf") (auto simp: url_inv_def le_SucI)
qed

lemma url_inv_new_field:
  assumes "url_inv p u" "p < 65535"
  shows "url_inv (Suc p) (set_field uf (put_len uf 1 (put_off uf (of_nat p) u)))"
  using assms by (auto simp: url_inv_def unat_of_nat_16 le_SucI)

text \<open>One round of the loop, when the new state selects a field and when it does not.\<close>

lemma url_loop_inv_skip:
  assumes "url_loop_inv mem p s old u" "url_step_of (parse_url_char s (mem ! p)) = U_skip"
  shows "url_loop_inv mem (Suc p) (parse_url_char s (mem ! p)) old u"
proof -
  let ?s = "parse_url_char s (mem ! p)"
  have ns: "?s \<notin> server_states" "?s \<noteq> s_dead"
    using assms(2) url_step_server by (auto simp: url_step_of_def)
  consider "s \<in> before_server" | "s \<in> server_states" | "s \<in> behind_server"
    using assms(1) by (auto simp: url_loop_inv_def)
  then show ?thesis
  proof cases
    case 1
    then have "?s \<in> before_server \<or> ?s \<in> behind_server" "\<not> has_field UF_HOST u"
      using parse_url_char_before [OF 1, of "mem ! p"] ns assms(1)
      by (auto simp: before_server_def behind_server_def server_states_def url_loop_inv_def)
    then show ?thesis
      using assms(1) ns state_groups_disjoint [of ?s]
      by (auto simp: url_loop_inv_def intro: url_inv_mono)
  next
    case 2
    then have "?s \<in> behind_server" "mem ! p \<in> {CHR ''/'', CHR ''?''}"
      using parse_url_char_server [OF 2, of "mem ! p"] ns by (auto simp: behind_server_def)
    then show ?thesis
      using assms(1) ns state_groups_disjoint [of ?s] 2
      by (auto simp: url_loop_inv_def host_closed_def intro: url_inv_mono)
  next
    case 3
    then have "?s \<in> behind_server"
      using parse_url_char_behind [OF 3, of "mem ! p"] ns by auto
    then show ?thesis
      using assms(1) ns state_groups_disjoint [of ?s] 3
      by (auto simp: url_loop_inv_def host_closed_def intro: url_inv_mono)
  qed
qed

text \<open>What the loop does to the fields in a state that selects \<open>uf\<close>.\<close>

definition url_field_step :: "http_parser_url_fields option \<Rightarrow> http_parser_url_fields \<Rightarrow> nat \<Rightarrow> http_parser_url \<Rightarrow> http_parser_url" where
  "url_field_step old uf p u =
    (if old = Some uf then inc_len uf u else set_field uf (put_len uf 1 (put_off uf (of_nat p) u)))"

lemma url_field_step_inv:
  assumes "url_inv p u" "\<forall>uf. old = Some uf \<longrightarrow> has_field uf u" "p < 65535"
  shows "url_inv (Suc p) (url_field_step old uf p u)" "has_field uf (url_field_step old uf p u)"
    "g \<noteq> uf \<Longrightarrow> has_field g (url_field_step old uf p u) = has_field g u"
    "g \<noteq> uf \<Longrightarrow> field_off (url_field_step old uf p u) g = field_off u g"
    "g \<noteq> uf \<Longrightarrow> field_len (url_field_step old uf p u) g = field_len u g"
  using assms url_inv_inc_len url_inv_new_field by (auto simp: url_field_step_def)

lemma url_field_step_host:
  assumes "url_inv p u" "p < 65535" "old = Some uf \<Longrightarrow> has_field uf u \<and> f_off u uf + f_len u uf = p"
  shows "f_off (url_field_step old uf p u) uf + f_len (url_field_step old uf p u) uf = Suc p"
  using assms unat_Suc_16 [of "field_len u uf"] by (auto simp: url_field_step_def unat_of_nat_16)

lemma url_loop_inv_field:
  assumes "url_loop_inv mem p s old u" "url_step_of (parse_url_char s (mem ! p)) = U_field uf" "p < 65535"
  shows "url_loop_inv mem (Suc p) (parse_url_char s (mem ! p)) (Some uf) (url_field_step old uf p u)"
proof -
  let ?s = "parse_url_char s (mem ! p)" and ?u = "url_field_step old uf p u"
  note uf = url_step_field [OF assms(2)]
  have live: "?s \<noteq> s_dead"
    using assms(2) by (auto simp: url_step_of_def)
  have inv: "url_inv p u" "\<forall>uf. old = Some uf \<longrightarrow> has_field uf u"
    using assms(1) by (auto simp: url_loop_inv_def)
  note step = url_field_step_inv [OF inv assms(3)]
  have ports: "\<not> has_field UF_PORT ?u" "\<not> has_field UF_USERINFO ?u"
    using step(3) [of UF_PORT uf] step(3) [of UF_USERINFO uf] uf assms(1) by (auto simp: url_loop_inv_def)
  have host_old: "has_field UF_HOST ?u = has_field UF_HOST u" "host_closed mem q ?u = host_closed mem q u" if "uf \<noteq> UF_HOST" for q
    using step(3-5) [of UF_HOST uf] that by (auto simp: host_closed_def)
  have closed_mono: "host_closed mem p u \<Longrightarrow> host_closed mem (Suc p) u"
    by (auto simp: host_closed_def)
  consider "s \<in> before_server" "\<not> has_field UF_HOST u" | "s \<in> server_states" | "s \<in> behind_server"
    using assms(1) by (auto simp: url_loop_inv_def)
  then show ?thesis
  proof cases
    case 1
    then have old: "old \<noteq> Some UF_HOST" "\<not> has_field UF_HOST u"
      using inv(2) by auto
    have groups: "?s \<in> before_server \<or> ?s \<in> server_states \<or> ?s \<in> behind_server"
      using parse_url_char_before [OF 1(1), of "mem ! p"] live
      by (auto simp: before_server_def behind_server_def server_states_def)
    show ?thesis
    proof (cases "uf = UF_HOST")
      case True
      with uf(3) have "?s \<in> server_states" by simp
      then show ?thesis
        using step(1,2) ports True url_field_step_host [OF inv(1) assms(3), of old UF_HOST] old state_groups_disjoint [of ?s]
        by (auto simp: url_loop_inv_def)
    next
      case False
      then show ?thesis
        using step(1,2) ports uf(3) host_old [OF False] old groups by (auto simp: url_loop_inv_def)
    qed
  next
    case 2
    have host: "old = Some UF_HOST" "f_off u UF_HOST + f_len u UF_HOST = p" "has_field UF_HOST u"
      using assms(1) 2 by (auto simp: url_loop_inv_def)
    show ?thesis
    proof (cases "uf = UF_HOST")
      case True
      with uf(3) have "?s \<in> server_states" by simp
      then show ?thesis
        using step(1,2) ports True url_field_step_host [OF inv(1) assms(3), of old UF_HOST] host state_groups_disjoint [of ?s]
        by (auto simp: url_loop_inv_def)
    next
      case False
      then have s: "?s \<in> behind_server" "mem ! p \<in> {CHR ''/'', CHR ''?''}"
        using parse_url_char_server [OF 2, of "mem ! p"] live uf(3) by (auto simp: behind_server_def)
      then have "host_closed mem (Suc p) u"
        using host by (simp add: host_closed_def)
      then show ?thesis
        using step(1,2) ports uf(3) host_old [OF False] s state_groups_disjoint [of ?s] False
        by (auto simp: url_loop_inv_def)
    qed
  next
    case 3
    then have s: "?s \<in> behind_server"
      using parse_url_char_behind [OF 3, of "mem ! p"] live by auto
    then have nh: "uf \<noteq> UF_HOST"
      using uf(3) state_groups_disjoint [of ?s] by auto
    then show ?thesis
      using step(1,2) ports uf(3) host_old [OF nh] s state_groups_disjoint [of ?s] assms(1) 3 closed_mono
      by (auto simp: url_loop_inv_def)
  qed
qed

lemma parse_url_loop_inv:
  assumes "p + n \<le> length mem" "p + n < 65536" "url_loop_inv mem p s old u"
  shows "parse_url_loop mem p n s old fa u = Inr None \<or>
    (\<exists>fa' s' old' u'. parse_url_loop mem p n s old fa u = Inr (Some (fa', u')) \<and>
       url_loop_inv mem (p + n) s' old' u')"
  using assms
proof (induction n arbitrary: p s old fa u)
  case (Suc n)
  let ?s = "parse_url_char s (mem ! p)"
  have p: "p < length mem" "Suc p + n \<le> length mem" "Suc p + n < 65536" "p < 65535"
    using Suc.prems(1,2) by auto
  show ?case
  proof (cases "url_step_of ?s")
    case U_skip
    with Suc.IH [OF p(2,3) url_loop_inv_skip [OF Suc.prems(3)]] p(1) show ?thesis
      by (simp add: Let_def)
  next
    case (U_field uf)
    with Suc.IH [OF p(2,3) url_loop_inv_field [OF Suc.prems(3) U_field p(4)]] p(1) show ?thesis
      by (cases "old = Some uf") (simp_all add: Let_def url_field_step_def)
  qed (use url_step_parse_url_char [of s "mem ! p"] p(1) in \<open>simp_all add: Let_def\<close>)
qed auto

section \<open>The host\<close>

definition host_start_states :: "http_host_state set" where
  "host_start_states = {s_http_userinfo_start, s_http_userinfo, s_http_host_start, s_http_host_v6_start}"

definition host_run_states :: "http_host_state set" where
  "host_run_states = {s_http_host, s_http_host_v6, s_http_host_v6_zone_start, s_http_host_v6_zone,
     s_http_host_v6_end, s_http_host_port_start, s_http_host_port}"

text \<open>The transitions of the host automaton.\<close>

definition host_edges :: "(http_host_state \<times> http_host_state) list" where
  "host_edges =
    [(s_http_userinfo_start, s_http_userinfo), (s_http_userinfo_start, s_http_host_start),
     (s_http_userinfo, s_http_userinfo), (s_http_userinfo, s_http_host_start),
     (s_http_host_start, s_http_host_v6_start), (s_http_host_start, s_http_host),
     (s_http_host, s_http_host), (s_http_host, s_http_host_port_start),
     (s_http_host_v6_start, s_http_host_v6), (s_http_host_v6, s_http_host_v6),
     (s_http_host_v6, s_http_host_v6_zone_start), (s_http_host_v6, s_http_host_v6_end),
     (s_http_host_v6_zone_start, s_http_host_v6_zone), (s_http_host_v6_zone, s_http_host_v6_zone),
     (s_http_host_v6_zone, s_http_host_v6_end), (s_http_host_v6_end, s_http_host_port_start),
     (s_http_host_port_start, s_http_host_port), (s_http_host_port, s_http_host_port)]"

lemma http_parse_host_char_edge:
  assumes "http_parse_host_char s c \<noteq> s_http_host_dead"
  shows "(s, http_parse_host_char s c) \<in> set host_edges \<and>
    (http_parse_host_char s c = s_http_host_port \<longrightarrow> IS_NUM c)"
  using assms
  by (cases s; simp add: http_parse_host_char_def host_v6_char_def host_zone_char_def host_edges_def split: if_splits)

definition digits_between :: "string \<Rightarrow> nat \<Rightarrow> nat \<Rightarrow> bool" where
  "digits_between mem a b \<longleftrightarrow> (\<forall>i. a \<le> i \<and> i < b \<longrightarrow> IS_NUM (mem ! i))"

lemma digits_between_Suc: "digits_between mem a p \<Longrightarrow> IS_NUM (mem ! p) \<Longrightarrow> digits_between mem a (Suc p)"
  by (auto simp: digits_between_def less_Suc_eq)

lemma digits_between_single: "IS_NUM (mem ! p) \<Longrightarrow> digits_between mem p (Suc p)"
  by (auto simp: digits_between_def less_Suc_eq)

text \<open>The invariant of the loop of \<open>http_parse_host\<close>, which started with the fields
  \<open>u0\<close>.\<close>

definition host_loop_inv :: "http_parser_url \<Rightarrow> string \<Rightarrow> nat \<Rightarrow> http_host_state \<Rightarrow> http_parser_url \<Rightarrow> bool" where
  "host_loop_inv u0 mem p s u \<longleftrightarrow>
     (\<forall>f. f \<notin> {UF_HOST, UF_PORT, UF_USERINFO} \<longrightarrow>
        has_field f u = has_field f u0 \<and> field_off u f = field_off u0 f \<and> field_len u f = field_len u0 f) \<and>
     has_field UF_HOST u \<and>
     (s \<in> host_start_states \<and> f_len u UF_HOST = 0 \<or>
      s \<in> host_run_states \<and> 0 < f_len u UF_HOST \<and> f_off u UF_HOST + f_len u UF_HOST \<le> p) \<and>
     (has_field UF_USERINFO u \<longrightarrow> 0 < f_len u UF_USERINFO \<and> f_off u UF_USERINFO + f_len u UF_USERINFO \<le> p) \<and>
     (s = s_http_userinfo \<longrightarrow> has_field UF_USERINFO u) \<and>
     (has_field UF_PORT u \<longleftrightarrow> s = s_http_host_port) \<and>
     (s = s_http_host_port \<longrightarrow> 0 < f_len u UF_PORT \<and> f_off u UF_PORT + f_len u UF_PORT = p \<and>
        digits_between mem (f_off u UF_PORT) p)"

lemma host_loop_inv_step:
  assumes "host_loop_inv u0 mem p s u" "http_parse_host_char s (mem ! p) \<noteq> s_http_host_dead" "p < 65535"
  shows "host_loop_inv u0 mem (Suc p) (http_parse_host_char s (mem ! p))
    (host_field_step s (http_parse_host_char s (mem ! p)) p u)"
proof -
  let ?s = "http_parse_host_char s (mem ! p)"
  have edge: "(s, ?s) \<in> set host_edges" and num: "?s = s_http_host_port \<longrightarrow> IS_NUM (mem ! p)"
    using http_parse_host_char_edge [OF assms(2)] by auto
  have inc: "unat (field_len u f + 1) = Suc (f_len u f)" if "f_len u f \<le> p" for f
    using that assms(3) by (intro unat_Suc_16) linarith
  note d = digits_between_Suc [of mem _ p] digits_between_single [of mem p]
  from edge assms(1,3) num inc d show ?thesis
    unfolding host_edges_def set_simps
    by (elim insertE emptyE; elim Pair_inject;
        auto simp: host_loop_inv_def host_field_step_def host_start_states_def host_run_states_def
          unat_of_nat_16 le_SucI)
qed

lemma http_parse_host_loop_inv:
  assumes "p + n \<le> length mem" "p + n < 65536" "host_loop_inv u0 mem p s u"
  shows "http_parse_host_loop mem p n s u = Inr None \<or>
    (\<exists>s' u'. http_parse_host_loop mem p n s u = Inr (Some (s', u')) \<and> host_loop_inv u0 mem (p + n) s' u')"
  using assms
proof (induction n arbitrary: p s u)
  case (Suc n)
  have p: "p < length mem" "Suc p + n \<le> length mem" "Suc p + n < 65536" "p < 65535"
    using Suc.prems(1,2) by auto
  show ?case
  proof (cases "http_parse_host_char s (mem ! p) = s_http_host_dead")
    case True
    then show ?thesis using p(1) by (simp add: Let_def)
  next
    case False
    with Suc.IH [OF p(2,3) host_loop_inv_step [OF Suc.prems(3) False p(4)]] p(1) show ?thesis
      by (simp add: Let_def)
  qed
qed simp

text \<open>What \<open>http_parse_host\<close> gives for a host that occupies the bytes before \<open>e\<close>.\<close>

definition host_post :: "string \<Rightarrow> nat \<Rightarrow> nat \<Rightarrow> http_parser_url \<Rightarrow> bool" where
  "host_post mem e n u \<longleftrightarrow> url_inv n u \<and>
     (has_field UF_PORT u \<longrightarrow> f_off u UF_PORT + f_len u UF_PORT = e \<and> digits_between mem (f_off u UF_PORT) e)"

lemma http_parse_host_post:
  assumes "url_inv n u" "has_field UF_HOST u" "\<not> has_field UF_PORT u" "\<not> has_field UF_USERINFO u"
    and "n \<le> length mem" "n < 65536"
  shows "http_parse_host mem u fa = Inr None \<or>
    (\<exists>u'. http_parse_host mem u fa = Inr (Some u') \<and> host_post mem (f_off u UF_HOST + f_len u UF_HOST) n u')"
proof -
  let ?off = "f_off u UF_HOST" and ?len = "f_len u UF_HOST"
  let ?s = "if fa then s_http_userinfo_start else s_http_host_start" and ?u = "put_len UF_HOST 0 u"
  have e: "?off + ?len \<le> n"
    using assms(1,2) by (auto simp: url_inv_def)
  have "host_loop_inv u mem ?off ?s ?u"
    using assms(2-4) by (auto simp: host_loop_inv_def host_start_states_def)
  from http_parse_host_loop_inv [OF _ _ this, of ?len] e assms(5,6)
  consider "http_parse_host_loop mem ?off ?len ?s ?u = Inr None"
    | s' u' where "http_parse_host_loop mem ?off ?len ?s ?u = Inr (Some (s', u'))"
        "host_loop_inv u mem (?off + ?len) s' u'"
    by fastforce
  then show ?thesis
  proof cases
    case 1
    then show ?thesis using assms(2) by (simp add: http_parse_host_def Let_def)
  next
    case 2
    show ?thesis
    proof (cases "host_end_ok s'")
      case True
      then have run: "s' \<in> host_run_states" "s' \<notin> host_start_states"
        using 2(2) by (auto simp: host_loop_inv_def host_end_ok_def host_start_states_def)
      have "0 < f_len u' f \<and> f_off u' f + f_len u' f \<le> n" if "has_field f u'" for f
        using 2(2) that e assms(1) run
        by (cases f) (auto simp: host_loop_inv_def url_inv_def)
      then have "host_post mem (?off + ?len) n u'"
        using 2(2) by (auto simp: host_post_def url_inv_def host_loop_inv_def)
      then show ?thesis
        using 2(1) True assms(2) by (auto simp: http_parse_host_def Let_def)
    next
      case False
      then show ?thesis using 2(1) assms(2) by (simp add: http_parse_host_def Let_def)
    qed
  qed
qed

section \<open>The port number\<close>

fun decimal :: "nat \<Rightarrow> string \<Rightarrow> nat" where
  "decimal acc [] = acc"
| "decimal acc (c # cs) = decimal (10 * acc + digit_value c) cs"

lemma strtoul_digits_decimal:
  "list_all IS_NUM ds \<Longrightarrow> \<not> IS_NUM c \<Longrightarrow> strtoul_digits acc (ds @ c # rest) = Some (decimal acc ds)"
  by (induction ds arbitrary: acc) auto

lemma strtoul10_decimal:
  assumes "ds \<noteq> []" "list_all IS_NUM ds" "\<not> IS_NUM c"
  shows "strtoul10 (ds @ c # rest) = Some (min (decimal 0 ds) ULONG_MAX)"
proof -
  obtain d ds' where ds: "ds = d # ds'"
    using assms(1) by (cases ds) auto
  then have d: "IS_NUM d"
    using assms(2) by simp
  then have "\<not> isspace d" "d \<noteq> CHR ''-''" "d \<noteq> CHR ''+''"
    using IS_NUM_cases [OF d] by (auto simp: isspace_def)
  then show ?thesis
    using strtoul_digits_decimal [OF assms(2,3), of 0 rest] ds by (simp add: strtoul10_def)
qed

lemma parse_url_port_value:
  assumes "url_inv n u" "has_field UF_PORT u" "digits_between mem (f_off u UF_PORT) e"
    and "f_off u UF_PORT + f_len u UF_PORT = e" "e < length mem" "\<not> IS_NUM (mem ! e)"
  defines "ds \<equiv> take (f_len u UF_PORT) (drop (f_off u UF_PORT) mem)"
  shows "parse_url_port mem u =
    (if decimal 0 ds > 65535 then Inr None else Inr (Some (u\<lparr>port := of_nat (decimal 0 ds)\<rparr>)))"
    and "list_all IS_NUM ds"
proof -
  let ?a = "f_off u UF_PORT"
  have len: "length ds = f_len u UF_PORT" "0 < f_len u UF_PORT"
    using assms(1,2,4,5) by (auto simp: ds_def url_inv_def)
  show num: "list_all IS_NUM ds"
    using assms(3,4,5) by (auto simp: list_all_length ds_def digits_between_def)
  have "drop ?a mem = ds @ drop (f_len u UF_PORT) (drop ?a mem)"
    unfolding ds_def by (rule append_take_drop_id [symmetric])
  also have "drop (f_len u UF_PORT) (drop ?a mem) = drop e mem"
    using assms(4) by (simp add: add.commute)
  also have "drop e mem = mem ! e # drop (Suc e) mem"
    using assms(5) by (simp add: Cons_nth_drop_Suc)
  finally have "drop ?a mem = ds @ mem ! e # drop (Suc e) mem" .
  moreover have "ds \<noteq> []"
    using len by auto
  ultimately have "strtoul10 (drop ?a mem) = Some (min (decimal 0 ds) ULONG_MAX)"
    using strtoul10_decimal [OF _ num assms(6)] by simp
  then show "parse_url_port mem u =
    (if decimal 0 ds > 65535 then Inr None else Inr (Some (u\<lparr>port := of_nat (decimal 0 ds)\<rparr>)))"
    using assms(2) by (auto simp: parse_url_port_def ULONG_MAX_def min_def)
qed

section \<open>The URL as a whole\<close>

text \<open>The characters of a field.\<close>

definition field_string :: "string \<Rightarrow> http_parser_url \<Rightarrow> http_parser_url_fields \<Rightarrow> string" where
  "field_string mem u f = take (unat (field_len u f)) (drop (unat (field_off u f)) mem)"

lemma url_inv_port_update [simp]: "url_inv n (u\<lparr>port := v\<rparr>) = url_inv n u"
  by (simp add: url_inv_def has_field_def)

lemma has_field_port_update [simp]: "has_field f (u\<lparr>port := v\<rparr>) = has_field f u"
  by (simp add: has_field_def)

definition url_result :: "string \<Rightarrow> nat \<Rightarrow> fault + http_parser_url option \<Rightarrow> bool" where
  "url_result mem n r \<longleftrightarrow>
    (case r of
       Inl _ \<Rightarrow> False
     | Inr None \<Rightarrow> True
     | Inr (Some v) \<Rightarrow> url_inv n v \<and>
         (if has_field UF_PORT v
          then list_all IS_NUM (field_string mem v UF_PORT) \<and>
            unat (port v) = decimal 0 (field_string mem v UF_PORT)
          else port v = 0))"

lemma parse_url_port_result:
  assumes "host_post mem e n u" "port u = 0" "e < length mem" "\<not> IS_NUM (mem ! e)"
  shows "url_result mem n (parse_url_port mem u)"
proof (cases "has_field UF_PORT u")
  case False
  then show ?thesis
    using assms(1,2) by (simp add: parse_url_port_def url_result_def host_post_def)
next
  case True
  then have "url_inv n u" "digits_between mem (f_off u UF_PORT) e" "f_off u UF_PORT + f_len u UF_PORT = e"
    using assms(1) by (auto simp: host_post_def)
  note v = parse_url_port_value [OF this(1) True this(2,3) assms(3,4)]
  show ?thesis
    using v True \<open>url_inv n u\<close> by (auto simp: url_result_def field_string_def unat_of_nat_16)
qed

lemma host_step_port: "port (host_field_step s s' p u) = port u"
  by (cases s') (simp_all add: host_field_step_def inc_len_def put_len_def put_off_def set_field_def)

lemma http_parse_host_loop_port: "http_parse_host_loop mem p n s u = Inr (Some (s', u')) \<Longrightarrow> port u' = port u"
  by (induction mem p n s u rule: http_parse_host_loop.induct)
    (auto simp: Let_def host_step_port split: if_splits)

lemma http_parse_host_port: "http_parse_host mem u fa = Inr (Some u') \<Longrightarrow> port u' = port u"
  by (auto simp: http_parse_host_def Let_def put_len_def dest!: http_parse_host_loop_port
      split: if_splits sum.splits option.splits)

lemma parse_url_loop_port: "parse_url_loop mem p n s old fa u = Inr (Some (fa', u')) \<Longrightarrow> port u' = port u"
  by (induction mem p n s old fa u rule: parse_url_loop.induct)
    (auto simp: Let_def inc_len_def put_len_def put_off_def set_field_def split: if_splits url_step.splits)

lemma url_end_char:
  assumes "url_loop_inv (url @ NUL # rest) (length url) s old v" "has_field UF_HOST v"
  shows "\<not> IS_NUM ((url @ NUL # rest) ! (f_off v UF_HOST + f_len v UF_HOST))"
proof -
  have "s \<in> server_states \<or> s \<in> behind_server"
    using assms by (auto simp: url_loop_inv_def)
  then show ?thesis
  proof
    assume "s \<in> server_states"
    then have "f_off v UF_HOST + f_len v UF_HOST = length url"
      using assms(1) by (simp add: url_loop_inv_def)
    then show ?thesis by (simp add: IS_NUM_def)
  next
    assume "s \<in> behind_server"
    then have "host_closed (url @ NUL # rest) (length url) v"
      using assms by (simp add: url_loop_inv_def)
    then show ?thesis by (auto simp: host_closed_def IS_NUM_def)
  qed
qed

lemma not_connect_fields: "\<not> has_field UF_HOST v \<Longrightarrow> field_set v \<noteq> UF_bit UF_HOST OR UF_bit UF_PORT"
  by (metis UF_bit_and and_or_nonzero has_field_def)

text \<open>The part of \<open>http_parser_parse_url\<close> behind its loop.\<close>

lemma parse_url_rest_result:
  assumes "url_loop_inv (url @ NUL # rest) (length url) s old v" "port v = 0" "length url < 65536"
    and "parse_url_loop (url @ NUL # rest) 0 (length url)
      (if is_connect then s_req_server_start else s_req_spaces_before_url) None False
      (u\<lparr>port := 0, field_set := 0\<rparr>) = Inr (Some (fa, v))"
  shows "url_result (url @ NUL # rest) (length url)
    (http_parser_parse_url (url @ NUL # rest) (length url) is_connect u)"
proof (cases "has_field UF_HOST v")
  case False
  have "url_inv (length url) v" "\<not> has_field UF_PORT v"
    using assms(1) by (simp_all add: url_loop_inv_def)
  moreover from this have "parse_url_port (url @ NUL # rest) v = Inr (Some v)"
    by (simp add: parse_url_port_def)
  ultimately show ?thesis
    using assms(2,4) False not_connect_fields [OF False]
    by (simp add: http_parser_parse_url_def url_result_def)
next
  case True
  let ?mem = "url @ NUL # rest" and ?e = "f_off v UF_HOST + f_len v UF_HOST"
  have v: "url_inv (length url) v" "\<not> has_field UF_PORT v" "\<not> has_field UF_USERINFO v"
    using assms(1) by (simp_all add: url_loop_inv_def)
  have e: "?e < length ?mem"
    using v(1) True by (auto simp: url_inv_def)
  from http_parse_host_post [OF v(1) True v(2,3), of ?mem fa] assms(3)
  have "http_parse_host ?mem v fa = Inr None \<or>
      (\<exists>u'. http_parse_host ?mem v fa = Inr (Some u') \<and> host_post ?mem ?e (length url) u')"
    by simp
  then show ?thesis
  proof (elim disjE exE conjE)
    assume "http_parse_host ?mem v fa = Inr None"
    then show ?thesis
      using assms(4) True by (simp add: http_parser_parse_url_def url_result_def)
  next
    fix u' assume u': "http_parse_host ?mem v fa = Inr (Some u')" "host_post ?mem ?e (length url) u'"
    have "port u' = 0"
      using http_parse_host_port [OF u'(1)] assms(2) by simp
    then have "url_result ?mem (length url) (parse_url_port ?mem u')"
      using parse_url_port_result [OF u'(2)] e url_end_char [OF assms(1) True] by simp
    moreover have "url_result ?mem (length url) (Inr None)"
      by (simp add: url_result_def)
    ultimately show ?thesis
      using assms(4) True u'(1) by (simp add: http_parser_parse_url_def)
  qed
qed

lemma parse_url_result:
  assumes "length url < 65536"
  shows "url_result (url @ NUL # rest) (length url) (http_parser_parse_url (url @ NUL # rest) (length url) is_connect u)"
proof -
  let ?mem = "url @ NUL # rest" and ?n = "length url"
  let ?u = "u\<lparr>port := 0, field_set := 0\<rparr>" and ?s = "if is_connect then s_req_server_start else s_req_spaces_before_url"
  have none: "\<not> has_field f ?u" for f
    by (simp add: has_field_def)
  have inv: "url_loop_inv ?mem 0 ?s None ?u"
    by (auto simp: url_loop_inv_def url_inv_def none before_server_def server_states_def behind_server_def)
  have "parse_url_loop ?mem 0 ?n ?s None False ?u = Inr None \<or>
    (\<exists>fa s' old' v. parse_url_loop ?mem 0 ?n ?s None False ?u = Inr (Some (fa, v)) \<and> url_loop_inv ?mem ?n s' old' v)"
    using parse_url_loop_inv [OF _ _ inv, of ?n False] assms by simp
  then show ?thesis
  proof (elim disjE exE conjE)
    assume "parse_url_loop ?mem 0 ?n ?s None False ?u = Inr None"
    then show ?thesis by (simp add: http_parser_parse_url_def url_result_def)
  next
    fix fa s' old' v
    assume v: "parse_url_loop ?mem 0 ?n ?s None False ?u = Inr (Some (fa, v))" "url_loop_inv ?mem ?n s' old' v"
    have "port v = 0"
      using parse_url_loop_port [OF v(1)] by simp
    with v assms show ?thesis
      by (intro parse_url_rest_result)
  qed
qed

text \<open>C17.  URL parsing is safe and its fields are right.  For a NUL-terminated URL shorter than 65536
  bytes, \<open>http_parser_parse_url\<close> fails no assertion and reads only the URL and its terminator;
  when it succeeds, every field it reports is a non-empty part of the URL, and the port is the
  number that the digits of the port field write, or 0 without that field.\<close>

theorem http_parser_parse_url_safe:
  assumes "length url < 65536"
  shows "url_result (url @ NUL # rest) (length url) (http_parser_parse_url (url @ NUL # rest) (length url) is_connect u)"
  using assms by (rule parse_url_result)

theorem http_parser_parse_url_safe_witness:
  "url_result (''http://a.b:8080/x?y#z'' @ NUL # []) (length ''http://a.b:8080/x?y#z'')
     (http_parser_parse_url (''http://a.b:8080/x?y#z'' @ NUL # []) (length ''http://a.b:8080/x?y#z'') False http_parser_url_init)"
  by (rule http_parser_parse_url_safe) simp

end
