(* ===== verification/HttpClient.thy ===== *)
theory HttpClient
  imports NetConnectionSpec HttpUrlSpec "HOL-Library.AList"
begin

text \<open>
  The HTTP client of \<open>src/base/net\<close>: the factories of \<open>net.cc\<close>, which turn a URL into the request of a
  connection with the parser of theory \<open>HttpUrl\<close>, and \<open>HttpConnectionBase\<close> of
  \<open>http/http_connection_base.h\<close>, which runs on a connection of theory \<open>NetConnection\<close> as its own delegate.
\<close>

section \<open>Factories\<close>

datatype HttpMethod = kHttpMethodGet | kHttpMethodPost | kHttpMethodPut

text \<open>The map of header lines is the list of its pairs in the order in which the code visits them.\<close>

record HttpClientRequest =
  url :: string
  http_method :: HttpMethod
  http_heads :: "(string \<times> string) list"
  http_proxy_host :: bytes
  http_proxy_port :: u16
  http_proxy_username :: bytes
  http_proxy_passwd :: bytes

text \<open>The classes of the connections the factories make.\<close>

datatype connection_class =
  TcpConnectionImpl | TcpTlsConnectionImpl | WebsocketConnectionImpl | WebsocketTlsConnectionImpl |
  HttpClientImpl | HttpsClientImpl

definition CreateTcpClient :: "NetConnectionRequest \<Rightarrow> (connection_class \<times> NetConnectionRequest) option" where
  "CreateTcpClient req =
    (let req = req\<lparr>net_type := kNetTypeTcp\<rparr>
     in case net_type req of
          kNetTypeTcp \<Rightarrow> Some (TcpConnectionImpl, req)
        | kNetTypeTcpTls \<Rightarrow> Some (TcpTlsConnectionImpl, req)
        | _ \<Rightarrow> None)"

definition CreateWebsocket :: "NetConnectionRequest \<Rightarrow> (connection_class \<times> NetConnectionRequest) option" where
  "CreateWebsocket req =
    (case net_type req of
       kNetTypeWebsocket \<Rightarrow> Some (WebsocketConnectionImpl, req)
     | kNetTypeWebsocketTls \<Rightarrow> Some (WebsocketTlsConnectionImpl, req)
     | _ \<Rightarrow> None)"

text \<open>\<open>std::string::substr\<close>, \<open>None\<close> for the exception \<open>std::out_of_range\<close>.\<close>

definition substr :: "string \<Rightarrow> nat \<Rightarrow> nat option \<Rightarrow> string option" where
  "substr s pos n =
    (if length s < pos then None
     else Some (case n of Some n \<Rightarrow> take n (drop pos s) | None \<Rightarrow> drop pos s))"

definition field_substr :: "string \<Rightarrow> http_parser_url \<Rightarrow> http_parser_url_fields \<Rightarrow> string option" where
  "field_substr s u f = substr s (unat (field_off u f)) (Some (unat (field_len u f)))"

datatype client_fault = Parser_fault fault | Substr_out_of_range | Verify_failed

text \<open>The part of \<open>CreateHttpClient\<close> after a successful parse; \<open>req\<close> is the new request of the connection.\<close>

definition url_request ::
  "string \<Rightarrow> http_parser_url \<Rightarrow> NetConnectionRequest \<Rightarrow> NetConnectionRequest option" where
  "url_request s u req =
    (case (field_substr s u UF_QUERY, field_substr s u UF_SCHEMA) of
       (Some query, Some scheme) \<Rightarrow>
         (let (nt, default_port) = (if scheme = ''https'' then (kNetTypeHttps, 443) else (kNetTypeHttp, 80));
              req = req\<lparr>net_type := nt, net_port := (if http_parser_url.port u = 0 then default_port else http_parser_url.port u)\<rparr>
          in case (field_substr s u UF_HOST, substr s (unat (field_off u UF_PATH)) None) of
               (Some h, Some p) \<Rightarrow>
                 Some (req\<lparr>host := map byte_of h, path := map byte_of (if p = [] then ''/'' else p)\<rparr>)
             | _ \<Rightarrow> None)
     | _ \<Rightarrow> None)"

text \<open>A new \<open>NetConnectionRequest\<close>: its ports are not initialised and keep what the memory held.\<close>

definition NetConnectionRequest_new :: "u16 \<times> u16 \<Rightarrow> NetConnectionRequest" where
  "NetConnectionRequest_new junk =
    \<lparr>host = [], net_port = fst junk, net_type = kNetTypeTcp, path = map byte_of ''/'', proxy_host = [],
     proxy_port = snd junk, proxy_username = [], proxy_passwd = []\<rparr>"

definition CreateHttpClient ::
  "bool \<Rightarrow> u16 \<times> u16 \<Rightarrow> HttpClientRequest \<Rightarrow> client_fault + connection_class \<times> NetConnectionRequest" where
  "CreateHttpClient ndebug junk r =
    (let req = NetConnectionRequest_new junk;
         parsed = (case http_parser_parse_url (url r @ [NUL]) (length (url r)) False http_parser_url_init of
             Inl f \<Rightarrow> Inl (Parser_fault f)
           | Inr None \<Rightarrow> if ndebug then Inr req else Inl Verify_failed
           | Inr (Some u) \<Rightarrow> (case url_request (url r) u req of None \<Rightarrow> Inl Substr_out_of_range | Some req \<Rightarrow> Inr req))
     in case parsed of
          Inl f \<Rightarrow> Inl f
        | Inr req \<Rightarrow>
            (let req = req\<lparr>proxy_host := http_proxy_host r, proxy_port := http_proxy_port r,
                           proxy_username := http_proxy_username r, proxy_passwd := http_proxy_passwd r\<rparr>
             in Inr (if net_type req = kNetTypeHttp then HttpClientImpl else HttpsClientImpl, req)))"

section \<open>The request for a URL\<close>

text \<open>Fields that are not in the URL keep the offset and the length 0.\<close>

definition url_absent :: "http_parser_url \<Rightarrow> bool" where
  "url_absent u \<longleftrightarrow> (\<forall>f. \<not> has_field f u \<and> f \<notin> {UF_PORT, UF_USERINFO} \<longrightarrow> field_off u f = 0 \<and> field_len u f = 0)"

lemma url_absent_step: "\<forall>uf. old = Some uf \<longrightarrow> has_field uf u \<Longrightarrow> url_absent u \<Longrightarrow> url_absent (url_field_step old uf p u)"
  by (auto simp: url_absent_def url_field_step_def)

lemma parse_url_loop_absent:
  "parse_url_loop mem p n s old fa u = Inr (Some (fa', v)) \<Longrightarrow> \<forall>uf. old = Some uf \<longrightarrow> has_field uf u \<Longrightarrow>
    url_absent u \<Longrightarrow> url_absent v"
proof (induction mem p n s old fa u rule: parse_url_loop.induct)
  case (2 mem p n s old fa u)
  let ?s = "parse_url_char s (mem ! p)"
  show ?case
  proof (cases "url_step_of ?s")
    case (U_field uf)
    have "url_absent (url_field_step old uf p u)" "has_field uf (url_field_step old uf p u)"
      using 2(4-6) url_absent_step by (auto simp: url_field_step_def)
    then show ?thesis
      using 2 U_field by (auto simp: Let_def url_field_step_def split: if_splits)
  qed (use 2 in \<open>auto simp: Let_def split: if_splits\<close>)
qed simp

lemma host_field_step_absent: "has_field UF_HOST u \<Longrightarrow> url_absent u \<Longrightarrow>
    has_field UF_HOST (host_field_step s s' p u) \<and> url_absent (host_field_step s s' p u)"
  by (cases s') (auto simp: host_field_step_def url_absent_def)

lemma http_parse_host_loop_absent:
  "http_parse_host_loop mem p n s u = Inr (Some (s', v)) \<Longrightarrow> has_field UF_HOST u \<Longrightarrow> url_absent u \<Longrightarrow> url_absent v"
  by (induction mem p n s u rule: http_parse_host_loop.induct)
    (auto simp: Let_def host_field_step_absent split: if_splits)

lemma http_parser_parse_url_absent:
  assumes "http_parser_parse_url mem n c http_parser_url_init = Inr (Some v)"
  shows "url_absent v"
proof -
  have "url_absent (http_parser_url_init\<lparr>http_parser_url.port := 0, field_set := 0\<rparr>)"
    by (simp add: url_absent_def http_parser_url_init_def)
  moreover have "url_absent (put_len UF_HOST 0 u)" if "url_absent u" for u
    using that by (auto simp: url_absent_def)
  moreover have "url_absent (u\<lparr>http_parser_url.port := x\<rparr>)" if "url_absent u" for u x
    using that by (simp add: url_absent_def)
  ultimately show ?thesis
    using assms
    by (auto simp: http_parser_parse_url_def http_parse_host_def parse_url_port_def Let_def
        dest!: parse_url_loop_absent http_parse_host_loop_absent split: sum.splits option.splits if_splits)
qed

text \<open>A part of the URL, empty when the URL does not have it.\<close>

definition url_part :: "string \<Rightarrow> http_parser_url \<Rightarrow> http_parser_url_fields \<Rightarrow> string" where
  "url_part s u f = (if has_field f u then take (f_len u f) (drop (f_off u f) s) else [])"

lemma field_substr_part:
  assumes "url_absent u" "url_inv (length s) u" "f \<notin> {UF_PORT, UF_USERINFO}"
  shows "field_substr s u f = Some (url_part s u f)" "f_off u f \<le> length s"
proof -
  show *: "f_off u f \<le> length s"
  proof (cases "has_field f u")
    case True
    then have "f_off u f + f_len u f \<le> length s"
      using assms(2) by (simp add: url_inv_def)
    then show ?thesis
      by simp
  next
    case False
    then show ?thesis
      using assms(1,3) by (simp add: url_absent_def)
  qed
  show "field_substr s u f = Some (url_part s u f)"
    using * assms(1,3) by (simp add: field_substr_def substr_def url_part_def url_absent_def)
qed

text \<open>The request that a URL stands for.\<close>

definition url_target :: "string \<Rightarrow> http_parser_url \<Rightarrow> NetConnectionRequest \<Rightarrow> bool" where
  "url_target s u req \<longleftrightarrow>
    (net_type req = (if url_part s u UF_SCHEMA = ''https'' then kNetTypeHttps else kNetTypeHttp)) \<and>
    (net_port req = (if http_parser_url.port u \<noteq> 0 then http_parser_url.port u else if net_type req = kNetTypeHttps then 443 else 80)) \<and>
    host req = map byte_of (url_part s u UF_HOST) \<and>
    path req = map byte_of (if s = [] then ''/'' else drop (if has_field UF_PATH u then f_off u UF_PATH else 0) s)"

lemma url_request_target:
  assumes "url_absent u" "url_inv (length s) u"
  shows "\<exists>req'. url_request s u req = Some req' \<and> url_target s u req'"
proof -
  note f = field_substr_part [OF assms]
  have "drop (f_off u UF_PATH) s = [] \<longleftrightarrow> s = []"
  proof (cases "has_field UF_PATH u")
    case True
    then have "0 < f_len u UF_PATH" "f_off u UF_PATH + f_len u UF_PATH \<le> length s"
      using assms(2) by (simp_all add: url_inv_def)
    then show ?thesis
      by auto
  next
    case False
    then show ?thesis
      using assms(1) by (simp add: url_absent_def)
  qed
  moreover have "substr s (f_off u UF_PATH) None = Some (drop (f_off u UF_PATH) s)"
    using f(2) [of UF_PATH] by (simp add: substr_def)
  moreover have "f_off u UF_PATH = (if has_field UF_PATH u then f_off u UF_PATH else 0)"
    using assms(1) by (simp add: url_absent_def)
  ultimately show ?thesis
    by (simp add: url_request_def url_target_def f Let_def)
qed

text \<open>C31.  Creating an HTTP client.  For every URL shorter than 65536 bytes the parser accepts, in both kinds of build,
  no \<open>substr\<close> throws, and the client connects to the host of the URL, on its port or on the default port
  of the scheme (never on port 0), with TLS exactly for the scheme \<open>https\<close>; the path is the rest of the URL from
  the path on, and the whole URL when it has no path.  A URL that the parser rejects violates an assertion of
  debug builds.\<close>

theorem CreateHttpClient_target:
  assumes "length (url r) < 65536"
  shows "case http_parser_parse_url (url r @ [NUL]) (length (url r)) False http_parser_url_init of
      Inl _ \<Rightarrow> False
    | Inr None \<Rightarrow> CreateHttpClient False junk r = Inl Verify_failed
    | Inr (Some u) \<Rightarrow> (\<exists>c req. CreateHttpClient ndebug junk r = Inr (c, req) \<and> url_target (url r) u req \<and> net_port req \<noteq> 0 \<and>
        c = (if url_part (url r) u UF_SCHEMA = ''https'' then HttpsClientImpl else HttpClientImpl) \<and>
        (Tls \<in> set (required_layers req) \<longleftrightarrow> url_part (url r) u UF_SCHEMA = ''https'') \<and>
        proxy_host req = http_proxy_host r \<and> proxy_port req = http_proxy_port r)"
proof -
  let ?p = "http_parser_parse_url (url r @ [NUL]) (length (url r)) False http_parser_url_init"
  have res: "url_result (url r @ [NUL]) (length (url r)) ?p"
    using parse_url_result [OF assms, of "[]"] by simp
  show ?thesis
  proof (cases ?p)
    case (Inl f)
    then show ?thesis
      using res by (simp add: url_result_def)
  next
    case (Inr x)
    show ?thesis
    proof (cases x)
      case None
      then show ?thesis
        using Inr by (simp add: CreateHttpClient_def)
    next
      case (Some u)
      then have "url_inv (length (url r)) u" "url_absent u"
        using res Inr http_parser_parse_url_absent by (simp_all add: url_result_def)
      then obtain req' where "url_request (url r) u (NetConnectionRequest_new junk) = Some req'" "url_target (url r) u req'"
        using url_request_target by blast
      then show ?thesis
        using Inr Some
        by (auto simp: CreateHttpClient_def url_target_def required_layers_def transport_layers_def uses_tls_def uses_ws_def)
    qed
  qed
qed

theorem CreateHttpClient_target_witness:
  "case http_parser_parse_url (''https://a.b/x?y'' @ [NUL]) (length ''https://a.b/x?y'') False http_parser_url_init of
      Inl _ \<Rightarrow> False
    | Inr None \<Rightarrow> False
    | Inr (Some u) \<Rightarrow> (\<exists>c req. CreateHttpClient False (0, 0)
          \<lparr>url = ''https://a.b/x?y'', http_method = kHttpMethodGet, http_heads = [], http_proxy_host = [],
           http_proxy_port = 0, http_proxy_username = [], http_proxy_passwd = []\<rparr> = Inr (c, req) \<and> c = HttpsClientImpl)"
proof -
  have "case http_parser_parse_url (''https://a.b/x?y'' @ [NUL]) (length ''https://a.b/x?y'') False http_parser_url_init of
      Inr (Some u) \<Rightarrow> url_part ''https://a.b/x?y'' u UF_SCHEMA = ''https'' | _ \<Rightarrow> False"
    by code_simp
  then show ?thesis
    using CreateHttpClient_target [of "\<lparr>url = ''https://a.b/x?y'', http_method = kHttpMethodGet, http_heads = [], http_proxy_host = [],
           http_proxy_port = 0, http_proxy_username = [], http_proxy_passwd = []\<rparr>" "(0, 0)" False] by (auto split: sum.splits option.splits)
qed

end
