(* ===== verification/HttpConnection.thy ===== *)
theory HttpConnection
  imports HttpClient
begin

text \<open>
  \<open>HttpConnectionBase\<close> of \<open>src/base/net/http/http_connection_base.h\<close>: an HTTP request on a connection of
  theory \<open>NetConnection\<close>.  The object is the delegate of its own connection, and it is the receiver of
  the calls of the response parser of Boost.  Its own delegate is a state with a transition function,
  which also says whether the delegate calls \<open>Cancel\<close> of the client within the call: the client holds
  the mutex \<open>delegate_mutex_\<close> then, and \<open>Cancel\<close> locks it again.
\<close>

section \<open>Data\<close>

datatype http_callback = OnHttpHeads "(string \<times> string) list" | OnHttpResponse string | OnHttpComplete nat

text \<open>Failures: a thread locks a \<open>std::mutex\<close> it holds already; \<open>boost::lexical_cast\<close> throws.\<close>

datatype http_fault = Relock | Bad_lexical_cast

text \<open>The request message \<open>req_\<close>, with the calls that set its fields.\<close>

datatype field_op = Field_set string bytes | Field_insert string bytes

record http_message =
  msg_version :: nat
  msg_verb :: "HttpMethod option"
  msg_target :: bytes
  msg_fields :: "field_op list"

record 'd HttpConnection =
  conn :: NetConnectionImpl
  http_request :: HttpClientRequest
  http_delegate :: bool
  dstate :: 'd
  recv_complete :: bool
  heads :: "(string \<times> string) list"
  http_code :: nat
  body_limit :: "u64 option"
  req_msg :: http_message
  sent_requests :: "http_message list"

type_synonym 'd http_dlg = "'d \<Rightarrow> http_callback \<Rightarrow> 'd \<times> bool"

definition not_found :: nat where "not_found = 404"

definition empty_message :: http_message where
  "empty_message = \<lparr>msg_version = 11, msg_verb = None, msg_target = [], msg_fields = []\<rparr>"

definition HttpConnection_new :: "HttpClientRequest \<Rightarrow> NetConnectionRequest \<Rightarrow> 'd \<Rightarrow> 'd HttpConnection" where
  "HttpConnection_new r req d =
    \<lparr>conn = NetConnectionImpl_new req, http_request = r, http_delegate = True, dstate = d, recv_complete = False,
     heads = [], http_code = not_found, body_limit = None, req_msg = empty_message, sent_requests = []\<rparr>"

section \<open>Operations\<close>

definition http_Request :: "'d HttpConnection \<Rightarrow> 'd HttpConnection" where
  "http_Request h = h\<lparr>conn := NetConnection.Connect (conn h)\<rparr>"

definition http_Cancel :: "'d HttpConnection \<Rightarrow> 'd HttpConnection" where
  "http_Cancel h = h\<lparr>http_delegate := False, conn := DisConnect (conn h)\<rparr>"

text \<open>A call of the delegate, with \<open>delegate_mutex_\<close> held.\<close>

definition call_delegate :: "'d http_dlg \<Rightarrow> http_callback \<Rightarrow> 'd HttpConnection \<Rightarrow> http_fault + 'd HttpConnection" where
  "call_delegate dlg cb h =
    (if http_delegate h then
       (case dlg (dstate h) cb of (d, cancels) \<Rightarrow> if cancels then Inl Relock else Inr (h\<lparr>dstate := d\<rparr>))
     else Inr h)"

definition NotifyComplete :: "'d http_dlg \<Rightarrow> 'd HttpConnection \<Rightarrow> http_fault + 'd HttpConnection" where
  "NotifyComplete dlg h = call_delegate dlg (OnHttpComplete (http_code h)) h"

definition NotifyResponse :: "'d http_dlg \<Rightarrow> string \<Rightarrow> 'd HttpConnection \<Rightarrow> http_fault + 'd HttpConnection" where
  "NotifyResponse dlg message h = call_delegate dlg (OnHttpResponse message) h"

text \<open>\<open>DoSendData\<close> ignores its buffer and writes the request.\<close>

definition request_message :: "HttpClientRequest \<Rightarrow> NetConnectionRequest \<Rightarrow> http_message \<Rightarrow> http_message" where
  "request_message r req m =
    m\<lparr>msg_version := 11, msg_verb := Some (http_method r), msg_target := path req,
      msg_fields := msg_fields m @ Field_set ''Host'' (host req) # map (\<lambda>(k, v). Field_insert k (map byte_of v)) (http_heads r)\<rparr>"

definition http_DoSendData :: "'d HttpConnection \<Rightarrow> 'd HttpConnection" where
  "http_DoSendData h =
    (let m = request_message (http_request h) (request (conn h)) (req_msg h)
     in h\<lparr>req_msg := m, sent_requests := sent_requests h @ [m]\<rparr>)"

text \<open>The calls of the connection.\<close>

fun net_callback :: "'d http_dlg \<Rightarrow> callback \<Rightarrow> 'd HttpConnection \<Rightarrow> http_fault + 'd HttpConnection" where
  "net_callback dlg (OnConnect code) h =
    (if code = 0 then Inr (h\<lparr>conn := Send [0x31] (conn h)\<rparr>)
     else NotifyComplete dlg (h\<lparr>http_code := not_found\<rparr>))"
| "net_callback dlg (OnRecvData dat) h = Inr h"
| "net_callback dlg (OnDisconnect code) h = NotifyComplete dlg h"

text \<open>The calls of the response parser; the others do nothing, and \<open>on_request_impl\<close> belongs to the parser
  of requests.\<close>

datatype parser_event =
  on_response_impl nat | on_field_impl string string | on_header_impl | on_body_impl string |
  on_chunk_body_impl string | on_finish_impl

definition on_field :: "(string \<Rightarrow> u64 option) \<Rightarrow> string \<Rightarrow> string \<Rightarrow> 'd HttpConnection \<Rightarrow> http_fault + 'd HttpConnection" where
  "on_field lexical_cast name val h =
    (let h = h\<lparr>heads := AList.update name val (heads h)\<rparr>
     in if name = ''Content-Length'' then
          (case lexical_cast val of
             None \<Rightarrow> Inl Bad_lexical_cast
           | Some len \<Rightarrow> Inr (if len \<noteq> 0 then h\<lparr>body_limit := Some len\<rparr> else h))
        else Inr h)"

definition on_finish :: "'d http_dlg \<Rightarrow> 'd HttpConnection \<Rightarrow> http_fault + 'd HttpConnection" where
  "on_finish dlg h =
    (case NotifyComplete dlg h of Inl f \<Rightarrow> Inl f | Inr h \<Rightarrow> Inr (h\<lparr>recv_complete := True\<rparr>))"

fun parser_call ::
  "(string \<Rightarrow> u64 option) \<Rightarrow> 'd http_dlg \<Rightarrow> parser_event \<Rightarrow> 'd HttpConnection \<Rightarrow> http_fault + 'd HttpConnection" where
  "parser_call lexical_cast dlg (on_response_impl code) h = Inr (h\<lparr>http_code := code\<rparr>)"
| "parser_call lexical_cast dlg (on_field_impl name val) h = on_field lexical_cast name val h"
| "parser_call lexical_cast dlg on_header_impl h = call_delegate dlg (OnHttpHeads (heads h)) h"
| "parser_call lexical_cast dlg (on_body_impl body) h = NotifyResponse dlg body h"
| "parser_call lexical_cast dlg (on_chunk_body_impl body) h = NotifyResponse dlg body h"
| "parser_call lexical_cast dlg on_finish_impl h = on_finish dlg h"

section \<open>Runs\<close>

text \<open>What can happen to the connection below: a task of the pump, or the completion of an operation,
  if one is in progress; with the layer that is then set up.\<close>

datatype net_event =
  Run_task | Resolved int | Connected int | Socks_read "bytes option" | Socks_write_failed | Tls_done int | Sent int

definition net_exec ::
  "(bytes \<Rightarrow> bytes option) \<Rightarrow> (bytes \<Rightarrow> bytes option) \<Rightarrow> net_event \<Rightarrow> NetConnectionImpl \<Rightarrow>
   (NetConnectionImpl \<times> layer list) option" where
  "net_exec v4 v6 e c =
    (case e of
       Run_task \<Rightarrow> (case tasks c of [] \<Rightarrow> None | t # ts \<Rightarrow> Some (run_task t (c\<lparr>tasks := ts\<rparr>), []))
     | Resolved ec \<Rightarrow>
         if 0 < resolving (pending c)
         then Some (NotifyResult ec (upd_pending (\<lambda>p. p\<lparr>resolving := resolving p - 1\<rparr>) c), []) else None
     | Connected ec \<Rightarrow>
         if 0 < connecting (pending c)
         then Some (NotifyConnectComplete v4 v6 ec (upd_pending (\<lambda>p. p\<lparr>connecting := connecting p - 1\<rparr>) c), layer_done Tcp ec)
         else None
     | Socks_read r \<Rightarrow>
         (case socks5_client c of
            None \<Rightarrow> None
          | Some s \<Rightarrow>
              if 0 < reading s \<and> (case r of None \<Rightarrow> True | Some dat \<Rightarrow> dat \<noteq> [] \<and> length dat \<le> asio_buffers s)
              then Some (socks5_event (read_handler v4 v6 r) c,
                if r \<noteq> None \<and> 0 \<in> set (handshakes (read_handler v4 v6 r s)) then [Socks] else [])
              else None)
     | Socks_write_failed \<Rightarrow>
         (case socks5_client c of None \<Rightarrow> None | Some s \<Rightarrow> Some (socks5_event write_failed c, []))
     | Tls_done ec \<Rightarrow>
         if 0 < tls_handshaking (pending c)
         then Some (NotifyTlsHandshakeComplete ec (upd_pending (\<lambda>p. p\<lparr>tls_handshaking := tls_handshaking p - 1\<rparr>) c), layer_done Tls ec)
         else None
     | Sent ec \<Rightarrow>
         if 0 < writing (pending c)
         then Some (NotifySendComplete ec (upd_pending (\<lambda>p. p\<lparr>writing := writing p - 1\<rparr>) c), []) else None)"

text \<open>The calls of the virtual functions that a step of the connection makes: the new calls of the delegate in
  order, and \<open>DoSendData\<close> for a new buffer.  No step of the connection does both, and what the connection
  does after a call of its delegate does not depend on the call.\<close>

fun net_callbacks :: "'d http_dlg \<Rightarrow> callback list \<Rightarrow> 'd HttpConnection \<Rightarrow> http_fault + 'd HttpConnection" where
  "net_callbacks dlg [] h = Inr h"
| "net_callbacks dlg (cb # cbs) h = (case net_callback dlg cb h of Inl f \<Rightarrow> Inl f | Inr h \<Rightarrow> net_callbacks dlg cbs h)"

definition net_changed :: "'d http_dlg \<Rightarrow> NetConnectionImpl \<Rightarrow> 'd HttpConnection \<Rightarrow> http_fault + 'd HttpConnection" where
  "net_changed dlg c h =
    net_callbacks dlg (drop (length (callbacks (conn h))) (callbacks c))
      ((http_DoSendData ^^ (length (written c) - length (written (conn h)))) (h\<lparr>conn := c\<rparr>))"

text \<open>The handler of \<open>async_read_some\<close>: after the end of the message it does nothing any more.\<close>

definition read_done :: "'d http_dlg \<Rightarrow> int \<Rightarrow> 'd HttpConnection \<Rightarrow> http_fault + 'd HttpConnection" where
  "read_done dlg ec h =
    (let c = upd_pending (\<lambda>p. p\<lparr>receiving := receiving p - 1\<rparr>) (conn h)
     in if recv_complete h then Inr (h\<lparr>conn := c\<rparr>)
        else net_changed dlg (NotifyRecvData (if ec = 0 then Inr [] else Inl ec) c) h)"

datatype http_event = Net net_event | Parser parser_event | Read int | Cancel

text \<open>One event; an event that is not possible in the state is passed over.  The parser runs within a read.\<close>

definition http_exec ::
  "(bytes \<Rightarrow> bytes option) \<Rightarrow> (bytes \<Rightarrow> bytes option) \<Rightarrow> (string \<Rightarrow> u64 option) \<Rightarrow> 'd http_dlg \<Rightarrow> http_event \<Rightarrow>
   'd HttpConnection \<Rightarrow> http_fault + 'd HttpConnection" where
  "http_exec v4 v6 lexical_cast dlg e h =
    (case e of
       Net e \<Rightarrow> (case net_exec v4 v6 e (conn h) of None \<Rightarrow> Inr h | Some (c, _) \<Rightarrow> net_changed dlg c h)
     | Parser e \<Rightarrow> if 0 < receiving (pending (conn h)) \<and> \<not> recv_complete h then parser_call lexical_cast dlg e h else Inr h
     | Read ec \<Rightarrow> if 0 < receiving (pending (conn h)) then read_done dlg ec h else Inr h
     | Cancel \<Rightarrow> Inr (http_Cancel h))"

definition event_layers ::
  "(bytes \<Rightarrow> bytes option) \<Rightarrow> (bytes \<Rightarrow> bytes option) \<Rightarrow> http_event \<Rightarrow> 'd HttpConnection \<Rightarrow> layer list" where
  "event_layers v4 v6 e h =
    (case e of Net e \<Rightarrow> (case net_exec v4 v6 e (conn h) of None \<Rightarrow> [] | Some (_, ls) \<Rightarrow> ls) | _ \<Rightarrow> [])"

fun http_run ::
  "(bytes \<Rightarrow> bytes option) \<Rightarrow> (bytes \<Rightarrow> bytes option) \<Rightarrow> (string \<Rightarrow> u64 option) \<Rightarrow> 'd http_dlg \<Rightarrow> http_event list \<Rightarrow>
   'd HttpConnection \<Rightarrow> layer list \<Rightarrow> http_fault + 'd HttpConnection \<times> layer list" where
  "http_run v4 v6 lexical_cast dlg [] h ls = Inr (h, ls)"
| "http_run v4 v6 lexical_cast dlg (e # es) h ls =
    (case http_exec v4 v6 lexical_cast dlg e h of
       Inl f \<Rightarrow> Inl f
     | Inr h' \<Rightarrow> http_run v4 v6 lexical_cast dlg es h' (ls @ event_layers v4 v6 e h))"

section \<open>The request is sent once, on a complete connection\<close>

lemma net_exec_step: "net_exec v4 v6 e c = Some (c', l) \<Longrightarrow> conn_step v4 v6 (c, q, ls) (c', q, ls @ l)"
  by (cases e)
    (auto simp: net_exec_def simp del: One_nat_def intro: conn_step.intros(3-5,8,9,11) split: list.splits if_splits option.splits
      dest: conn_step.socks_read conn_step.socks_read_error)

text \<open>The invariant: the connection below keeps its own invariants, at most one buffer is sent for each
  report of a connection, and each buffer written is one request.\<close>

definition messages_ok :: "HttpClientRequest \<Rightarrow> NetConnectionRequest \<Rightarrow> 'd HttpConnection \<Rightarrow> bool" where
  "messages_ok r req h \<longleftrightarrow>
    (case sent_requests h of [] \<Rightarrow> req_msg h = empty_message | m # _ \<Rightarrow> m = request_message r req empty_message)"

lemma messages_ok_cong: "sent_requests h' = sent_requests h \<Longrightarrow> req_msg h' = req_msg h \<Longrightarrow> messages_ok r req h' = messages_ok r req h"
  by (simp add: messages_ok_def split: list.split)

lemma messages_ok_upd [simp]:
  "messages_ok r req (h\<lparr>conn := c\<rparr>) = messages_ok r req h" "messages_ok r req (h\<lparr>http_code := n\<rparr>) = messages_ok r req h"
  "messages_ok r req (h\<lparr>dstate := d\<rparr>) = messages_ok r req h"
  by (rule messages_ok_cong; simp)+

definition sent_inv :: "HttpClientRequest \<Rightarrow> NetConnectionRequest \<Rightarrow> 'd HttpConnection \<Rightarrow> bytes list \<Rightarrow> layer list \<Rightarrow> bool" where
  "sent_inv r req h q ls \<longleftrightarrow> queue_inv (conn h) q \<and> layer_inv req (conn h) ls \<and> http_request h = r \<and>
    length (sent_requests h) = length (written (conn h)) \<and>
    messages_ok r req h"

definition reported :: "NetConnectionImpl \<Rightarrow> nat" where
  "reported c = count_list (connect_reports c) 0"

lemma call_delegate_sel:
  assumes "call_delegate dlg cb h = Inr h'"
  shows "conn h' = conn h" "http_request h' = http_request h" "sent_requests h' = sent_requests h"
    "messages_ok r req h' = messages_ok r req h"
  using assms by (auto simp: call_delegate_def split: if_splits prod.splits)

lemma net_callback_inv:
  assumes "net_callback dlg cb h = Inr h'" "sent_inv r req h q ls"
  shows "\<exists>q'. sent_inv r req h' q' ls \<and> length q' \<le> length q + count_list (connects [cb]) 0 \<and> callbacks (conn h') = callbacks (conn h)"
proof (cases cb)
  case (OnConnect code)
  show ?thesis
  proof (cases "code = 0")
    case True
    then have h': "h' = h\<lparr>conn := Send [0x31] (conn h)\<rparr>"
      using assms(1) OnConnect by simp
    let ?q = "if stoped (conn h) then q else q @ [[0x31]]"
    have "conn_step undefined undefined (conn h, q, ls) (Send [0x31] (conn h), ?q, ls)"
      by (rule conn_step.send)
    then have "queue_inv (Send [0x31] (conn h)) ?q" "layer_inv req (Send [0x31] (conn h)) ls"
      using queue_inv_step layer_inv_step assms(2) by (fastforce simp: sent_inv_def)+
    then show ?thesis
      using assms(2) h' OnConnect True by (intro exI [of _ ?q]) (simp add: sent_inv_def Send_def)
  next
    case False
    then show ?thesis
      using assms OnConnect call_delegate_sel [of dlg _ "h\<lparr>http_code := not_found\<rparr>" h']
      by (intro exI [of _ q]) (auto simp: NotifyComplete_def sent_inv_def)
  qed
next
  case (OnDisconnect code)
  then show ?thesis
    using assms call_delegate_sel [of dlg _ h h'] by (intro exI [of _ q]) (auto simp: NotifyComplete_def sent_inv_def)
qed (use assms in auto)

lemma net_callbacks_inv:
  assumes "net_callbacks dlg cbs h = Inr h'" "sent_inv r req h q ls"
  shows "\<exists>q'. sent_inv r req h' q' ls \<and> length q' \<le> length q + count_list (connects cbs) 0 \<and> callbacks (conn h') = callbacks (conn h)"
  using assms
proof (induction cbs arbitrary: h q)
  case (Cons cb cbs)
  then obtain h1 where h1: "net_callback dlg cb h = Inr h1" "net_callbacks dlg cbs h1 = Inr h'"
    by (auto split: sum.splits)
  obtain q1 where q1: "sent_inv r req h1 q1 ls" "length q1 \<le> length q + count_list (connects [cb]) 0" "callbacks (conn h1) = callbacks (conn h)"
    using net_callback_inv [OF h1(1) Cons.prems(2)] by blast
  obtain q2 where "sent_inv r req h' q2 ls" "length q2 \<le> length q1 + count_list (connects cbs) 0" "callbacks (conn h') = callbacks (conn h1)"
    using Cons.IH [OF h1(2) q1(1)] by blast
  moreover have "count_list (connects (cb # cbs)) 0 = count_list (connects [cb]) 0 + count_list (connects cbs) 0"
    by (cases cb) simp_all
  ultimately show ?case
    using q1 by (intro exI [of _ q2]) auto
qed auto

lemma http_DoSendData_inv:
  assumes "http_request h = r" "request (conn h) = req" "messages_ok r req h"
  shows "let h' = (http_DoSendData ^^ n) h in conn h' = conn h \<and> http_request h' = r \<and>
    length (sent_requests h') = length (sent_requests h) + n \<and> messages_ok r req h'"
  using assms
  by (induction n) (auto simp: http_DoSendData_def messages_ok_def Let_def split: list.splits)

lemma net_changed_inv:
  assumes "net_changed dlg c h = Inr h'" "sent_inv r req h q ls" "queue_inv c q" "layer_inv req c ls'"
    and "length (written (conn h)) \<le> length (written c)" "callbacks c = callbacks (conn h) @ cbs"
  shows "\<exists>q'. sent_inv r req h' q' ls' \<and> length q' + reported (conn h) \<le> length q + reported c \<and> callbacks (conn h') = callbacks c"
proof -
  let ?n = "length (written c) - length (written (conn h))"
  let ?h = "(http_DoSendData ^^ ?n) (h\<lparr>conn := c\<rparr>)"
  have "request c = req"
    using assms(4) by (simp add: layer_inv_def)
  then have "sent_inv r req ?h q ls'" "conn ?h = c"
    using assms(2-5) http_DoSendData_inv [of "h\<lparr>conn := c\<rparr>" r req ?n] by (auto simp: sent_inv_def Let_def)
  moreover have "net_callbacks dlg cbs ?h = Inr h'"
    using assms(1,6) by (simp add: net_changed_def)
  moreover have "reported c = reported (conn h) + count_list (connects cbs) 0"
    using assms(6) by (simp add: reported_def)
  ultimately show ?thesis
    using net_callbacks_inv [of dlg cbs ?h h' r req q ls'] by fastforce
qed

text \<open>A step of a connection only adds to its logs.\<close>

definition logs_grow :: "NetConnectionImpl \<Rightarrow> NetConnectionImpl \<Rightarrow> bool" where
  "logs_grow c d \<longleftrightarrow> length (written c) \<le> length (written d) \<and> (\<exists>cbs. callbacks d = callbacks c @ cbs)"

lemma logs_grow_DoOtherHandshake: "logs_grow c (DoOtherHandshake ec c)"
  by (simp add: logs_grow_def DoOtherHandshake_def conn_ops split: NetType.split)

lemma logs_grow_OnSocks5Handshake: "logs_grow c (OnSocks5Handshake ec c)"
  using logs_grow_DoOtherHandshake [of c ec] by (auto simp: logs_grow_def OnSocks5Handshake_def HandleConnectStatus_def)

lemma logs_grow_socks5_event: "logs_grow c (socks5_event f c)"
proof (cases "socks5_client c")
  case (Some s)
  have "logs_grow (c\<lparr>socks5_client := x\<rparr>) d = logs_grow c d" for x d
    by (simp add: logs_grow_def)
  then show ?thesis
    using logs_grow_OnSocks5Handshake [of "c\<lparr>socks5_client := Some (f s)\<rparr>"] Some
    by (auto simp: socks5_event_def Let_def) (simp add: logs_grow_def)
qed (simp add: socks5_event_def logs_grow_def)

lemma logs_grow_step: "conn_step v4 v6 x y \<Longrightarrow> logs_grow (fst x) (fst y)"
proof (induction rule: conn_step.induct)
  case (run c t ts q ls)
  then show ?case
    using silent_run_task(2) [of t "c\<lparr>tasks := ts\<rparr>"]
    by (cases t) (auto simp: logs_grow_def conn_ops Let_def)
next
  case (connected c q ls ec)
  then show ?case
    using logs_grow_DoOtherHandshake [of "upd_pending (\<lambda>p. p\<lparr>connecting := connecting p - 1\<rparr>) c" ec]
    by (auto simp: logs_grow_def NotifyConnectComplete_def HandleConnectStatus_def)
qed (simp_all add: logs_grow_socks5_event, auto simp: logs_grow_def conn_ops Let_def split: option.split sum.split NetType.split)

definition http_inv :: "HttpClientRequest \<Rightarrow> NetConnectionRequest \<Rightarrow> 'd HttpConnection \<Rightarrow> layer list \<Rightarrow> bool" where
  "http_inv r req h ls \<longleftrightarrow> (\<exists>q. sent_inv r req h q ls \<and> length q \<le> reported (conn h))"

lemma http_inv_step:
  assumes inv: "http_inv r req h ls" and step: "\<And>q. conn_step v4 v6 (conn h, q, ls) (c, q, ls')"
    and ch: "net_changed dlg c h = Inr h'"
  shows "http_inv r req h' ls'"
proof -
  obtain q where q: "sent_inv r req h q ls" "length q \<le> reported (conn h)"
    using inv by (auto simp: http_inv_def)
  have "queue_inv c q" "layer_inv req c ls'" "logs_grow (conn h) c"
    using queue_inv_step [OF step [of q]] layer_inv_step [OF step [of q], of req] logs_grow_step [OF step [of q]] q(1)
    by (simp_all add: sent_inv_def)
  then obtain q' where "sent_inv r req h' q' ls'" "length q' + reported (conn h) \<le> length q + reported c"
    "callbacks (conn h') = callbacks c"
    using net_changed_inv [OF ch q(1), of ls'] by (auto simp: logs_grow_def)
  then show ?thesis
    using q(2) unfolding http_inv_def by (intro exI [of _ q']) (auto simp: reported_def)
qed

lemma parser_call_sel:
  assumes "parser_call lexical_cast dlg e h = Inr h'"
  shows "conn h' = conn h" "http_request h' = http_request h" "sent_requests h' = sent_requests h"
    "messages_ok r req h' = messages_ok r req h"
proof -
  have "conn h' = conn h \<and> http_request h' = http_request h \<and> sent_requests h' = sent_requests h \<and> req_msg h' = req_msg h"
    using assms
    by (cases e)
      (auto simp: on_field_def on_finish_def NotifyComplete_def NotifyResponse_def call_delegate_def Let_def
        split: if_splits prod.splits option.splits sum.splits)
  then show "conn h' = conn h" "http_request h' = http_request h" "sent_requests h' = sent_requests h"
    "messages_ok r req h' = messages_ok r req h"
    using messages_ok_cong by blast+
qed

lemma http_inv_exec:
  assumes "http_inv r req h ls" "http_exec v4 v6 lexical_cast dlg e h = Inr h'"
  shows "http_inv r req h' (ls @ event_layers v4 v6 e h)"
proof (cases e)
  case (Net e')
  then show ?thesis
    using assms http_inv_step [OF assms(1) net_exec_step]
    by (auto simp: http_exec_def event_layers_def split: option.splits)
next
  case (Parser e')
  then show ?thesis
    using assms parser_call_sel [of lexical_cast dlg e' h h']
    by (auto simp: http_exec_def event_layers_def http_inv_def sent_inv_def split: if_splits)
next
  case (Read ec)
  let ?c = "upd_pending (\<lambda>p. p\<lparr>receiving := receiving p - 1\<rparr>) (conn h)"
  show ?thesis
  proof (cases "0 < receiving (pending (conn h)) \<and> recv_complete h")
    case True
    then have h': "h' = h\<lparr>conn := ?c\<rparr>"
      using assms(2) Read by (simp add: http_exec_def read_done_def Let_def)
    obtain q where q: "sent_inv r req h q ls" "length q \<le> reported (conn h)"
      using assms(1) by (auto simp: http_inv_def)
    have "layer_inv req ?c ls" "queue_inv ?c q"
      using q by (auto simp: sent_inv_def intro: layer_inv_weaken queue_inv_upd_pending)
    then show ?thesis
      using q h' Read by (auto simp: http_inv_def sent_inv_def event_layers_def reported_def intro!: exI [of _ q])
  next
    case False
    then show ?thesis
      using assms Read http_inv_step [OF assms(1) conn_step.received]
      by (auto simp: http_exec_def read_done_def event_layers_def Let_def simp del: One_nat_def split: if_splits)
  qed
next
  case Cancel
  obtain q where q: "sent_inv r req h q ls" "length q \<le> reported (conn h)"
    using assms(1) by (auto simp: http_inv_def)
  have "conn_step v4 v6 (conn h, q, ls) (DisConnect (conn h), q, ls)"
    by (rule conn_step.disconnect)
  from queue_inv_step [OF this] layer_inv_step [OF this, of req]
  have "sent_inv r req h' q ls"
    using q assms(2) Cancel by (auto simp: sent_inv_def http_exec_def http_Cancel_def DisConnect_def cong: messages_ok_cong)
  then show ?thesis
    using q(2) assms(2) Cancel
    by (auto simp: http_inv_def http_exec_def http_Cancel_def DisConnect_def reported_def event_layers_def intro!: exI [of _ q])
qed

lemma http_inv_run:
  "http_run v4 v6 lexical_cast dlg es h ls = Inr (h', ls') \<Longrightarrow> http_inv r req h ls \<Longrightarrow> http_inv r req h' ls'"
  by (induction v4 v6 lexical_cast dlg es h ls rule: http_run.induct)
    (auto dest: http_inv_exec split: sum.splits)

lemma queue_inv_written: "queue_inv c q \<Longrightarrow> \<exists>rest. q = written c @ rest"
  by (auto simp: queue_inv_def neq_Nil_conv)

lemma http_inv_start: "http_inv r req (http_Request (HttpConnection_new r req d)) []"
  using layer_inv_start [of req]
  by (auto simp: http_inv_def sent_inv_def http_Request_def HttpConnection_new_def messages_ok_def empty_message_def
      Connect_def NetConnectionImpl_new_def PostRunable_def queue_inv_def no_pending_def intro!: exI [of _ "[]"])

text \<open>C32.  The request of an HTTP client.  In every run at most one request goes out on the connection, and it goes out only when all
  the layers of the connection are set up in their order (TCP, the proxy if there is one, TLS for
  \<open>https\<close>); it has the method of the caller, the path and the host of the connection and the header
  lines of the caller.\<close>

theorem http_request_after_layers:
  assumes "http_run v4 v6 lexical_cast dlg es (http_Request (HttpConnection_new r req d)) [] = Inr (h, ls)"
    and "sent_requests h \<noteq> []"
  shows "sent_requests h = [request_message r req empty_message] \<and> ls = required_layers req"
proof -
  obtain q where q: "sent_inv r req h q ls" "length q \<le> reported (conn h)"
    using http_inv_run [OF assms(1) http_inv_start] by (auto simp: http_inv_def)
  have l: "length (connect_reports (conn h)) \<le> 1" "0 \<in> set (connect_reports (conn h)) \<Longrightarrow> ls = required_layers req"
    using q(1) by (auto simp: sent_inv_def layer_inv_def)
  have r: "reported (conn h) \<le> 1" "0 < reported (conn h) \<Longrightarrow> 0 \<in> set (connect_reports (conn h))"
    using l(1) count_le_length [of "connect_reports (conn h)" 0]
    by (simp add: reported_def) (rule ccontr, simp add: reported_def)
  have q': "queue_inv (conn h) q" "length (sent_requests h) = length (written (conn h))" "messages_ok r req h"
    using q(1) by (simp_all only: sent_inv_def)
  obtain rest where "q = written (conn h) @ rest"
    using queue_inv_written [OF q'(1)] by blast
  then have "length (sent_requests h) + length rest \<le> reported (conn h)"
    using q(2) q'(2) by simp
  moreover from assms(2) have "0 < length (sent_requests h)"
    by simp
  ultimately have "length (sent_requests h) = 1" "0 < reported (conn h)"
    using r(1) by linarith+
  then show ?thesis
    using l(2) r(2) q'(3) by (cases "sent_requests h") (simp_all add: messages_ok_def)
qed

section \<open>Delegates\<close>

text \<open>A delegate that keeps within a set of states where it does not call \<open>Cancel\<close> back before the response is
  complete, and one that never calls it back: for that one the client never locks its mutex twice.\<close>

fun is_complete :: "http_callback \<Rightarrow> bool" where
  "is_complete (OnHttpComplete _) = True"
| "is_complete _ = False"

locale body_delegate =
  fixes dlg :: "'d http_dlg" and ok :: "'d \<Rightarrow> bool"
  assumes body_ok: "ok d \<Longrightarrow> \<not> is_complete cb \<Longrightarrow> ok (fst (dlg d cb))"
    and body_quiet: "ok d \<Longrightarrow> \<not> is_complete cb \<Longrightarrow> \<not> snd (dlg d cb)"

locale quiet_delegate = body_delegate +
  assumes complete_ok: "ok d \<Longrightarrow> is_complete cb \<Longrightarrow> ok (fst (dlg d cb))"
    and complete_quiet: "ok d \<Longrightarrow> is_complete cb \<Longrightarrow> \<not> snd (dlg d cb)"
begin

lemma ok_step: "ok d \<Longrightarrow> ok (fst (dlg d cb))"
  using body_ok complete_ok by blast

lemma no_cancel: "ok d \<Longrightarrow> \<not> snd (dlg d cb)"
  using body_quiet complete_quiet by blast

lemma call_delegate_ok: "ok (dstate h) \<Longrightarrow> \<exists>h'. call_delegate dlg cb h = Inr h' \<and> ok (dstate h')"
  using ok_step [of "dstate h" cb] no_cancel [of "dstate h" cb]
  by (cases "dlg (dstate h) cb") (simp add: call_delegate_def)

lemma net_callback_ok: "ok (dstate h) \<Longrightarrow> \<exists>h'. net_callback dlg cb h = Inr h' \<and> ok (dstate h')"
  using call_delegate_ok [of h] call_delegate_ok [of "h\<lparr>http_code := not_found\<rparr>"] by (cases cb) (simp_all add: NotifyComplete_def)

lemma net_callbacks_ok: "ok (dstate h) \<Longrightarrow> \<exists>h'. net_callbacks dlg cbs h = Inr h' \<and> ok (dstate h')"
proof (induction cbs arbitrary: h)
  case (Cons cb cbs)
  then obtain h1 where "net_callback dlg cb h = Inr h1" "ok (dstate h1)"
    using net_callback_ok [of h cb] by blast
  then show ?case
    using Cons.IH [of h1] by simp
qed simp

lemma dstate_send: "dstate ((http_DoSendData ^^ n) h) = dstate h"
  by (induction n) (simp_all add: http_DoSendData_def Let_def)

lemma net_changed_ok: "ok (dstate h) \<Longrightarrow> \<exists>h'. net_changed dlg c h = Inr h' \<and> ok (dstate h')"
  unfolding net_changed_def by (rule net_callbacks_ok) (simp add: dstate_send)

lemma parser_call_ok:
  assumes "ok (dstate h)" "\<And>v. e = on_field_impl ''Content-Length'' v \<Longrightarrow> lexical_cast v \<noteq> None"
  shows "\<exists>h'. parser_call lexical_cast dlg e h = Inr h' \<and> ok (dstate h')"
proof (cases e)
  case (on_field_impl name v)
  then show ?thesis
    using assms by (auto simp: on_field_def Let_def split: option.split)
next
  case on_finish_impl
  then show ?thesis
    using call_delegate_ok [OF assms(1), of "OnHttpComplete (http_code h)"] by (auto simp: on_finish_def NotifyComplete_def)
qed (use assms(1) call_delegate_ok [OF assms(1)] in \<open>simp_all add: NotifyResponse_def\<close>)

lemma http_exec_ok:
  assumes "ok (dstate h)" "\<And>v. e = Parser (on_field_impl ''Content-Length'' v) \<Longrightarrow> lexical_cast v \<noteq> None"
  shows "\<exists>h'. http_exec v4 v6 lexical_cast dlg e h = Inr h' \<and> ok (dstate h')"
  using assms net_changed_ok [OF assms(1)] parser_call_ok [OF assms(1)]
  by (cases e) (auto simp: http_exec_def read_done_def http_Cancel_def Let_def split: option.split)

lemma http_run_ok:
  assumes "ok (dstate h)" "\<And>v. Parser (on_field_impl ''Content-Length'' v) \<in> set es \<Longrightarrow> lexical_cast v \<noteq> None"
  shows "\<exists>h' ls'. http_run v4 v6 lexical_cast dlg es h ls = Inr (h', ls') \<and> ok (dstate h')"
  using assms
proof (induction es arbitrary: h ls)
  case (Cons e es)
  then obtain h1 where "http_exec v4 v6 lexical_cast dlg e h = Inr h1" "ok (dstate h1)"
    using http_exec_ok [of h e lexical_cast v4 v6] by auto
  then show ?case
    using Cons by simp
qed simp

end

text \<open>A delegate that writes down its calls.\<close>

definition log_delegate :: "http_callback list http_dlg" where
  "log_delegate d cb = (d @ [cb], False)"

interpretation log: quiet_delegate log_delegate "\<lambda>_. True"
  by unfold_locales (simp_all add: log_delegate_def)

section \<open>An exchange\<close>

text \<open>The events of a plain connection without a proxy up to the sent request, and those of a response.\<close>

definition connect_events :: "http_event list" where
  "connect_events = [Net Run_task, Net Run_task, Net (Resolved 0), Net Run_task, Net (Connected 0), Net Run_task, Net (Sent 0)]"

definition response_events :: "nat \<Rightarrow> (string \<times> string) list \<Rightarrow> string list \<Rightarrow> http_event list" where
  "response_events code fs bodies =
    Parser (on_response_impl code) # map (\<lambda>(k, v). Parser (on_field_impl k v)) fs @ Parser on_header_impl #
    concat (map (\<lambda>b. [Parser (on_body_impl b), Read 0]) bodies) @ [Parser on_finish_impl, Read 0]"

lemma http_run_append:
  "http_run v4 v6 lc dlg (es @ es') h ls =
    (case http_run v4 v6 lc dlg es h ls of Inl f \<Rightarrow> Inl f | Inr (h, ls) \<Rightarrow> http_run v4 v6 lc dlg es' h ls)"
  by (induction v4 v6 lc dlg es h ls rule: http_run.induct) (simp_all split: sum.split)

definition reading_state :: "'d HttpConnection \<Rightarrow> bool" where
  "reading_state h \<longleftrightarrow> receiving (pending (conn h)) = 1 \<and> \<not> recv_complete h \<and> http_delegate h \<and> delegate (conn h)"

lemma connect_run:
  assumes "proxy_host req = []" "net_type req = kNetTypeHttp"
  shows "\<exists>h. http_run v4 v6 lc dlg connect_events (http_Request (HttpConnection_new r req d)) [] = Inr (h, [Tcp]) \<and>
    reading_state h \<and> heads h = [] \<and> dstate h = d \<and> sent_requests h = [request_message r req empty_message]"
  using assms
  by (simp add: connect_events_def http_exec_def net_exec_def net_changed_def event_layers_def layer_done_def
      http_Request_def HttpConnection_new_def NetConnectionImpl_new_def no_pending_def empty_message_def conn_defs
      CreateDnsResolver_def Let_def http_DoSendData_def reading_state_def)

lemma on_field_ok:
  assumes "reading_state h" "k = ''Content-Length'' \<Longrightarrow> lc v \<noteq> None"
  shows "\<exists>h1. on_field lc k v h = Inr h1 \<and> reading_state h1 \<and> heads h1 = AList.update k v (heads h) \<and>
    dstate h1 = dstate h \<and> http_code h1 = http_code h \<and> sent_requests h1 = sent_requests h"
  using assms by (cases "k = ''Content-Length''"; cases "lc v") (simp_all add: on_field_def reading_state_def Let_def)

text \<open>The numbers of the lengths given can be read.\<close>

definition lengths_ok :: "(string \<Rightarrow> u64 option) \<Rightarrow> (string \<times> string) list \<Rightarrow> bool" where
  "lengths_ok lc fs = list_all (\<lambda>(k, v). k = ''Content-Length'' \<longrightarrow> lc v \<noteq> None) fs"

lemma fields_run:
  assumes "reading_state h" "lengths_ok lc fs"
  shows "\<exists>h'. http_run v4 v6 lc dlg (map (\<lambda>(k, v). Parser (on_field_impl k v)) fs) h ls = Inr (h', ls) \<and> reading_state h' \<and>
    heads h' = fold (\<lambda>(k, v). AList.update k v) fs (heads h) \<and> dstate h' = dstate h \<and> http_code h' = http_code h \<and>
    sent_requests h' = sent_requests h"
  using assms
proof (induction fs arbitrary: h)
  case (Cons f fs)
  obtain k v where f: "f = (k, v)"
    by fastforce
  have "k = ''Content-Length'' \<Longrightarrow> lc v \<noteq> None" "lengths_ok lc fs"
    using Cons.prems(2) f by (simp_all add: lengths_ok_def)
  then obtain h1 where h1: "on_field lc k v h = Inr h1" "reading_state h1" "heads h1 = AList.update k v (heads h)"
    "dstate h1 = dstate h" "http_code h1 = http_code h" "sent_requests h1 = sent_requests h"
    using on_field_ok [OF Cons.prems(1), of k lc v] by auto
  have "http_exec v4 v6 lc dlg (Parser (on_field_impl k v)) h = Inr h1"
    using Cons.prems(1) h1(1) by (simp add: http_exec_def reading_state_def)
  moreover have "event_layers v4 v6 (Parser (on_field_impl k v)) h = []"
    by (simp add: event_layers_def)
  ultimately show ?case
    using Cons.IH [OF h1(2)] \<open>lengths_ok lc fs\<close> f h1 by simp
qed simp

lemma response_events_end: "\<exists>es. response_events code fs bodies = es @ [Parser on_finish_impl, Read 0]"
  by (simp add: response_events_def)

context body_delegate
begin

definition delegate_calls :: "'d \<Rightarrow> http_callback list \<Rightarrow> 'd" where
  "delegate_calls d cbs = foldl (\<lambda>d cb. fst (dlg d cb)) d cbs"

lemma call_run:
  assumes "reading_state h" "ok (dstate h)" "\<not> is_complete cb"
  shows "call_delegate dlg cb h = Inr (h\<lparr>dstate := fst (dlg (dstate h) cb)\<rparr>)"
  using assms body_quiet [OF assms(2,3)]
  by (cases "dlg (dstate h) cb") (simp add: call_delegate_def reading_state_def)

lemma body_run:
  assumes "reading_state h" "ok (dstate h)"
  shows "\<exists>h'. http_run v4 v6 lc dlg [Parser (on_body_impl b), Read 0] h ls = Inr (h', ls) \<and> reading_state h' \<and> ok (dstate h') \<and>
    dstate h' = fst (dlg (dstate h) (OnHttpResponse b)) \<and> http_code h' = http_code h \<and> sent_requests h' = sent_requests h"
  using assms call_run [OF assms, of "OnHttpResponse b"] body_ok [OF assms(2), of "OnHttpResponse b"]
  by (simp add: http_exec_def event_layers_def NotifyResponse_def read_done_def net_changed_def conn_defs reading_state_def)

lemma bodies_run:
  assumes "reading_state h" "ok (dstate h)"
  shows "\<exists>h'. http_run v4 v6 lc dlg (concat (map (\<lambda>b. [Parser (on_body_impl b), Read 0]) bodies)) h ls = Inr (h', ls) \<and>
    reading_state h' \<and> ok (dstate h') \<and> dstate h' = delegate_calls (dstate h) (map OnHttpResponse bodies) \<and>
    http_code h' = http_code h \<and> sent_requests h' = sent_requests h"
  using assms
proof (induction bodies arbitrary: h)
  case (Cons b bodies)
  obtain h1 where h1: "http_run v4 v6 lc dlg [Parser (on_body_impl b), Read 0] h ls = Inr (h1, ls)" "reading_state h1" "ok (dstate h1)"
    "dstate h1 = fst (dlg (dstate h) (OnHttpResponse b))" "http_code h1 = http_code h" "sent_requests h1 = sent_requests h"
    using body_run [OF Cons.prems] by blast
  obtain h2 where h2: "http_run v4 v6 lc dlg (concat (map (\<lambda>b. [Parser (on_body_impl b), Read 0]) bodies)) h1 ls = Inr (h2, ls)"
    "reading_state h2" "ok (dstate h2)" "dstate h2 = delegate_calls (dstate h1) (map OnHttpResponse bodies)"
    "http_code h2 = http_code h1" "sent_requests h2 = sent_requests h1"
    using Cons.IH [OF h1(2,3)] by blast
  have "http_run v4 v6 lc dlg (concat (map (\<lambda>b. [Parser (on_body_impl b), Read 0]) (b # bodies))) h ls = Inr (h2, ls)"
    using h1(1) h2(1) http_run_append [of v4 v6 lc dlg "[Parser (on_body_impl b), Read 0]" _ h ls]
    by (simp only: list.map concat.simps) simp
  then show ?case
    using h1(4-6) h2(2-6) by (simp add: delegate_calls_def)
qed (simp add: delegate_calls_def)

lemma exchange_body:
  assumes "proxy_host req = []" "net_type req = kNetTypeHttp" "ok d" "lengths_ok lc fs"
    and "response_events code fs bodies = es @ [Parser on_finish_impl, Read 0]"
  shows "\<exists>h. http_run v4 v6 lc dlg (connect_events @ es) (http_Request (HttpConnection_new r req d)) [] = Inr (h, [Tcp]) \<and>
    reading_state h \<and> ok (dstate h) \<and> http_code h = code \<and> sent_requests h = [request_message r req empty_message] \<and>
    dstate h = delegate_calls d (OnHttpHeads (fold (\<lambda>(k, v). AList.update k v) fs []) # map OnHttpResponse bodies)"
proof -
  obtain h0 where h0: "http_run v4 v6 lc dlg connect_events (http_Request (HttpConnection_new r req d)) [] = Inr (h0, [Tcp])"
    "reading_state h0" "heads h0 = []" "dstate h0 = d" "sent_requests h0 = [request_message r req empty_message]"
    using connect_run [OF assms(1,2), of v4 v6 lc dlg r d] by auto
  let ?h1 = "h0\<lparr>http_code := code\<rparr>"
  have r1: "reading_state ?h1"
    using h0(2) by (simp add: reading_state_def)
  obtain h2 where h2: "http_run v4 v6 lc dlg (map (\<lambda>(k, v). Parser (on_field_impl k v)) fs) ?h1 [Tcp] = Inr (h2, [Tcp])"
    "reading_state h2" "heads h2 = fold (\<lambda>(k, v). AList.update k v) fs []" "dstate h2 = d" "http_code h2 = code"
    "sent_requests h2 = [request_message r req empty_message]"
    using fields_run [OF r1 assms(4), of v4 v6 dlg "[Tcp]"] h0(3-5) by auto
  let ?h3 = "h2\<lparr>dstate := fst (dlg d (OnHttpHeads (heads h2)))\<rparr>"
  have r3: "reading_state ?h3" "ok (dstate ?h3)" "call_delegate dlg (OnHttpHeads (heads h2)) h2 = Inr ?h3"
    using h2(2,4) assms(3) body_ok call_run [of h2] by (simp_all add: reading_state_def)
  obtain h4 where h4: "http_run v4 v6 lc dlg (concat (map (\<lambda>b. [Parser (on_body_impl b), Read 0]) bodies)) ?h3 [Tcp] = Inr (h4, [Tcp])"
    "reading_state h4" "ok (dstate h4)" "dstate h4 = delegate_calls (dstate ?h3) (map OnHttpResponse bodies)"
    "http_code h4 = code" "sent_requests h4 = [request_message r req empty_message]"
    using bodies_run [OF r3(1,2), of v4 v6 lc bodies "[Tcp]"] h2(5,6) by auto
  have "http_exec v4 v6 lc dlg (Parser (on_response_impl code)) h0 = Inr ?h1"
    "http_exec v4 v6 lc dlg (Parser on_header_impl) h2 = Inr ?h3"
    using h0(2) h2(2) r3(3) by (simp_all add: http_exec_def reading_state_def)
  moreover have "es = Parser (on_response_impl code) # map (\<lambda>(k, v). Parser (on_field_impl k v)) fs @ Parser on_header_impl #
      concat (map (\<lambda>b. [Parser (on_body_impl b), Read 0]) bodies)"
    using assms(5) by (simp add: response_events_def)
  ultimately show ?thesis
    using h0(1) h2(1,3,4) h4
    by (simp add: http_run_append event_layers_def) (simp add: delegate_calls_def)
qed

end

context quiet_delegate
begin

lemma exchange:
  assumes "proxy_host req = []" "net_type req = kNetTypeHttp" "ok d" "lengths_ok lc fs"
  shows "\<exists>h. http_run v4 v6 lc dlg (connect_events @ response_events code fs bodies)
        (http_Request (HttpConnection_new r req d)) [] = Inr (h, [Tcp]) \<and>
    sent_requests h = [request_message r req empty_message] \<and>
    dstate h = delegate_calls d
      (OnHttpHeads (fold (\<lambda>(k, v). AList.update k v) fs []) # map OnHttpResponse bodies @ [OnHttpComplete code])"
proof -
  obtain es where es: "response_events code fs bodies = es @ [Parser on_finish_impl, Read 0]"
    using response_events_end by blast
  obtain h where h: "http_run v4 v6 lc dlg (connect_events @ es) (http_Request (HttpConnection_new r req d)) [] = Inr (h, [Tcp])"
    "reading_state h" "ok (dstate h)" "http_code h = code" "sent_requests h = [request_message r req empty_message]"
    "dstate h = delegate_calls d (OnHttpHeads (fold (\<lambda>(k, v). AList.update k v) fs []) # map OnHttpResponse bodies)"
    using exchange_body [OF assms es, of v4 v6 r] by auto
  have "call_delegate dlg (OnHttpComplete code) h = Inr (h\<lparr>dstate := fst (dlg (dstate h) (OnHttpComplete code))\<rparr>)"
    using h(2) no_cancel [OF h(3), of "OnHttpComplete code"]
    by (cases "dlg (dstate h) (OnHttpComplete code)") (simp add: call_delegate_def reading_state_def)
  then have "\<exists>h'. http_run v4 v6 lc dlg [Parser on_finish_impl, Read 0] h [Tcp] = Inr (h', [Tcp]) \<and>
      dstate h' = fst (dlg (dstate h) (OnHttpComplete code)) \<and> sent_requests h' = sent_requests h"
    using h(2,4)
    by (simp add: http_exec_def event_layers_def on_finish_def NotifyComplete_def read_done_def reading_state_def Let_def)
  then show ?thesis
    using h(1,5,6) unfolding es append_assoc [symmetric] http_run_append
    by (auto simp: delegate_calls_def)
qed

end

lemma log_calls: "log.delegate_calls d cbs = d @ cbs"
  by (induction cbs arbitrary: d) (simp_all add: log.delegate_calls_def log_delegate_def)


definition example_request :: NetConnectionRequest where
  "example_request = (NetConnectionRequest_new (80, 0))\<lparr>net_type := kNetTypeHttp, host := map byte_of ''a.b''\<rparr>"

definition example_client :: HttpClientRequest where
  "example_client = \<lparr>url = ''http://a.b/'', http_method = kHttpMethodGet, http_heads = [], http_proxy_host = [],
     http_proxy_port = 0, http_proxy_username = [], http_proxy_passwd = []\<rparr>"

lemma example_request_sel [simp]: "proxy_host example_request = []" "net_type example_request = kNetTypeHttp"
  by (simp_all add: example_request_def NetConnectionRequest_new_def)


theorem http_request_after_layers_witness:
  "\<exists>h ls. http_run (\<lambda>_. None) (\<lambda>_. None) (\<lambda>_. None) log_delegate connect_events
        (http_Request (HttpConnection_new example_client example_request [])) [] = Inr (h, ls) \<and> sent_requests h \<noteq> [] \<and>
    sent_requests h = [request_message example_client example_request empty_message] \<and> ls = required_layers example_request"
proof -
  obtain h where h: "http_run (\<lambda>_. None) (\<lambda>_. None) (\<lambda>_. None) log_delegate connect_events
        (http_Request (HttpConnection_new example_client example_request [])) [] = Inr (h, [Tcp])" "sent_requests h \<noteq> []"
    using connect_run [of example_request "\<lambda>_. None" "\<lambda>_. None" "\<lambda>_. None" log_delegate example_client "[]"] by auto
  then show ?thesis
    using http_request_after_layers [OF h] by blast
qed

end
