(* ===== verification/HttpDownloader.thy ===== *)
theory HttpDownloader
  imports HttpConnection
begin

text \<open>
  The downloader of \<open>src/base/net/http/http_downloader_impl.cc\<close>: a delegate of the HTTP client that
  writes the response to a file.  The file system is two parameters, which say whether a file can be
  opened and whether a piece can be written behind what the file holds.
\<close>

section \<open>Model\<close>

record HttpDownloaderRequest =
  dl_url :: string
  dl_path :: string
  dl_proxy_host :: bytes
  dl_proxy_port :: u16
  dl_proxy_username :: bytes
  dl_proxy_passwd :: bytes

datatype dl_callback = OnStartDownload | OnDownloadProgress int int | OnDownloadComplte int

record HttpDownloaderImpl =
  total_size :: u64
  write_size :: u64
  file_open :: bool
  file_content :: string
  dl_delegate :: bool
  download_request :: HttpDownloaderRequest
  dl_callbacks :: "dl_callback list"

text \<open>The request that the constructor hands to \<open>CreateHttpClient\<close>.\<close>

definition downloader_request :: "HttpDownloaderRequest \<Rightarrow> HttpClientRequest" where
  "downloader_request r =
    \<lparr>url = dl_url r, http_method = kHttpMethodGet, http_heads = [], http_proxy_host = dl_proxy_host r,
     http_proxy_port = dl_proxy_port r, http_proxy_username = dl_proxy_username r, http_proxy_passwd = dl_proxy_passwd r\<rparr>"

definition HttpDownloaderImpl_new :: "HttpDownloaderRequest \<Rightarrow> HttpDownloaderImpl" where
  "HttpDownloaderImpl_new r =
    \<lparr>total_size = 0, write_size = 0, file_open = False, file_content = [], dl_delegate = True, download_request = r,
     dl_callbacks = []\<rparr>"

definition CreateHttpDownloader ::
  "bool \<Rightarrow> u16 \<times> u16 \<Rightarrow> HttpDownloaderRequest \<Rightarrow> client_fault + HttpDownloaderImpl HttpConnection" where
  "CreateHttpDownloader ndebug junk r =
    map_sum id (\<lambda>(c, req). HttpConnection_new (downloader_request r) req (HttpDownloaderImpl_new r))
      (CreateHttpClient ndebug junk (downloader_request r))"

text \<open>\<open>NotifyDownloadStart\<close>, \<open>NotifyDownloadProgress\<close>, \<open>NotifyDownloadComplte\<close>; the sizes are converted to
  \<open>int64_t\<close>.\<close>

definition dl_notify :: "dl_callback \<Rightarrow> HttpDownloaderImpl \<Rightarrow> HttpDownloaderImpl" where
  "dl_notify cb d = (if dl_delegate d then d\<lparr>dl_callbacks := dl_callbacks d @ [cb]\<rparr> else d)"

definition NotifyDownloadStart :: "HttpDownloaderImpl \<Rightarrow> HttpDownloaderImpl" where
  "NotifyDownloadStart d = dl_notify OnStartDownload d"

definition NotifyDownloadProgress :: "HttpDownloaderImpl \<Rightarrow> HttpDownloaderImpl" where
  "NotifyDownloadProgress d = dl_notify (OnDownloadProgress (sint (write_size d)) (sint (total_size d))) d"

definition NotifyDownloadComplte :: "int \<Rightarrow> HttpDownloaderImpl \<Rightarrow> HttpDownloaderImpl" where
  "NotifyDownloadComplte code d = dl_notify (OnDownloadComplte code) d"

text \<open>\<open>Cancel\<close> drops the delegate, then cancels the client: the second component of the results of
  the handlers.\<close>

definition downloader_Cancel :: "HttpDownloaderImpl \<Rightarrow> HttpDownloaderImpl \<times> bool" where
  "downloader_Cancel d = (d\<lparr>dl_delegate := False\<rparr>, True)"

definition write_content :: "(string \<Rightarrow> string \<Rightarrow> bool) \<Rightarrow> string \<Rightarrow> HttpDownloaderImpl \<Rightarrow> HttpDownloaderImpl \<times> bool" where
  "write_content write_ok content d =
    (if \<not> write_ok (file_content d) content then downloader_Cancel (NotifyDownloadComplte (-1) d)
     else (NotifyDownloadProgress
             (d\<lparr>file_content := file_content d @ content, write_size := write_size d + word_of_nat (length content)\<rparr>), False))"

definition dl_OnHttpResponse ::
  "(string \<Rightarrow> bool) \<Rightarrow> (string \<Rightarrow> string \<Rightarrow> bool) \<Rightarrow> string \<Rightarrow> HttpDownloaderImpl \<Rightarrow> HttpDownloaderImpl \<times> bool" where
  "dl_OnHttpResponse open_ok write_ok content d =
    (if \<not> file_open d then
       (if \<not> open_ok (dl_path (download_request d)) then downloader_Cancel (NotifyDownloadComplte (-1) d)
        else write_content write_ok content (NotifyDownloadStart (d\<lparr>file_open := True, file_content := []\<rparr>)))
     else write_content write_ok content d)"

text \<open>The client has converted the same text before, so that \<open>lexical_cast\<close> does not throw here.\<close>

definition dl_OnHttpHeads :: "(string \<Rightarrow> u64 option) \<Rightarrow> (string \<times> string) list \<Rightarrow> HttpDownloaderImpl \<Rightarrow> HttpDownloaderImpl" where
  "dl_OnHttpHeads lexical_cast hs d =
    (case map_of hs ''Content-Length'' of
       None \<Rightarrow> d
     | Some v \<Rightarrow> (case lexical_cast v of Some n \<Rightarrow> d\<lparr>total_size := n\<rparr> | None \<Rightarrow> d))"

definition dl_OnHttpComplete :: "nat \<Rightarrow> HttpDownloaderImpl \<Rightarrow> HttpDownloaderImpl" where
  "dl_OnHttpComplete code d = NotifyDownloadComplte (if code = 200 then 0 else -1) (d\<lparr>file_open := False\<rparr>)"

fun downloader ::
  "(string \<Rightarrow> u64 option) \<Rightarrow> (string \<Rightarrow> bool) \<Rightarrow> (string \<Rightarrow> string \<Rightarrow> bool) \<Rightarrow> HttpDownloaderImpl http_dlg" where
  "downloader lexical_cast open_ok write_ok d (OnHttpHeads hs) = (dl_OnHttpHeads lexical_cast hs d, False)"
| "downloader lexical_cast open_ok write_ok d (OnHttpResponse content) = dl_OnHttpResponse open_ok write_ok content d"
| "downloader lexical_cast open_ok write_ok d (OnHttpComplete code) = (dl_OnHttpComplete code d, False)"

text \<open>\<open>Start\<close> and \<open>Cancel\<close> by the owner.\<close>

definition downloader_Start :: "HttpDownloaderImpl HttpConnection \<Rightarrow> HttpDownloaderImpl HttpConnection" where
  "downloader_Start h = http_Request h"

definition owner_Cancel :: "HttpDownloaderImpl HttpConnection \<Rightarrow> HttpDownloaderImpl HttpConnection" where
  "owner_Cancel h = http_Cancel (h\<lparr>dstate := fst (downloader_Cancel (dstate h))\<rparr>)"

lemmas downloader_defs = dl_notify_def NotifyDownloadStart_def NotifyDownloadProgress_def NotifyDownloadComplte_def
  downloader_Cancel_def write_content_def dl_OnHttpResponse_def dl_OnHttpComplete_def

section \<open>The conversion of the length\<close>

text \<open>The client converts the length when it gets the header line, so that the text of every length in its
  table can be converted.\<close>

lemma heads_castable:
  assumes "parser_call lc dlg e h = Inr h'"
    and "\<forall>v. map_of (heads h) ''Content-Length'' = Some v \<longrightarrow> lc v \<noteq> None"
  shows "\<forall>v. map_of (heads h') ''Content-Length'' = Some v \<longrightarrow> lc v \<noteq> None"
  using assms
  by (cases e)
    (auto simp: on_field_def on_finish_def NotifyComplete_def NotifyResponse_def call_delegate_def Let_def update_conv'
      split: if_splits prod.splits option.splits sum.splits)

section \<open>A download\<close>

text \<open>The reports of a download: the start with the first piece, the size after every piece, and the result.\<close>

fun progress :: "u64 \<Rightarrow> u64 \<Rightarrow> string list \<Rightarrow> dl_callback list" where
  "progress tot n [] = []"
| "progress tot n (b # bs) =
    OnDownloadProgress (sint (n + word_of_nat (length b))) (sint tot) # progress tot (n + word_of_nat (length b)) bs"

lemma downloader_quiet: "\<not> snd (downloader lc (\<lambda>_. True) (\<lambda>_ _. True) d cb)"
  by (cases cb) (simp_all add: dl_OnHttpResponse_def write_content_def)

interpretation dl: quiet_delegate "downloader lc (\<lambda>_. True) (\<lambda>_ _. True)" "\<lambda>_. True" for lc
  by unfold_locales (simp_all add: downloader_quiet)

lemma dl_responses:
  assumes "file_open d" "dl_delegate d"
  shows "dl.delegate_calls lc d (map OnHttpResponse bs) =
    d\<lparr>file_content := file_content d @ concat bs, write_size := write_size d + word_of_nat (length (concat bs)),
      dl_callbacks := dl_callbacks d @ progress (total_size d) (write_size d) bs\<rparr>"
  using assms
proof (induction bs arbitrary: d)
  case (Cons b bs)
  then show ?case
    by (simp add: dl.delegate_calls_def downloader_defs add.assoc)
qed (simp add: dl.delegate_calls_def)

definition content_length :: "(string \<Rightarrow> u64 option) \<Rightarrow> (string \<times> string) list \<Rightarrow> u64" where
  "content_length lc hs = (case map_of hs ''Content-Length'' of Some v \<Rightarrow> (case lc v of Some n \<Rightarrow> n | None \<Rightarrow> 0) | None \<Rightarrow> 0)"

lemma dl_heads: "dl_OnHttpHeads lc hs (HttpDownloaderImpl_new r) = (HttpDownloaderImpl_new r)\<lparr>total_size := content_length lc hs\<rparr>"
  by (simp add: dl_OnHttpHeads_def content_length_def HttpDownloaderImpl_new_def split: option.split)

lemma dl_calls:
  assumes "cbs = OnHttpHeads hs # map OnHttpResponse bodies @ [OnHttpComplete code]"
  shows "let d = dl.delegate_calls lc (HttpDownloaderImpl_new r) cbs in
    file_content d = concat bodies \<and> \<not> file_open d \<and>
    dl_callbacks d = (if bodies = [] then [] else OnStartDownload # progress (content_length lc hs) 0 bodies) @
      [OnDownloadComplte (if code = 200 then 0 else -1)]"
proof (cases bodies)
  case Nil
  then show ?thesis
    by (simp add: assms dl.delegate_calls_def dl_heads, simp add: downloader_defs HttpDownloaderImpl_new_def Let_def)
next
  case (Cons b bs)
  let ?d = "\<lparr>total_size = content_length lc hs, write_size = word_of_nat (length b), file_open = True, file_content = b,
    dl_delegate = True, download_request = r,
    dl_callbacks = [OnStartDownload, OnDownloadProgress (sint (word_of_nat (length b) :: u64)) (sint (content_length lc hs))]\<rparr>"
  have "dl.delegate_calls lc (HttpDownloaderImpl_new r) cbs =
      dl_OnHttpComplete code (dl.delegate_calls lc ?d (map OnHttpResponse bs))"
    by (simp add: assms Cons dl.delegate_calls_def dl_heads, simp add: downloader_defs HttpDownloaderImpl_new_def)
  then show ?thesis
    using Cons dl_responses [of ?d lc bs] by (simp add: downloader_defs Let_def)
qed

lemma CreateHttpDownloader_new:
  assumes "CreateHttpDownloader ndebug junk r = Inr h" "dl_proxy_host r = []"
  obtains req where "h = HttpConnection_new (downloader_request r) req (HttpDownloaderImpl_new r)" "proxy_host req = []"
proof -
  obtain c req where "CreateHttpClient ndebug junk (downloader_request r) = Inr (c, req)"
    "h = HttpConnection_new (downloader_request r) req (HttpDownloaderImpl_new r)"
    using assms(1) unfolding CreateHttpDownloader_def
    by (cases "CreateHttpClient ndebug junk (downloader_request r)") auto
  moreover have "proxy_host req = http_proxy_host (downloader_request r)"
    using calculation(1) by (auto simp: CreateHttpClient_def Let_def split: sum.splits)
  ultimately show ?thesis
    using that assms(2) by (simp add: downloader_request_def)
qed


definition example_download :: HttpDownloaderRequest where
  "example_download = \<lparr>dl_url = ''http://a.b/x'', dl_path = ''x'', dl_proxy_host = [], dl_proxy_port = 0,
     dl_proxy_username = [], dl_proxy_passwd = []\<rparr>"

lemma example_download_created:
  "\<exists>h0. CreateHttpDownloader False (0, 0) example_download = Inr h0 \<and> net_type (request (conn h0)) = kNetTypeHttp"
proof -
  have "case CreateHttpDownloader False (0, 0) example_download of
      Inr h0 \<Rightarrow> net_type (request (conn h0)) = kNetTypeHttp | Inl _ \<Rightarrow> False"
    by code_simp
  then show ?thesis
    by (simp split: sum.splits)
qed


text \<open>A download to a file that cannot be opened.  The delegate reports the failure and cancels the client, within
  the call of the client: the client locks again the mutex it holds, and the thread of the connections
  is stuck.\<close>

lemma download_error_relocks:
  assumes "CreateHttpDownloader ndebug junk r = Inr h0" "dl_proxy_host r = []"
    and "net_type (request (conn h0)) = kNetTypeHttp" "lengths_ok lc fs" "\<not> open_ok (dl_path r)"
  shows "http_run v4 v6 lc (downloader lc open_ok write_ok) (connect_events @ response_events code fs (b # bodies))
        (downloader_Start h0) [] = Inl Relock"
proof -
  let ?dlg = "downloader lc open_ok write_ok"
  obtain req where req: "h0 = HttpConnection_new (downloader_request r) req (HttpDownloaderImpl_new r)" "proxy_host req = []"
    using CreateHttpDownloader_new [OF assms(1,2)] .
  have "net_type req = kNetTypeHttp"
    using assms(3) req(1) by (simp add: HttpConnection_new_def NetConnectionImpl_new_def)
  then obtain h1 where h1: "http_run v4 v6 lc ?dlg connect_events (downloader_Start h0) [] = Inr (h1, [Tcp])" "reading_state h1"
    "dstate h1 = HttpDownloaderImpl_new r"
    using connect_run [OF req(2), of v4 v6 lc ?dlg "downloader_request r" "HttpDownloaderImpl_new r"] req(1)
    by (auto simp: downloader_Start_def)
  let ?h2 = "h1\<lparr>http_code := code\<rparr>"
  have "reading_state ?h2"
    using h1(2) by (simp add: reading_state_def)
  from fields_run [OF this assms(4), of v4 v6 ?dlg "[Tcp]"] obtain h3 where
    h3: "http_run v4 v6 lc ?dlg (map (\<lambda>(k, v). Parser (on_field_impl k v)) fs) ?h2 [Tcp] = Inr (h3, [Tcp])" "reading_state h3"
    "dstate h3 = HttpDownloaderImpl_new r"
    using h1(3) by auto
  let ?h4 = "h3\<lparr>dstate := (HttpDownloaderImpl_new r)\<lparr>total_size := content_length lc (heads h3)\<rparr>\<rparr>"
  have "http_exec v4 v6 lc ?dlg (Parser (on_response_impl code)) h1 = Inr ?h2"
    "http_exec v4 v6 lc ?dlg (Parser on_header_impl) h3 = Inr ?h4"
    "http_exec v4 v6 lc ?dlg (Parser (on_body_impl b)) ?h4 = Inl Relock"
    using h1(2) h3(2,3) assms(5)
    by (simp_all add: http_exec_def reading_state_def call_delegate_def dl_heads NotifyResponse_def)
      (simp add: downloader_defs HttpDownloaderImpl_new_def)
  then show ?thesis
    using h1(1) h3(1) by (simp add: http_run_append response_events_def event_layers_def)
qed

end
