(* ===== verification/TlsStreams.thy ===== *)
theory TlsStreams
  imports HttpConnection
begin

text \<open>
  The streams below the connections with TLS: \<open>tcp_client/tcp_tls_connection_impl.cc\<close>,
  \<open>websocket/websocket_tls_connection_impl.cc\<close> and \<open>http/https_client_impl.h\<close> under \<open>src/base/net\<close>.  Each class makes its
  stream in the constructor and hands it to \<open>async_handshake\<close> in \<open>DoTlsHandshake\<close>.  A stream is a record of the
  settings that the code makes on it; what OpenSSL does with them in a handshake is a parameter of the
  theorems, with the documented effect of the settings as hypotheses.
\<close>

section \<open>Contexts and streams\<close>

datatype ssl_method = tlsv12_client | sslv23_client

datatype verify_mode = verify_none | verify_peer

text \<open>A context: its protocol versions, whether the default locations of certificates are used, and the
  certificates added to it.\<close>

record ssl_context =
  ctx_method :: ssl_method
  ctx_default_verify_paths :: bool
  ctx_authorities :: "string list"

text \<open>A stream.  The callback gets the verification result that is stored in the connection so far, and the verdict of
  the library on the certificate at hand.\<close>

record ssl_stream =
  stream_context :: ssl_context
  stream_verify_mode :: verify_mode
  stream_verify_callback :: "(int \<Rightarrow> bool \<Rightarrow> bool) option"
  stream_host_name :: "bytes option"

text \<open>A new stream verifies nothing: the mode of a context is \<open>SSL_VERIFY_NONE\<close> until it is set.\<close>

definition new_ssl_stream :: "ssl_context \<Rightarrow> ssl_stream" where
  "new_ssl_stream ctx =
    \<lparr>stream_context = ctx, stream_verify_mode = verify_none, stream_verify_callback = None, stream_host_name = None\<rparr>"

section \<open>TCP with TLS\<close>

definition TcpTlsConnectionImpl_new :: ssl_stream where
  "TcpTlsConnectionImpl_new =
    new_ssl_stream \<lparr>ctx_method = sslv23_client, ctx_default_verify_paths = True, ctx_authorities = []\<rparr>"

definition X509_V_OK :: int where "X509_V_OK = 0"

text \<open>The callback: \<open>result\<close> is \<open>SSL_get_verify_result\<close> at the time of the call.\<close>

definition VerifyCert :: "int \<Rightarrow> bool \<Rightarrow> bool" where
  "VerifyCert result preverified = (if result = X509_V_OK then True else False)"

definition TcpTls_DoTlsHandshake :: "ssl_stream \<Rightarrow> ssl_stream" where
  "TcpTls_DoTlsHandshake s = s\<lparr>stream_verify_mode := verify_peer, stream_verify_callback := Some VerifyCert\<rparr>"

section \<open>WebSocket with TLS\<close>

text \<open>The text of the certificates, line by line.\<close>

definition digicert_lines :: "string list" where
  "digicert_lines = [
   ''-----BEGIN CERTIFICATE-----'',
   ''MIIDrzCCApegAwIBAgIQCDvgVpBCRrGhdWrJWZHHSjANBgkqhkiG9w0BAQUFADBh'',
   ''MQswCQYDVQQGEwJVUzEVMBMGA1UEChMMRGlnaUNlcnQgSW5jMRkwFwYDVQQLExB3'',
   ''d3cuZGlnaWNlcnQuY29tMSAwHgYDVQQDExdEaWdpQ2VydCBHbG9iYWwgUm9vdCBD'',
   ''QTAeFw0wNjExMTAwMDAwMDBaFw0zMTExMTAwMDAwMDBaMGExCzAJBgNVBAYTAlVT'',
   ''MRUwEwYDVQQKEwxEaWdpQ2VydCBJbmMxGTAXBgNVBAsTEHd3dy5kaWdpY2VydC5j'',
   ''b20xIDAeBgNVBAMTF0RpZ2lDZXJ0IEdsb2JhbCBSb290IENBMIIBIjANBgkqhkiG'',
   ''9w0BAQEFAAOCAQ8AMIIBCgKCAQEA4jvhEXLeqKTTo1eqUKKPC3eQyaKl7hLOllsB'',
   ''CSDMAZOnTjC3U/dDxGkAV53ijSLdhwZAAIEJzs4bg7/fzTtxRuLWZscFs3YnFo97'',
   ''nh6Vfe63SKMI2tavegw5BmV/Sl0fvBf4q77uKNd0f3p4mVmFaG5cIzJLv07A6Fpt'',
   ''43C/dxC//AH2hdmoRBBYMql1GNXRor5H4idq9Joz+EkIYIvUX7Q6hL+hqkpMfT7P'',
   ''T19sdl6gSzeRntwi5m3OFBqOasv+zbMUZBfHWymeMr/y7vrTC0LUq7dBMtoM1O/4'',
   ''gdW7jVg/tRvoSSiicNoxBN33shbyTApOB6jtSj1etX+jkMOvJwIDAQABo2MwYTAO'',
   ''BgNVHQ8BAf8EBAMCAYYwDwYDVR0TAQH/BAUwAwEB/zAdBgNVHQ4EFgQUA95QNVbR'',
   ''TLtm8KPiGxvDl7I90VUwHwYDVR0jBBgwFoAUA95QNVbRTLtm8KPiGxvDl7I90VUw'',
   ''DQYJKoZIhvcNAQEFBQADggEBAMucN6pIExIK+t1EnE9SsPTfrgT1eXkIoyQY/Esr'',
   ''hMAtudXH/vTBH1jLuG2cenTnmCmrEbXjcKChzUyImZOMkXDiqw8cvpOp/2PV5Adg'',
   ''06O/nVsJ8dWO41P0jmP6P6fbtGbfYmbW0W5BjfIttep3Sp+dWOIrWcBAI+0tKIJF'',
   ''PnlUkiaY4IBIqDfv8NZ5YBberOgOzW6sRBc4L0na4UU+Krk2U886UAb3LujEV0ls'',
   ''YSEY1QSteDwsOoBrp+uvFRTp2InBuThs4pFsiv9kuXclVzDAGySj4dzp30d8tbQk'',
   ''CAUw7C29C79Fv1C5qfPrmAESrciIxpg0X40KPMbp1ZWVbd4='',
   ''-----END CERTIFICATE-----'']"

definition geotrust_lines :: "string list" where
  "geotrust_lines = [
   ''-----BEGIN CERTIFICATE-----'',
   ''MIIDaDCCAlCgAwIBAgIJAO8vBu8i8exWMA0GCSqGSIb3DQEBCwUAMEkxCzAJBgNV'',
   ''BAYTAlVTMQswCQYDVQQIDAJDQTEtMCsGA1UEBwwkTG9zIEFuZ2VsZXNPPUJlYXN0'',
   ''Q049d3d3LmV4YW1wbGUuY29tMB4XDTE3MDUwMzE4MzkxMloXDTQ0MDkxODE4Mzkx'',
   ''MlowSTELMAkGA1UEBhMCVVMxCzAJBgNVBAgMAkNBMS0wKwYDVQQHDCRMb3MgQW5n'',
   ''ZWxlc089QmVhc3RDTj13d3cuZXhhbXBsZS5jb20wggEiMA0GCSqGSIb3DQEBAQUA'',
   ''A4IBDwAwggEKAoIBAQDJ7BRKFO8fqmsEXw8v9YOVXyrQVsVbjSSGEs4Vzs4cJgcF'',
   ''xqGitbnLIrOgiJpRAPLy5MNcAXE1strVGfdEf7xMYSZ/4wOrxUyVw/Ltgsft8m7b'',
   ''Fu8TsCzO6XrxpnVtWk506YZ7ToTa5UjHfBi2+pWTxbpN12UhiZNUcrRsqTFW+6fO'',
   ''9d7xm5wlaZG8cMdg0cO1bhkz45JSl3wWKIES7t3EfKePZbNlQ5hPy7Pd5JTmdGBp'',
   ''yY8anC8u4LPbmgW0/U31PH0rRVfGcBbZsAoQw5Tc5dnb6N2GEIbq3ehSfdDHGnrv'',
   ''enu2tOK9Qx6GEzXh3sekZkxcgh+NlIxCNxu//Dk9AgMBAAGjUzBRMB0GA1UdDgQW'',
   ''BBTZh0N9Ne1OD7GBGJYz4PNESHuXezAfBgNVHSMEGDAWgBTZh0N9Ne1OD7GBGJYz'',
   ''4PNESHuXezAPBgNVHRMBAf8EBTADAQH/MA0GCSqGSIb3DQEBCwUAA4IBAQCmTJVT'',
   ''LH5Cru1vXtzb3N9dyolcVH82xFVwPewArchgq+CEkajOU9bnzCqvhM4CryBb4cUs'',
   ''gqXWp85hAh55uBOqXb2yyESEleMCJEiVTwm/m26FdONvEGptsiCmF5Gxi0YRtn8N'',
   ''V+KhrQaAyLrLdPYI7TrwAOisq2I1cD0mt+xgwuv/654Rl3IhOMx+fKWKJ9qLAiaE'',
   ''fQyshjlPP9mYVxWOxqctUdQ8UnsUKKGEUcVrA08i1OAnVKlPFjKBvk+r7jpsTPcr'',
   ''9pWXTO9JrYMML7d+XRSZA1n3856OqZDX4403+9FnXCvfcLZLLKTBvwwFgEFGpzjK'',
   ''UEVbkhd5qstF6qWK'',
   ''-----END CERTIFICATE-----'']"

definition load_root_certificates :: "ssl_context \<Rightarrow> ssl_context" where
  "load_root_certificates ctx =
    (let cert = concat (map (\<lambda>l. l @ [CHR 0x0A]) (digicert_lines @ geotrust_lines))
     in ctx\<lparr>ctx_authorities := ctx_authorities ctx @ [cert]\<rparr>)"

text \<open>The static context, and what the constructor does with it: the first object loads the certificates.\<close>

definition s_ssl_context :: ssl_context where
  "s_ssl_context = \<lparr>ctx_method = tlsv12_client, ctx_default_verify_paths = False, ctx_authorities = []\<rparr>"

definition WebsocketTlsConnectionImpl_new :: "bool \<times> ssl_context \<Rightarrow> ssl_stream \<times> bool \<times> ssl_context" where
  "WebsocketTlsConnectionImpl_new = (\<lambda>(called, ctx).
    let ctx = (if called then ctx else load_root_certificates ctx) in (new_ssl_stream ctx, True, ctx))"

definition Wss_DoTlsHandshake :: "ssl_stream \<Rightarrow> ssl_stream" where
  "Wss_DoTlsHandshake s = s"

section \<open>HTTPS\<close>

definition HttpsClientImpl_new :: "bool \<times> ssl_context \<Rightarrow> ssl_stream \<times> bool \<times> ssl_context" where
  "HttpsClientImpl_new = (\<lambda>(called, ctx).
    let ctx = (if called then ctx else ctx\<lparr>ctx_default_verify_paths := True\<rparr>) in (new_ssl_stream ctx, True, ctx))"

definition https_ssl_context :: ssl_context where
  "https_ssl_context = \<lparr>ctx_method = sslv23_client, ctx_default_verify_paths = False, ctx_authorities = []\<rparr>"

text \<open>\<open>DoConnect\<close>: \<open>set_host_name\<close> says whether \<open>SSL_set_tlsext_host_name\<close> takes the name, and \<open>err\<close> is \<open>ERR_get_error()\<close>.  If it does
  not, the connection is told so as if connecting had failed.\<close>

definition Https_DoConnect ::
  "(bytes \<Rightarrow> bytes option) \<Rightarrow> (bytes \<Rightarrow> bytes option) \<Rightarrow> (bytes \<Rightarrow> bool) \<Rightarrow> int \<Rightarrow> ssl_stream \<times> NetConnectionImpl \<Rightarrow>
   ssl_stream \<times> NetConnectionImpl" where
  "Https_DoConnect v4 v6 set_host_name err = (\<lambda>(s, c).
    if \<not> set_host_name (host (request c)) then (s, NotifyConnectComplete v4 v6 err c)
    else (s\<lparr>stream_host_name := Some (host (request c))\<rparr>, DoConnect c))"

definition Https_DoTlsHandshake :: "ssl_stream \<Rightarrow> ssl_stream" where
  "Https_DoTlsHandshake s = s"

text \<open>The calls on the socket that \<open>DoCleanUp\<close> of each class makes.\<close>

datatype socket_call = Socket_shutdown_both | Socket_close | Websocket_close

primrec cleanup_calls :: "connection_class \<Rightarrow> socket_call list" where
  "cleanup_calls TcpConnectionImpl = [Socket_shutdown_both, Socket_close]"
| "cleanup_calls TcpTlsConnectionImpl = [Socket_shutdown_both, Socket_close]"
| "cleanup_calls WebsocketConnectionImpl = [Websocket_close]"
| "cleanup_calls WebsocketTlsConnectionImpl = [Websocket_close]"
| "cleanup_calls HttpClientImpl = [Socket_shutdown_both]"
| "cleanup_calls HttpsClientImpl = [Socket_shutdown_both]"

section \<open>The handshake\<close>

text \<open>The stream that a connection of a class hands to the library; \<open>ctxs\<close> are the static contexts of the two classes that
  have one, with the flags of their \<open>call_once\<close>.\<close>

fun handshake_stream ::
  "connection_class \<Rightarrow> bytes \<Rightarrow> (bool \<times> ssl_context) \<times> bool \<times> ssl_context \<Rightarrow> ssl_stream option" where
  "handshake_stream TcpTlsConnectionImpl h ctxs = Some (TcpTls_DoTlsHandshake TcpTlsConnectionImpl_new)"
| "handshake_stream WebsocketTlsConnectionImpl h ctxs =
    Some (Wss_DoTlsHandshake (fst (WebsocketTlsConnectionImpl_new (fst ctxs))))"
| "handshake_stream HttpsClientImpl h ctxs =
    Some (Https_DoTlsHandshake ((fst (HttpsClientImpl_new (snd ctxs)))\<lparr>stream_host_name := Some h\<rparr>))"
| "handshake_stream _ h ctxs = None"

text \<open>The class for each kind of connection.\<close>

primrec class_of :: "NetType \<Rightarrow> connection_class" where
  "class_of kNetTypeTcp = TcpConnectionImpl"
| "class_of kNetTypeTcpTls = TcpTlsConnectionImpl"
| "class_of kNetTypeWebsocket = WebsocketConnectionImpl"
| "class_of kNetTypeWebsocketTls = WebsocketTlsConnectionImpl"
| "class_of kNetTypeHttp = HttpClientImpl"
| "class_of kNetTypeHttps = HttpsClientImpl"

lemma class_of_factories:
  "CreateTcpClient r = Some (k, r') \<Longrightarrow> k = class_of (net_type r')"
  "CreateWebsocket r = Some (k, r') \<Longrightarrow> k = class_of (net_type r')"
  by (auto simp: CreateTcpClient_def CreateWebsocket_def Let_def split: NetType.splits)

lemma handshake_stream_uses_tls: "handshake_stream (class_of (net_type r)) h ctxs \<noteq> None \<longleftrightarrow> uses_tls r"
  by (cases "net_type r") (simp_all add: uses_tls_def)

text \<open>What the library makes of a stream and a peer: the error code of \<open>async_handshake\<close>, the verdicts on the
  certificates of the peer, in the order in which the callback is asked, and the error code there would be without
  certificates.  The two hypotheses are the documented meaning of \<open>SSL_VERIFY_NONE\<close> and of a verification callback
  that returns 1; the result stored in a new connection is \<open>X509_V_OK\<close> until the chain has been verified.\<close>

definition none_continues :: "(ssl_stream \<Rightarrow> 'p \<Rightarrow> int) \<Rightarrow> ('p \<Rightarrow> int) \<Rightarrow> bool" where
  "none_continues handshake exchange \<longleftrightarrow>
    (\<forall>s p. stream_verify_mode s = verify_none \<longrightarrow> handshake s p = exchange p)"

definition callback_decides ::
  "(ssl_stream \<Rightarrow> 'p \<Rightarrow> int) \<Rightarrow> ('p \<Rightarrow> int) \<Rightarrow> (ssl_stream \<Rightarrow> 'p \<Rightarrow> bool list) \<Rightarrow> bool" where
  "callback_decides handshake exchange verdicts \<longleftrightarrow>
    (\<forall>s p f. stream_verify_mode s = verify_peer \<longrightarrow> stream_verify_callback s = Some f \<longrightarrow>
      (handshake s p = exchange p \<or> (\<exists>ok \<in> set (verdicts s p). \<not> f X509_V_OK ok)))"

lemma handshake_ignores_verdicts:
  assumes "none_continues handshake exchange" "callback_decides handshake exchange verdicts"
    and "handshake_stream k h ctxs = Some s"
  shows "handshake s p = exchange p"
proof (cases "k = TcpTlsConnectionImpl")
  case True
  then have s: "stream_verify_mode s = verify_peer" "stream_verify_callback s = Some VerifyCert"
    using assms(3) by (auto simp: TcpTls_DoTlsHandshake_def)
  have "VerifyCert X509_V_OK ok" for ok
    by (simp add: VerifyCert_def)
  then show ?thesis
    using assms(2) s unfolding callback_decides_def by blast
next
  case False
  then have "stream_verify_mode s = verify_none"
    using assms(3)
    by (cases k) (auto simp: Wss_DoTlsHandshake_def Https_DoTlsHandshake_def WebsocketTlsConnectionImpl_new_def
        HttpsClientImpl_new_def new_ssl_stream_def Let_def split_beta)
  then show ?thesis
    using assms(1) by (simp add: none_continues_def)
qed


text \<open>An HTTPS request on its way to the handshake, and a library whose peers are the verdict on their only certificate.\<close>

definition secure_request :: NetConnectionRequest where
  "secure_request = plain_request\<lparr>net_type := kNetTypeHttps\<rparr>"

abbreviation secure_conn :: "task list \<Rightarrow> DnsResolverImpl option \<Rightarrow> pending \<Rightarrow> NetConnectionImpl" where
  "secure_conn ts d p \<equiv> (plain_conn ts d p [] [] [] False)\<lparr>request := secure_request\<rparr>"

lemma secure_handshaking:
  "conn_run v4 v6 secure_request (secure_conn [Task_DoCancel] None (no_pending\<lparr>tls_handshaking := 1\<rparr>), [], [Tcp])"
proof -
  have "conn_run v4 v6 secure_request (secure_conn [Task_DoDnsResolve] None no_pending, [], [])"
    using conn_run.start [of v4 v6 secure_request] by (simp add: Connect_def NetConnectionImpl_new_def NetConnection.PostRunable_def)
  from conn_run.step [OF this conn_step.run]
  have "conn_run v4 v6 secure_request (secure_conn [Task_DoResolver] (Some plain_resolver) no_pending, [], [])"
    by (simp add: DoDnsResolve_def CreateDnsResolver_def dns_Resolver_def NetConnection.PostRunable_def secure_request_def plain_request_def)
  from conn_run.step [OF this conn_step.run]
  have "conn_run v4 v6 secure_request (secure_conn [] (Some plain_resolver) (no_pending\<lparr>resolving := 1\<rparr>), [], [])"
    by (simp add: upd_pending_def no_pending_def)
  from conn_run.step [OF this conn_step.resolved [where ec = 0]]
  have "conn_run v4 v6 secure_request (secure_conn [Task_DoCancel] None (no_pending\<lparr>connecting := 1\<rparr>), [], [])"
    by (simp add: NotifyResult_def OnDnsResolvered_def dns_Cancel_def DoConnect_def NetConnection.PostRunable_def upd_pending_def no_pending_def)
  from conn_run.step [OF this conn_step.connected [where ec = 0]] show ?thesis
    by (simp add: NotifyConnectComplete_def DoOtherHandshake_def DoTlsHandshake_def upd_pending_def no_pending_def layer_done_def
        secure_request_def plain_request_def)
qed

definition verdict_handshake :: "ssl_stream \<Rightarrow> bool \<Rightarrow> int" where
  "verdict_handshake s ok =
    (if stream_verify_mode s = verify_none then 0
     else case stream_verify_callback s of None \<Rightarrow> (if ok then 0 else 1) | Some f \<Rightarrow> (if f X509_V_OK ok then 0 else 1))"


section \<open>The host name\<close>

text \<open>A name that the library refuses ends the connection with its error code, and nothing is connected; a name it takes is
  that of the request.\<close>

lemma Https_DoConnect_name:
  assumes "Https_DoConnect v4 v6 set_host_name err (s, c) = (s', c')"
  shows "set_host_name (host (request c)) \<Longrightarrow> stream_host_name s' = Some (host (request c)) \<and> c' = DoConnect c"
    and "\<not> set_host_name (host (request c)) \<Longrightarrow> err \<noteq> 0 \<Longrightarrow>
      s' = s \<and> c' = HandleConnectStatus err (HandleCleanUp c) \<and> connecting (pending c') = connecting (pending c)"
  using assms
  by (auto simp: Https_DoConnect_def NotifyConnectComplete_def HandleConnectStatus_def notify_def HandleCleanUp_def DoCleanUp_def
      dns_Cancel_def NetConnection.PostRunable_def Let_def split: if_splits option.splits)

text \<open>The clean-up of HTTP connections leaves the socket to the destructor of the stream.\<close>

lemma cleanup_closes: "Socket_close \<in> set (cleanup_calls k) \<or> Websocket_close \<in> set (cleanup_calls k) \<longleftrightarrow> k \<notin> {HttpClientImpl, HttpsClientImpl}"
  by (cases k) simp_all

end
