(* ===== verification/StringUtil.thy ===== *)
theory StringUtil
  imports Prelude
begin

text \<open>
  The string functions of \<open>src/base/string_util.cc\<close>: hexadecimal and URL encoding and the two
  \<open>Split\<close> functions.  The loops write into buffers at explicit indices, as the source does;
  the lengths go through the same conversions to \<open>int32_t\<close> and \<open>unsigned int\<close>.

  \<open>boost::split\<close> is the parameter \<open>boost_split\<close> of \<open>Split\<close>.  The character set conversions
  of the Windows build only call \<open>boost::locale\<close> and are not modelled.
\<close>

section \<open>Conversions between integer types\<close>

definition to_int32 :: "nat \<Rightarrow> int" where
  "to_int32 n = (int n + 2 ^ 31) mod 2 ^ 32 - 2 ^ 31"

definition to_uint32 :: "nat \<Rightarrow> nat" where
  "to_uint32 n = n mod 2 ^ 32"

definition to_size_t :: "int \<Rightarrow> nat" where
  "to_size_t i = nat (i mod 2 ^ 64)"

section \<open>Bytes to hexadecimal digits\<close>

definition s_hex_data_map :: string where
  "s_hex_data_map = ''0123456789ABCDEF''"

text \<open>\<open>byte_to_hex(data, buff + off, len)\<close> on the buffer \<open>buff\<close>; the pointer is never null.\<close>

definition byte_to_hex :: "u8 \<Rightarrow> string \<Rightarrow> nat \<Rightarrow> int \<Rightarrow> bool \<times> string" where
  "byte_to_hex d buff off len =
    (if len < 2 then (False, buff)
     else let h1 = drop_bit 4 (d AND 0xF0); h2 = d AND 0xF
       in (True, buff[off := s_hex_data_map ! unat h1, off + 1 := s_hex_data_map ! unat h2]))"

fun bin_to_hex_loop :: "string \<Rightarrow> nat \<Rightarrow> string \<Rightarrow> string" where
  "bin_to_hex_loop [] i buff = buff"
| "bin_to_hex_loop (c # cs) i buff =
    bin_to_hex_loop cs (i + 1) (snd (byte_to_hex (byte_of c) buff (i * 2) 2))"

text \<open>The function on a pointer and a length.  \<open>None\<close>: the length is negative, and the
  constructor of \<open>result\<close> throws, or \<open>len * 2\<close> overflows.\<close>

definition BinToHex_ptr :: "string \<Rightarrow> int \<Rightarrow> string option" where
  "BinToHex_ptr bin len =
    (if len < 0 \<or> 2 ^ 31 \<le> len * 2 then None
     else Some (bin_to_hex_loop (take (nat len) bin) 0 (replicate (nat (len * 2)) CHR ''*'')))"

definition BinToHex :: "string \<Rightarrow> string option" where
  "BinToHex bin = BinToHex_ptr bin (to_int32 (length bin))"

section \<open>Hexadecimal digits to bytes\<close>

definition hex_to_int :: "char \<Rightarrow> int" where
  "hex_to_int c =
    (if c \<ge> CHR ''0'' \<and> c \<le> CHR ''9'' then of_char c - of_char CHR ''0''
     else if c \<ge> CHR ''A'' \<and> c \<le> CHR ''F'' then of_char c - of_char CHR ''A'' + 10
     else if c \<ge> CHR ''a'' \<and> c \<le> CHR ''f'' then of_char c - of_char CHR ''a'' + 10
     else -1)"

text \<open>The loop of \<open>hex_string_to_bytes\<close> from index \<open>i\<close> on, with \<open>k\<close> bytes left;
  \<open>None\<close> is the return value \<open>-1\<close>.\<close>

fun hex_to_bytes_loop :: "string \<Rightarrow> nat \<Rightarrow> nat \<Rightarrow> string \<Rightarrow> string option" where
  "hex_to_bytes_loop hex i 0 buffer = Some buffer"
| "hex_to_bytes_loop hex i (Suc k) buffer =
    (let h1 = hex_to_int (hex ! (i * 2)) in
     if h1 < 0 then None
     else let h2 = hex_to_int (hex ! (i * 2 + 1)) in
       if h2 < 0 then None
       else hex_to_bytes_loop hex (i + 1) k
              (buffer[i := char_of_byte (of_int (push_bit 4 h1 OR h2))]))"

definition hex_string_to_bytes :: "string \<Rightarrow> nat \<Rightarrow> string \<Rightarrow> nat \<Rightarrow> int \<times> string" where
  "hex_string_to_bytes hex hex_len buffer buffer_len =
    (if hex_len mod 2 \<noteq> 0 then (-1, buffer)
     else let nbytes = hex_len div 2 in
       if buffer_len < nbytes then (-1, buffer)
       else case hex_to_bytes_loop hex 0 nbytes buffer of
         None \<Rightarrow> (-1, buffer) | Some b \<Rightarrow> (to_int32 nbytes, b))"

definition HexToBin :: "string \<Rightarrow> string" where
  "HexToBin hex =
    (let ret = replicate (length hex div 2) NUL;
         (len, ret) = hex_string_to_bytes hex (to_uint32 (length hex)) ret (to_uint32 (length ret))
     in if len = -1 then [] else take (nat len) ret)"

section \<open>URL encoding\<close>

definition s_hex_data_map3 :: string where
  "s_hex_data_map3 = ''0123456789abcdef''"

text \<open>\<open>isalnum\<close> of the C library in the C locale.\<close>

definition isalnum :: "char \<Rightarrow> bool" where
  "isalnum c \<longleftrightarrow> CHR ''0'' \<le> c \<and> c \<le> CHR ''9'' \<or> CHR ''A'' \<le> c \<and> c \<le> CHR ''Z'' \<or>
    CHR ''a'' \<le> c \<and> c \<le> CHR ''z''"

definition url_encode_char :: "char \<Rightarrow> string" where
  "url_encode_char c =
    (if isalnum c \<or> c = CHR ''.'' \<or> c = CHR ''~'' then [c]
     else if c = SP then ''+''
     else let b = byte_of c in
       [CHR ''%'', s_hex_data_map3 ! unat (drop_bit 4 b AND 15), s_hex_data_map3 ! unat (b AND 15)])"

fun url_encode_loop :: "string \<Rightarrow> string \<Rightarrow> string" where
  "url_encode_loop result [] = result"
| "url_encode_loop result (c # cs) = url_encode_loop (result @ url_encode_char c) cs"

definition URLEncode :: "string \<Rightarrow> string" where
  "URLEncode str = url_encode_loop [] str"

section \<open>Splitting\<close>

text \<open>The loop that erases the empty strings from \<open>split_strings\<close>, at index \<open>i\<close>.\<close>

function erase_empty :: "nat \<Rightarrow> string list \<Rightarrow> string list" where
  "erase_empty i v =
    (if i < length v then
       (if v ! i = [] then erase_empty i (take i v @ drop (Suc i) v) else erase_empty (Suc i) v)
     else v)"
  by pat_completeness auto
termination
  by (relation "measure (\<lambda>(i, v). length v - i)") auto

declare erase_empty.simps [simp del]

definition Split :: "(string \<Rightarrow> (char \<Rightarrow> bool) \<Rightarrow> string list) \<Rightarrow> string \<Rightarrow> string \<Rightarrow> bool \<Rightarrow> string list" where
  "Split boost_split src token allow_empty =
    (let split_strings = boost_split src (\<lambda>c. c \<in> set token)
     in if \<not> allow_empty then erase_empty 0 split_strings else split_strings)"

text \<open>\<open>std::string::substr\<close>; \<open>None\<close> is the exception \<open>out_of_range\<close>.  In
  \<open>Split_lengths\<close> it also stands for the overflow of \<open>first_length + second_length\<close>.\<close>

definition substr :: "string \<Rightarrow> nat \<Rightarrow> nat \<Rightarrow> string option" where
  "substr s pos n = (if pos > length s then None else Some (take n (drop pos s)))"

definition Split_lengths :: "string \<Rightarrow> int \<Rightarrow> int \<Rightarrow> int \<Rightarrow> string list option" where
  "Split_lengths input first_length second_length third_length =
    (case substr input 0 (to_size_t first_length) of
       None \<Rightarrow> None
     | Some a \<Rightarrow> (case substr input (to_size_t first_length) (to_size_t second_length) of
         None \<Rightarrow> None
       | Some b \<Rightarrow>
           if third_length > -1 then
             (if first_length + second_length < - (2 ^ 31) \<or> 2 ^ 31 \<le> first_length + second_length then None
              else case substr input (to_size_t (first_length + second_length)) (to_size_t third_length) of
                None \<Rightarrow> None | Some c \<Rightarrow> Some [a, b, c])
           else Some [a, b]))"

section \<open>Codes that write each character on its own\<close>

text \<open>An encoding that writes characters one after the other can be decoded if a reader gets the
  next character and the rest back from any text that starts with a code word.\<close>

locale char_code =
  fixes enc :: "char \<Rightarrow> string" and dec :: "string \<Rightarrow> (char \<times> string) option"
  assumes dec_enc: "dec (enc c @ r) = Some (c, r)"
    and dec_empty: "dec [] = None"
begin

fun dec_all :: "nat \<Rightarrow> string \<Rightarrow> string option" where
  "dec_all n [] = Some []"
| "dec_all 0 (x # xs) = None"
| "dec_all (Suc n) (x # xs) =
    (case dec (x # xs) of None \<Rightarrow> None | Some (c, r) \<Rightarrow> map_option ((#) c) (dec_all n r))"

lemma enc_nonempty: "enc c \<noteq> []"
  using dec_enc [of c "[]"] dec_empty by auto

lemma dec_all_step: "dec (x # xs) = Some (c, r) \<Longrightarrow> dec_all (Suc m) (x # xs) = map_option ((#) c) (dec_all m r)"
  by simp

lemma dec_all_enc_step: "enc c @ r = x # xs \<Longrightarrow> dec_all (Suc m) (x # xs) = map_option ((#) c) (dec_all m r)"
  by (rule dec_all_step) (metis dec_enc)

lemma dec_all_enc: "length s \<le> n \<Longrightarrow> dec_all n (concat (map enc s)) = Some s"
proof (induction s arbitrary: n)
  case (Cons c s)
  obtain m where m: "n = Suc m"
    using Cons.prems by (cases n) auto
  obtain x xs where x: "enc c @ concat (map enc s) = x # xs"
    using enc_nonempty [of c] by (cases "enc c @ concat (map enc s)") simp_all
  have 3: "dec_all m (concat (map enc s)) = Some s"
    using Cons m by simp
  have "dec_all n (concat (map enc (c # s))) = dec_all (Suc m) (x # xs)"
    using x m by simp
  also have "\<dots> = Some (c # s)"
    using dec_all_enc_step [OF x] 3 by simp
  finally show ?case .
qed simp

lemma concat_enc_inject: "concat (map enc s) = concat (map enc t) \<longleftrightarrow> s = t"
  by (metis dec_all_enc max.cobounded1 max.cobounded2 option.inject)

end

section \<open>Hexadecimal code\<close>

definition hex_enc :: "char \<Rightarrow> string" where
  "hex_enc c = (let d = byte_of c in
    [s_hex_data_map ! unat (drop_bit 4 (d AND 0xF0)), s_hex_data_map ! unat (d AND 0xF)])"

definition hex_pair :: "char \<Rightarrow> char \<Rightarrow> char option" where
  "hex_pair a b =
    (if hex_to_int a < 0 \<or> hex_to_int b < 0 then None
     else Some (char_of_byte (of_int (push_bit 4 (hex_to_int a) OR hex_to_int b))))"

fun hex_dec :: "string \<Rightarrow> (char \<times> string) option" where
  "hex_dec (a # b # r) = map_option (\<lambda>c. (c, r)) (hex_pair a b)"
| "hex_dec _ = None"

text \<open>The two digits are those of the quotient and the remainder of the byte by 16.\<close>

lemma hex_enc_div: "hex_enc c = [s_hex_data_map ! (of_char c div 16), s_hex_data_map ! (of_char c mod 16)]"
proof -
  have "(of_char c :: nat) div 16 mod 16 = of_char c div 16"
    by (intro mod_less less_mult_imp_div_less) simp
  then show ?thesis
    by (simp add: hex_enc_def)
qed

lemma nibbles_to_byte:
  assumes "0 \<le> a" "a < 16" "0 \<le> b" "b < 16"
  shows "unat (of_int (push_bit 4 a OR b) :: u8) = nat (a * 16 + b)"
proof -
  have "take_bit 4 b = b"
    using assms by (simp add: take_bit_int_eq_self_iff)
  then have "push_bit 4 a OR b = a * 16 + b"
    using concat_bit_eq [of 4 b a] concat_bit_def [of 4 b a]
    by (simp add: push_bit_eq_mult or.commute)
  moreover have "take_bit 8 (a * 16 + b) = a * 16 + b"
    using assms by (simp add: take_bit_int_eq_self_iff)
  ultimately show ?thesis
    by (simp only: unsigned_of_int) simp
qed

lemma hex_to_int_digit: "0 \<le> hex_to_int c \<Longrightarrow> c \<in> set ''0123456789ABCDEFabcdef''"
proof (cases c)
  case (Char b0 b1 b2 b3 b4 b5 b6 b7)
  then show "0 \<le> hex_to_int c \<Longrightarrow> c \<in> set ''0123456789ABCDEFabcdef''"
    by (cases b0; cases b1; cases b2; cases b3; cases b4; cases b5; cases b6; cases b7)
      (simp_all add: hex_to_int_def)
qed

definition hex_upper :: "char \<Rightarrow> char" where
  "hex_upper c = (if CHR ''a'' \<le> c \<and> c \<le> CHR ''f'' then char_of (of_char c - 32 :: nat) else c)"

lemma hex_to_int_map: "d < 16 \<Longrightarrow> hex_to_int (s_hex_data_map ! d) = int d"
proof -
  have "list_all (\<lambda>d. hex_to_int (s_hex_data_map ! d) = int d) [0..<16]"
    by code_simp
  then show "d < 16 \<Longrightarrow> ?thesis"
    by (simp add: list_all_iff)
qed

lemma hex_map_upper: "0 \<le> hex_to_int c \<Longrightarrow> hex_to_int c < 16 \<and> s_hex_data_map ! nat (hex_to_int c) = hex_upper c"
proof -
  have "list_all (\<lambda>c. hex_to_int c < 16 \<and> s_hex_data_map ! nat (hex_to_int c) = hex_upper c) ''0123456789ABCDEFabcdef''"
    by code_simp
  then show "0 \<le> hex_to_int c \<Longrightarrow> ?thesis"
    using hex_to_int_digit [of c] unfolding list_all_iff by blast
qed

lemma hex_pair_Some:
  assumes "0 \<le> hex_to_int a" "0 \<le> hex_to_int b"
  shows "\<exists>c. hex_pair a b = Some c \<and> (of_char c :: nat) = nat (hex_to_int a * 16 + hex_to_int b)"
proof -
  let ?b = "of_int (push_bit 4 (hex_to_int a) OR hex_to_int b) :: u8"
  have "(of_char (char_of_byte ?b) :: nat) = unat ?b"
    using unat_byte_of [of "char_of_byte ?b"] by simp
  then show ?thesis
    using assms hex_map_upper [of a] hex_map_upper [of b] nibbles_to_byte [of "hex_to_int a" "hex_to_int b"]
    by (simp add: hex_pair_def)
qed

lemma hex_pair_upper:
  assumes "hex_pair a b = Some c"
  shows "hex_enc c = [hex_upper a, hex_upper b]"
proof -
  have ab: "0 \<le> hex_to_int a" "0 \<le> hex_to_int b"
    using assms by (auto simp: hex_pair_def split: if_splits)
  let ?x = "nat (hex_to_int a)" and ?y = "nat (hex_to_int b)"
  have "(of_char c :: nat) = ?x * 16 + ?y" "?y < 16"
    using hex_pair_Some [OF ab] hex_map_upper [OF ab(2)] assms ab by auto
  then show ?thesis
    using hex_map_upper [OF ab(1)] hex_map_upper [OF ab(2)] by (simp add: hex_enc_div)
qed

lemma hex_pair_digits:
  assumes "hex_to_int a = int (of_char c div 16)" "hex_to_int b = int (of_char c mod 16)"
  shows "hex_pair a b = Some c"
  using hex_pair_Some [of a b] unfolding assms by (auto simp: nat_add_distrib nat_mult_distrib)

lemma of_char_nibbles: "(of_char c :: nat) div 16 < 16" "(of_char c :: nat) mod 16 < 16"
  by (auto intro: less_mult_imp_div_less)

lemma hex_pair_enc: "hex_pair (s_hex_data_map ! (of_char c div 16)) (s_hex_data_map ! (of_char c mod 16)) = Some c"
  using of_char_nibbles [of c] by (intro hex_pair_digits hex_to_int_map)

interpretation hex_code: char_code hex_enc hex_dec
  using hex_pair_enc by unfold_locales (simp_all add: hex_enc_div)

lemma take_update_pair:
  "Suc n < length xs \<Longrightarrow> take (Suc (Suc n)) (xs[n := a, Suc n := b]) = take n xs @ [a, b]"
  by (simp add: take_Suc_conv_app_nth)

lemma bin_to_hex_loop_enc:
  "length buff = 2 * (i + length cs) \<Longrightarrow> bin_to_hex_loop cs i buff = take (2 * i) buff @ concat (map hex_enc cs)"
proof (induction cs arbitrary: i buff)
  case (Cons c cs)
  have "Suc (2 * i) < length buff"
    using Cons.prems by simp
  note pair = take_update_pair [OF this]
  show ?case
    using Cons by (simp add: byte_to_hex_def hex_enc_def Let_def mult.commute [of i] pair)
qed simp

fun hex_decode :: "string \<Rightarrow> string option" where
  "hex_decode [] = Some []"
| "hex_decode [a] = None"
| "hex_decode (a # b # r) =
    (case hex_pair a b of None \<Rightarrow> None | Some c \<Rightarrow> map_option ((#) c) (hex_decode r))"

lemma hex_decode_enc: "hex_decode (concat (map hex_enc s)) = Some s"
  by (induction s) (simp_all add: hex_enc_div hex_pair_enc)

lemma hex_decode_Some:
  "hex_decode h = Some s \<Longrightarrow> length h = 2 * length s \<and> concat (map hex_enc s) = map hex_upper h"
  by (induction h arbitrary: s rule: hex_decode.induct) (auto simp: hex_pair_upper split: option.splits)

lemma hex_decode_defined:
  "(hex_decode h \<noteq> None) \<longleftrightarrow> even (length h) \<and> list_all (\<lambda>c. 0 \<le> hex_to_int c) h"
  by (induction h rule: hex_decode.induct) (auto simp: hex_pair_def split: option.splits if_splits)

lemma take_update_at: "i < length xs \<Longrightarrow> take (Suc i) (xs[i := a]) = take i xs @ [a]"
  by (simp add: take_Suc_conv_app_nth)

lemma hex_to_bytes_loop_pair:
  "hex_to_bytes_loop hex i (Suc k) buffer =
    (case hex_pair (hex ! (i * 2)) (hex ! (i * 2 + 1)) of
       None \<Rightarrow> None | Some c \<Rightarrow> hex_to_bytes_loop hex (Suc i) k (buffer[i := c]))"
  by (simp add: hex_pair_def Let_def)

lemma hex_to_bytes_loop_decode:
  "length hex = 2 * (i + k) \<Longrightarrow> length buffer = i + k \<Longrightarrow>
    hex_to_bytes_loop hex i k buffer = map_option ((@) (take i buffer)) (hex_decode (drop (2 * i) hex))"
proof (induction k arbitrary: i buffer)
  case (Suc k)
  have d: "drop (2 * i) hex = hex ! (i * 2) # hex ! (i * 2 + 1) # drop (2 * Suc i) hex"
    using Suc.prems by (simp add: Cons_nth_drop_Suc mult.commute)
  have t: "take (Suc i) (buffer[i := x]) = take i buffer @ [x]" for x
    using Suc.prems by (intro take_update_at) simp
  have IH: "hex_to_bytes_loop hex (Suc i) k (buffer[i := c]) =
      map_option (\<lambda>a. take i buffer @ c # a) (hex_decode (drop (2 * Suc i) hex))" for c
    using Suc.IH [of "Suc i" "buffer[i := c]"] Suc.prems t by simp
  show ?case
    unfolding d hex_to_bytes_loop_pair hex_decode.simps IH
    by (cases "hex_decode (drop (2 * Suc i) hex)") (simp_all split: option.split)
qed simp

lemma to_int32_small: "n < 2 ^ 31 \<Longrightarrow> to_int32 n = int n"
  by (simp add: to_int32_def)

lemma BinToHex_enc: "length s < 2 ^ 30 \<Longrightarrow> BinToHex s = Some (concat (map hex_enc s))"
  using bin_to_hex_loop_enc [of "replicate (2 * length s) CHR ''*''" 0 s]
  by (simp add: BinToHex_def BinToHex_ptr_def to_int32_small nat_mult_distrib mult.commute [of _ 2])

lemma hex_decode_odd: "odd (length h) \<Longrightarrow> hex_decode h = None"
  using hex_decode_defined [of h] by auto

lemma HexToBin_decode:
  assumes "length h < 2 ^ 32"
  shows "HexToBin h = (case hex_decode h of None \<Rightarrow> [] | Some s \<Rightarrow> s)"
proof (cases "even (length h)")
  case True
  then obtain k where k: "length h = 2 * k"
    by (elim evenE)
  have "map_option ((@) []) x = x" for x :: "string option"
    by (cases x) simp_all
  then have l: "hex_to_bytes_loop h 0 k (replicate k NUL) = hex_decode h"
    using hex_to_bytes_loop_decode [of h 0 k] k by simp
  have i: "to_int32 k = int k"
    using assms k by (intro to_int32_small) simp
  have u: "to_uint32 (2 * k) = 2 * k" "to_uint32 k = k"
    using assms k by (simp_all add: to_uint32_def)
  show ?thesis
  proof (cases "hex_decode h")
    case (Some s)
    then have "length s = k"
      using hex_decode_Some k by fastforce
    then show ?thesis
      by (simp add: HexToBin_def hex_string_to_bytes_def u i l k Some)
  qed (simp add: HexToBin_def hex_string_to_bytes_def u l k)
next
  case False
  then show ?thesis
    using assms
    by (simp add: HexToBin_def hex_string_to_bytes_def to_uint32_def hex_decode_odd odd_iff_mod_2_eq_one)
qed

text \<open>C26.  Hexadecimal round trip.  For a string shorter than \<open>2^30\<close> bytes \<open>BinToHex\<close> returns two
  digits per byte, and \<open>HexToBin\<close> gives the string back.\<close>

theorem hex_roundtrip:
  assumes "length s < 2 ^ 30"
  shows "\<exists>h. BinToHex s = Some h \<and> length h = 2 * length s \<and> HexToBin h = s"
proof -
  have "length (concat (map hex_enc s)) = 2 * length s"
    using hex_decode_Some [OF hex_decode_enc] by simp
  then show ?thesis
    using assms HexToBin_decode [of "concat (map hex_enc s)"] by (simp add: BinToHex_enc hex_decode_enc)
qed

theorem hex_roundtrip_witness:
  "\<exists>h. BinToHex ''Az~'' = Some h \<and> length h = 2 * length ''Az~'' \<and> HexToBin h = ''Az~''"
  by (rule hex_roundtrip) simp

text \<open>\<open>HexToBin\<close> accepts exactly the strings of even length over the hexadecimal digits of either
  case, and \<open>BinToHex\<close> writes what it made of them again in upper case; for every other string it
  returns the empty string.\<close>

lemma HexToBin_accepts:
  assumes "length h < 2 ^ 31"
  shows "if even (length h) \<and> list_all (\<lambda>c. 0 \<le> hex_to_int c) h
    then length (HexToBin h) = length h div 2 \<and> BinToHex (HexToBin h) = Some (map hex_upper h)
    else HexToBin h = []"
proof (cases "hex_decode h")
  case None
  then have "HexToBin h = []"
    using HexToBin_decode [of h] assms by simp
  then show ?thesis
    using hex_decode_defined [of h] None by auto
next
  case (Some s)
  then have s: "HexToBin h = s" "length h = 2 * length s" "concat (map hex_enc s) = map hex_upper h"
    using HexToBin_decode [of h] hex_decode_Some [OF Some] assms by simp_all
  then have "BinToHex s = Some (map hex_upper h)"
    using assms BinToHex_enc [of s] by simp
  then show ?thesis
    using hex_decode_defined [of h] Some s(1,2) by simp
qed

section \<open>URL encoding can be undone\<close>

fun url_dec :: "string \<Rightarrow> (char \<times> string) option" where
  "url_dec [] = None"
| "url_dec (x # r) =
    (if x = CHR ''+'' then Some (SP, r)
     else if x = CHR ''%'' then
       (case r of a # b # r \<Rightarrow> map_option (\<lambda>c. (c, r)) (hex_pair a b) | _ \<Rightarrow> None)
     else Some (x, r))"

lemma hex_to_int_map3: "d < 16 \<Longrightarrow> hex_to_int (s_hex_data_map3 ! d) = int d \<and> isalnum (s_hex_data_map3 ! d)"
proof -
  have "list_all (\<lambda>d. hex_to_int (s_hex_data_map3 ! d) = int d \<and> isalnum (s_hex_data_map3 ! d)) [0..<16]"
    by code_simp
  then show "d < 16 \<Longrightarrow> ?thesis"
    by (simp add: list_all_iff)
qed

lemma url_encode_char_cases:
  "url_encode_char c =
    (if isalnum c \<or> c = CHR ''.'' \<or> c = CHR ''~'' then [c]
     else if c = SP then ''+''
     else [CHR ''%'', s_hex_data_map3 ! (of_char c div 16), s_hex_data_map3 ! (of_char c mod 16)])"
  using of_char_nibbles [of c] by (simp add: url_encode_char_def)

lemma not_isalnum: "\<not> isalnum CHR ''+''" "\<not> isalnum CHR ''%''"
  by (simp_all add: isalnum_def)

lemma url_dec_encode: "url_dec (url_encode_char c @ r) = Some (c, r)"
proof -
  have "hex_pair (s_hex_data_map3 ! (of_char c div 16)) (s_hex_data_map3 ! (of_char c mod 16)) = Some c"
    using of_char_nibbles [of c] hex_to_int_map3 by (intro hex_pair_digits) auto
  then show ?thesis
    using not_isalnum by (auto simp: url_encode_char_cases)
qed

interpretation url_code: char_code url_encode_char url_dec
  by unfold_locales (simp_all add: url_dec_encode)

lemma url_encode_loop_concat: "url_encode_loop acc s = acc @ concat (map url_encode_char s)"
  by (induction s arbitrary: acc) simp_all

definition url_decode :: "string \<Rightarrow> string option" where
  "url_decode s = url_code.dec_all (length s) s"

lemma length_url_encode: "length s \<le> length (concat (map url_encode_char s))"
  by (induction s) (auto simp: url_encode_char_cases)

text \<open>C27.  \<open>URLEncode\<close> writes only letters, digits and the characters \<open>. ~ + %\<close>, and loses nothing:
  form decoding gives the string back.\<close>

theorem URLEncode_decode:
  "url_decode (URLEncode s) = Some s \<and> list_all (\<lambda>c. isalnum c \<or> c \<in> set ''.~+%'') (URLEncode s)"
proof -
  have "list_all (\<lambda>c. isalnum c \<or> c \<in> set ''.~+%'') (url_encode_char c)" for c
    using of_char_nibbles [of c] by (simp add: url_encode_char_cases hex_to_int_map3)
  then have "list_all (\<lambda>c. isalnum c \<or> c \<in> set ''.~+%'') (concat (map url_encode_char s))"
    by (induction s) auto
  then show ?thesis
    using url_code.dec_all_enc [OF length_url_encode, of s]
    by (simp add: url_decode_def URLEncode_def url_encode_loop_concat)
qed

section \<open>Splitting\<close>

lemma concat_nonempty: "concat (filter (\<lambda>s. s \<noteq> []) v) = concat v"
  by (induction v) simp_all

lemma erase_empty_filter: "i \<le> length v \<Longrightarrow> erase_empty i v = take i v @ filter (\<lambda>s. s \<noteq> []) (drop i v)"
proof (induction i v rule: erase_empty.induct)
  case (1 i v)
  show ?case
  proof (cases "i < length v")
    case True
    then have "drop i v = v ! i # drop (Suc i) v"
      by (simp add: Cons_nth_drop_Suc)
    then show ?thesis
      using 1 True by (subst erase_empty.simps) (auto simp: take_Suc_conv_app_nth)
  qed (use 1 in \<open>simp add: erase_empty.simps\<close>)
qed

text \<open>\<open>Split\<close> without empty strings.  Provided that \<open>boost::split\<close> cuts its input at the
  separators and loses no other character, the parts are not empty, hold no separator and make
  up the input without its separators, in order.\<close>

lemma Split_parts:
  assumes boost_split_concat: "\<And>s p. concat (boost_split s p) = filter (\<lambda>c. \<not> p c) s"
  shows "concat (Split boost_split src token False) = filter (\<lambda>c. c \<notin> set token) src \<and>
    [] \<notin> set (Split boost_split src token False) \<and>
    list_all (list_all (\<lambda>c. c \<notin> set token)) (Split boost_split src token False)"
proof -
  let ?v = "boost_split src (\<lambda>c. c \<in> set token)"
  have S: "Split boost_split src token False = filter (\<lambda>s. s \<noteq> []) ?v"
    using erase_empty_filter [of 0 ?v] by (simp add: Split_def)
  have c: "concat (filter (\<lambda>s. s \<noteq> []) ?v) = filter (\<lambda>c. c \<notin> set token) src"
    using boost_split_concat [of src "\<lambda>c. c \<in> set token"] by (simp add: concat_nonempty)
  have "x \<notin> set token" if "s \<in> set ?v" "x \<in> set s" for s x
  proof -
    have "x \<in> set (concat ?v)"
      using that by auto
    then show ?thesis
      unfolding boost_split_concat by simp
  qed
  then show ?thesis
    unfolding S c by (auto simp: list_all_iff)
qed

text \<open>A splitter that satisfies the contract: cut at every separator.\<close>

fun cut_at :: "string \<Rightarrow> (char \<Rightarrow> bool) \<Rightarrow> string list" where
  "cut_at [] p = [[]]"
| "cut_at (c # s) p =
    (if p c then [] # cut_at s p
     else case cut_at s p of [] \<Rightarrow> [[c]] | w # ws \<Rightarrow> (c # w) # ws)"

lemma cut_at_concat: "concat (cut_at s p) = filter (\<lambda>c. \<not> p c) s"
  by (induction s) (auto split: list.split)

end
