(* ===== verification/Crypto.thy ===== *)
theory Crypto
  imports StringUtil "HOL-Library.Signed_Division"
begin

text \<open>
  The cryptographic helpers of \<open>src/base/crypto_util.cc\<close> around the functions of the OpenSSL library,
  which are parameters: Base64, digests, the RSA operations of a key, and the contexts of AES in
  Galois/counter mode.  What is modelled is what the helpers do themselves: changing alphabets, cutting
  data into blocks, collecting the results, writing the initialisation vector, checking lengths.

  The functions after line 165 are compiled in debug builds only; \<open>EncryptByPublicKey\<close> is compiled in both
  kinds of build and has a flag for \<open>NDEBUG\<close>.
\<close>

section \<open>Base64\<close>

text \<open>\<open>EVP_EncodeBlock\<close> gives the characters it writes, \<open>EVP_DecodeBase64\<close> the bytes or a failure.\<close>

definition Base64Encode :: "(string \<Rightarrow> string) \<Rightarrow> string \<Rightarrow> string" where
  "Base64Encode encode_block buffer = encode_block buffer"

definition Base64Decode :: "(string \<Rightarrow> string option) \<Rightarrow> string \<Rightarrow> string" where
  "Base64Decode decode_block buffer = (case decode_block buffer of Some result \<Rightarrow> result | None \<Rightarrow> [])"

text \<open>\<open>boost::algorithm::replace_all\<close> with a pattern of one character.\<close>

definition replace_all :: "char \<Rightarrow> string \<Rightarrow> string \<Rightarrow> string" where
  "replace_all x by s = concat (map (\<lambda>c. if c = x then by else [c]) s)"

definition Base64EncodeUrlSafe :: "(string \<Rightarrow> string) \<Rightarrow> string \<Rightarrow> string" where
  "Base64EncodeUrlSafe encode_block buffer =
    (let base_64 = Base64Encode encode_block buffer;
         base_64 = replace_all CHR ''+'' ''-'' base_64;
         base_64 = replace_all CHR ''/'' ''_'' base_64;
         base_64 = replace_all CHR ''='' [] base_64
     in base_64)"

section \<open>Digests\<close>

text \<open>Failures of the code itself: a violated assertion, a write outside the result, a signed overflow, a
  negative size given to \<open>resize\<close>.\<close>

datatype crypto_fault = Assertion | Out_of_range | Overflow | Length_error

text \<open>\<open>std::string::resize\<close>.\<close>

definition resize :: "nat \<Rightarrow> string \<Rightarrow> string" where
  "resize n s = take n s @ replicate (n - length s) NUL"

definition Md5 :: "(string \<Rightarrow> string) \<Rightarrow> string \<Rightarrow> string" where
  "Md5 MD5 source = resize 16 (MD5 source)"

definition Md5Hex :: "(string \<Rightarrow> string) \<Rightarrow> string \<Rightarrow> string option" where
  "Md5Hex MD5 source = BinToHex (Md5 MD5 source)"

definition SHA256Hash :: "(string \<Rightarrow> string) \<Rightarrow> string \<Rightarrow> string" where
  "SHA256Hash SHA256 source = resize 32 (SHA256 source)"

text \<open>The context of the library computes the code of a key and a text; \<open>None\<close> is a failure to allocate or
  to initialise it.  \<open>HMAC_SHA\<close> leaves the caller's buffer alone in that case.\<close>

definition HMAC_SHA256 :: "(string \<Rightarrow> string \<Rightarrow> string option) \<Rightarrow> string \<Rightarrow> string \<Rightarrow> crypto_fault + string" where
  "HMAC_SHA256 hmac text key =
    (case hmac key text of
       None \<Rightarrow> Inr []
     | Some md \<Rightarrow> if length md \<noteq> 32 then Inl Assertion else Inr md)"

definition HMAC_SHA :: "(string \<Rightarrow> string \<Rightarrow> string option) \<Rightarrow> string \<Rightarrow> string \<Rightarrow> string \<Rightarrow> crypto_fault + string" where
  "HMAC_SHA hmac text key digest =
    (case hmac key text of
       None \<Rightarrow> Inr digest
     | Some md \<Rightarrow> if length md \<noteq> 20 then Inl Assertion else Inr (md @ drop 20 digest))"

section \<open>RSA\<close>

text \<open>A key read from the text compiled in (or \<open>None\<close>): its size in bytes and the operation of the
  library for one block, which gives the block written and \<open>None\<close> for the return value \<open>-1\<close>.\<close>

type_synonym rsa_op = "(nat \<times> (string \<Rightarrow> string option)) option"

definition write_at :: "string \<Rightarrow> int \<Rightarrow> string \<Rightarrow> string option" where
  "write_at buf off out =
    (if off < 0 \<or> length buf < nat off + length out then None
     else Some (take (nat off) buf @ out @ drop (nat off + length out) buf))"

text \<open>The state of the loop: the plaintext left, the result and the offset in it.\<close>

function encrypt_loop ::
  "(string \<Rightarrow> string option) \<Rightarrow> string \<Rightarrow> string \<Rightarrow> int \<Rightarrow> crypto_fault + string \<times> int" where
  "encrypt_loop public_encrypt buffer result enc_data_len =
    (if buffer = [] then Inr (result, enc_data_len)
     else case public_encrypt (take 100 buffer) of
         None \<Rightarrow> encrypt_loop public_encrypt (drop 100 buffer) result (enc_data_len - 1)
       | Some out \<Rightarrow>
           (case write_at result enc_data_len out of
              None \<Rightarrow> Inl Out_of_range
            | Some result \<Rightarrow>
                encrypt_loop public_encrypt (drop 100 buffer) result (enc_data_len + int (length out))))"
  by pat_completeness auto
termination
  by (relation "measure (\<lambda>(_, b, _, _). length b)") auto

declare encrypt_loop.simps [simp del]

text \<open>The lengths are C integers: that of the buffer is narrowed to 32 bits.\<close>

definition EncryptByPublicKey ::
  "bool \<Rightarrow> rsa_op \<Rightarrow> string \<Rightarrow> string \<Rightarrow> crypto_fault + bool \<times> string" where
  "EncryptByPublicKey ndebug pub buffer result =
    (let len = to_int32 (length buffer)
     in if len = 0 then Inr (False, result)
        else case pub of
            None \<Rightarrow> Inr (False, result)
          | Some (RSA_size, public_encrypt) \<Rightarrow>
              (let enc_result_len = ((len - 1) sdiv 100 + 1) * int RSA_size
               in if enc_result_len \<ge> 2 ^ 31 then Inl Overflow
                  else if enc_result_len < 0 then Inl Length_error
                  else case encrypt_loop public_encrypt (take (nat len) buffer) (resize (nat enc_result_len) result) 0 of
                      Inl f \<Rightarrow> Inl f
                    | Inr (result, enc_data_len) \<Rightarrow>
                        if enc_data_len \<noteq> enc_result_len \<and> \<not> ndebug then Inl Assertion
                        else Inr (enc_data_len = enc_result_len, result)))"

function decrypt_loop ::
  "(string \<Rightarrow> string option) \<Rightarrow> nat \<Rightarrow> string \<Rightarrow> string \<Rightarrow> nat \<Rightarrow> crypto_fault + bool \<times> string \<times> nat" where
  "decrypt_loop private_decrypt key_bytes buffer result result_data_len =
    (if buffer = [] \<or> key_bytes = 0 then Inr (buffer = [], result, result_data_len)
     else case private_decrypt (take key_bytes buffer) of
         None \<Rightarrow> Inr (False, result, result_data_len)
       | Some out \<Rightarrow>
           (case write_at result (int result_data_len) out of
              None \<Rightarrow> Inl Out_of_range
            | Some result \<Rightarrow>
                decrypt_loop private_decrypt key_bytes (drop key_bytes buffer) result (result_data_len + length out)))"
  by pat_completeness auto
termination
  by (relation "measure (\<lambda>(_, _, b, _, _). length b)") auto

declare decrypt_loop.simps [simp del]

definition DecryptByPrivateKey ::
  "rsa_op \<Rightarrow> string \<Rightarrow> string \<Rightarrow> crypto_fault + bool \<times> string" where
  "DecryptByPrivateKey priv buffer result =
    (case priv of
       None \<Rightarrow> Inr (False, result)
     | Some (key_bytes, private_decrypt) \<Rightarrow>
         (let len = to_int32 (length buffer)
          in if len smod int key_bytes \<noteq> 0 then Inl Assertion
             else if len < 0 then Inl Length_error
             else case decrypt_loop private_decrypt key_bytes (take (nat len) buffer) (resize (nat len) result) 0 of
                 Inl f \<Rightarrow> Inl f
               | Inr (ok, result, result_data_len) \<Rightarrow> Inr (ok, resize result_data_len result)))"

text \<open>\<open>RSA_sign\<close> and \<open>RSA_verify\<close> work on the digest of the source; the signature is written to the front
  of a string of the size of the key.\<close>

definition RSA_Sign :: "(string \<Rightarrow> string) \<Rightarrow> rsa_op \<Rightarrow> string \<Rightarrow> string \<Rightarrow> bool \<times> string" where
  "RSA_Sign MD5 priv source sig =
    (case priv of
       None \<Rightarrow> (False, sig)
     | Some (RSA_size, sign_digest) \<Rightarrow>
         (let sig = resize RSA_size sig
          in case sign_digest (Md5 MD5 source) of
              None \<Rightarrow> (False, sig)
            | Some out \<Rightarrow> (True, take RSA_size out @ drop (length out) sig)))"

definition RSA_Verify :: "(string \<Rightarrow> string) \<Rightarrow> (string \<Rightarrow> string \<Rightarrow> bool) option \<Rightarrow> string \<Rightarrow> string \<Rightarrow> bool" where
  "RSA_Verify MD5 pub source sig =
    (case pub of None \<Rightarrow> False | Some verify \<Rightarrow> verify (Md5 MD5 source) sig)"

section \<open>AES in Galois/counter mode\<close>

text \<open>The library: a context for a key and an initialisation vector, additional data, the next piece of
  data, and the tag.  Encryption and decryption have contexts of their own.\<close>

record 'c evp =
  evp_init :: "string \<Rightarrow> string \<Rightarrow> 'c"
  evp_aad :: "'c \<Rightarrow> string \<Rightarrow> 'c"
  evp_update :: "'c \<Rightarrow> string \<Rightarrow> string \<times> 'c"
  evp_tag :: "'c \<Rightarrow> string"

text \<open>The 12 bytes of \<open>iv_str\<close>: four zero bytes and the 64 bits of \<open>iv\<close>, most significant byte first.\<close>

definition iv_str :: "u64 \<Rightarrow> string" where
  "iv_str iv = replicate 4 NUL @
    map (\<lambda>s. char_of_byte (ucast (drop_bit s iv))) [56, 48, 40, 32, 24, 16, 8, 0]"

text \<open>The loop over the data in pieces of 128 bytes.\<close>

function gcm_loop :: "('c \<Rightarrow> string \<Rightarrow> string \<times> 'c) \<Rightarrow> string \<Rightarrow> int \<Rightarrow> nat \<Rightarrow> 'c \<Rightarrow> string \<Rightarrow> string \<times> 'c" where
  "gcm_loop upd source len i ctx result =
    (if int i < len then
       (let input_size = (if len > int i + 128 then 128 else nat (len - int i));
            (out, ctx) = upd ctx (take input_size (drop i source))
        in gcm_loop upd source len (i + 128) ctx (result @ out))
     else (result, ctx))"
  by pat_completeness auto
termination
  by (relation "measure (\<lambda>(_, _, len, i, _, _). nat (len - int i))") auto

declare gcm_loop.simps [simp del]

definition EncryptByAESGCM :: "'c evp \<Rightarrow> string \<Rightarrow> u64 \<Rightarrow> string \<Rightarrow> string \<Rightarrow> string" where
  "EncryptByAESGCM evp key iv source addata =
    (let ctx = evp_aad evp (evp_init evp key (iv_str iv)) addata;
         (result, ctx) = gcm_loop (evp_update evp) source (int (length source)) 0 ctx []
     in result @ take 16 (evp_tag evp ctx))"

text \<open>The tag is read from the context, but neither set before nor compared with the one in the source.\<close>

definition DecryptByAESGCM :: "'c evp \<Rightarrow> string \<Rightarrow> u64 \<Rightarrow> string \<Rightarrow> string \<Rightarrow> string" where
  "DecryptByAESGCM evp key iv source addata =
    (let ctx = evp_aad evp (evp_init evp key (iv_str iv)) addata;
         data_len = to_int32 (nat ((int (length source) - 16) mod 2 ^ 64));
         (result, ctx) = gcm_loop (evp_update evp) source data_len 0 ctx []
     in result)"

section \<open>RSA blocks\<close>

text \<open>The ciphertext: the encrypted blocks one after the other.\<close>

function rsa_blocks :: "(string \<Rightarrow> string option) \<Rightarrow> string \<Rightarrow> string" where
  "rsa_blocks enc m = (if m = [] then [] else the (enc (take 100 m)) @ rsa_blocks enc (drop 100 m))"
  by pat_completeness auto
termination
  by (relation "measure (\<lambda>(_, m). length m)") auto

declare rsa_blocks.simps [simp del]

lemma rsa_blocks_Nil [simp]: "rsa_blocks enc [] = []"
  by (simp add: rsa_blocks.simps)

lemma rsa_blocks_Cons: "m \<noteq> [] \<Longrightarrow> enc (take 100 m) = Some c \<Longrightarrow> rsa_blocks enc m = c @ rsa_blocks enc (drop 100 m)"
  by (subst rsa_blocks.simps) simp

definition block_count :: "nat \<Rightarrow> nat" where
  "block_count n = (n + 99) div 100"

lemma block_count_drop: "m \<noteq> [] \<Longrightarrow> block_count (length m) = Suc (block_count (length (drop 100 m)))"
proof -
  have "(n + 99) div 100 = Suc ((n - 100 + 99) div 100)" if "0 < n" for n :: nat
  proof (cases "n \<le> 100")
    case True
    then have "(n + 99) div 100 = 1"
      using that by (intro div_nat_eqI) auto
    then show ?thesis
      using True by simp
  next
    case False
    then obtain j where "n = 100 + j"
      using le_Suc_ex [of 100 n] by auto
    then show ?thesis
      using div_add_self1 [of 100 "j + 99"] by (simp add: add.assoc)
  qed
  then show "m \<noteq> [] \<Longrightarrow> ?thesis"
    by (simp add: block_count_def)
qed

lemma write_at_end:
  "length buf = n + k \<Longrightarrow> length out \<le> k \<Longrightarrow> write_at buf (int n) out = Some (take n buf @ out @ drop (n + length out) buf)"
  by (simp add: write_at_def)

lemma encrypt_loop_blocks:
  assumes enc: "\<And>m. m \<noteq> [] \<Longrightarrow> length m \<le> 100 \<Longrightarrow> \<exists>c. enc m = Some c \<and> length c = k"
  shows "length result = n + block_count (length m) * k \<Longrightarrow>
    encrypt_loop enc m result (int n) = Inr (take n result @ rsa_blocks enc m, int (length result)) \<and>
    length (rsa_blocks enc m) = block_count (length m) * k"
proof (induction m arbitrary: n result rule: length_induct)
  case (1 m)
  show ?case
  proof (cases "m = []")
    case True
    then show ?thesis
      using 1 by (simp add: encrypt_loop.simps block_count_def)
  next
    case False
    then obtain c where c: "enc (take 100 m) = Some c" "length c = k"
      using enc [of "take 100 m"] by auto
    note bc = block_count_drop [OF False]
    have len: "length result = n + (k + block_count (length (drop 100 m)) * k)"
      using 1(2) bc by simp
    let ?r = "take n result @ c @ drop (n + k) result"
    have "encrypt_loop enc (drop 100 m) ?r (int (n + k)) =
        Inr (take (n + k) ?r @ rsa_blocks enc (drop 100 m), int (length ?r)) \<and>
        length (rsa_blocks enc (drop 100 m)) = block_count (length (drop 100 m)) * k"
      using 1(1) [rule_format, of "drop 100 m" ?r "n + k"] False len c by simp
    moreover have "encrypt_loop enc m result (int n) = encrypt_loop enc (drop 100 m) ?r (int (n + k))"
      using False c len write_at_end [OF len, of c] by (subst encrypt_loop.simps) simp
    ultimately show ?thesis
      using len c bc rsa_blocks_Cons [of m enc c, OF False c(1)] by simp
  qed
qed

lemma decrypt_loop_blocks:
  assumes enc: "\<And>m. m \<noteq> [] \<Longrightarrow> length m \<le> 100 \<Longrightarrow> \<exists>c. enc m = Some c \<and> length c = k \<and> dec c = Some m" and k: "0 < k"
  shows "n + length m \<le> length result \<Longrightarrow>
    \<exists>r. decrypt_loop dec k (rsa_blocks enc m) result n = Inr (True, r, n + length m) \<and>
      take (n + length m) r = take n result @ m"
proof (induction m arbitrary: n result rule: length_induct)
  case (1 m)
  show ?case
  proof (cases "m = []")
    case True
    then show ?thesis
      by (simp add: decrypt_loop.simps)
  next
    case False
    then obtain c where c: "enc (take 100 m) = Some c" "length c = k" "dec c = Some (take 100 m)"
      using enc [of "take 100 m"] by auto
    let ?l = "length (take 100 m)"
    let ?r = "take n result @ take 100 m @ drop (n + ?l) result"
    have w: "write_at result (int n) (take 100 m) = Some ?r"
      using 1(2) write_at_end [of result n "length result - n" "take 100 m"] by simp
    have r: "take (n + ?l) ?r = take n result @ take 100 m" "n + ?l + length (drop 100 m) \<le> length ?r"
      using 1(2) False length_greater_0_conv [of m] by (auto simp: min_def simp del: length_greater_0_conv)
    obtain r where "decrypt_loop dec k (rsa_blocks enc (drop 100 m)) ?r (n + ?l) =
        Inr (True, r, n + ?l + length (drop 100 m))"
      "take (n + ?l + length (drop 100 m)) r = take (n + ?l) ?r @ drop 100 m"
      using 1(1) [rule_format, of "drop 100 m" "n + ?l" ?r, OF _ r(2)] False by (auto simp del: length_take length_append take_append)
    moreover have "c \<noteq> []"
      using c(2) k by auto
    then have "decrypt_loop dec k (rsa_blocks enc m) result n =
        decrypt_loop dec k (rsa_blocks enc (drop 100 m)) ?r (n + ?l)"
      unfolding rsa_blocks_Cons [of m enc c, OF False c(1)] using c k w by (subst decrypt_loop.simps) simp
    moreover have "n + ?l + length (drop 100 m) = n + length m"
      by simp
    ultimately have "decrypt_loop dec k (rsa_blocks enc m) result n = Inr (True, r, n + length m)"
      "take (n + length m) r = take n result @ m"
      unfolding r(1) by (simp_all only: append_assoc append_take_drop_id)
    then show ?thesis
      by blast
  qed
qed

lemma resize_take [simp]: "n \<le> length s \<Longrightarrow> resize n s = take n s"
  by (simp add: resize_def)

lemma sdiv_100: "int n sdiv 100 = int (n div 100)"
  by (cases "n = 0") (simp_all add: signed_divide_int_def zdiv_int)

lemma length_resize [simp]: "length (resize n s) = n"
  by (simp add: resize_def)

text \<open>C29.  RSA round trip.  Let the library encrypt every block of up to 100 bytes to a block of the size \<open>k\<close> of the
  key, which the private key decrypts.  Then \<open>EncryptByPublicKey\<close> succeeds on every non-empty message whose
  ciphertext has a length below \<open>2 ^ 31\<close>, in both kinds of build, with one block of ciphertext for each 100
  bytes begun, and \<open>DecryptByPrivateKey\<close> gives the message back, whatever the strings for the results
  hold before.\<close>

theorem rsa_roundtrip:
  assumes rsa: "\<And>m. m \<noteq> [] \<Longrightarrow> length m \<le> 100 \<Longrightarrow> \<exists>c. enc m = Some c \<and> length c = k \<and> dec c = Some m"
    and k: "100 < k" and m: "m \<noteq> []" and small: "((length m - 1) div 100 + 1) * k < 2 ^ 31"
  shows "\<exists>c. EncryptByPublicKey ndebug (Some (k, enc)) m r = Inr (True, c) \<and>
    length c = ((length m - 1) div 100 + 1) * k \<and> DecryptByPrivateKey (Some (k, dec)) c r' = Inr (True, m)"
proof -
  define N where "N = block_count (length m) * k"
  have n: "(length m - 1) div 100 + 1 = block_count (length m)"
    using div_add_self1 [of 100 "length m - 1"] m by (cases m) (simp_all add: block_count_def)
  then have N: "N = ((length m - 1) div 100 + 1) * k"
    by (simp add: N_def)
  have bound: "length m \<le> N"
    using mult_le_mono2 [of 100 k "block_count (length m)"] k unfolding N_def block_count_def by linarith
  with small have len: "to_int32 (length m) = int (length m)" "to_int32 N = int N" "N < 2 ^ 31"
    unfolding N by (simp_all only: to_int32_small)
  have e_len: "((int (length m) - 1) sdiv 100 + 1) * int k = int N"
    using m sdiv_100 [of "length m - 1"] unfolding N by (cases m) (simp_all add: algebra_simps)
  have e_loop: "encrypt_loop enc m (resize N r) 0 = Inr (rsa_blocks enc m, int N)" "length (rsa_blocks enc m) = N"
    using encrypt_loop_blocks [of enc k "resize N r" 0 m] rsa unfolding N_def by fastforce+
  have e: "EncryptByPublicKey ndebug (Some (k, enc)) m r = Inr (True, rsa_blocks enc m)"
    unfolding EncryptByPublicKey_def len e_len Let_def option.case prod.case
    using m e_loop len(3) by simp
  obtain res where d: "decrypt_loop dec k (rsa_blocks enc m) (resize N r') 0 = Inr (True, res, length m)"
    "take (length m) res = m"
    using decrypt_loop_blocks [of enc k dec 0 m "resize N r'", OF rsa] k bound by auto
  then have "length m \<le> length res"
    by (metis length_take min.cobounded1)
  moreover have "int N smod int k = 0"
    by (simp add: N_def signed_modulo_int_def)
  ultimately have "DecryptByPrivateKey (Some (k, dec)) (rsa_blocks enc m) r' = Inr (True, m)"
    unfolding DecryptByPrivateKey_def Let_def option.case prod.case using e_loop d
    by (simp add: len)
  with e e_loop N show ?thesis
    by auto
qed

text \<open>A block for the witness: the message, a mark and zero bytes up to 128 bytes.\<close>

lemma takeWhile_zeros: "takeWhile (\<lambda>x. x = NUL) (replicate n NUL @ CHR ''|'' # r) = replicate n NUL"
  by (induction n) simp_all

theorem rsa_roundtrip_witness:
  "\<exists>c. EncryptByPublicKey True (Some (128, \<lambda>m. Some (m @ CHR ''|'' # replicate (127 - length m) NUL)))
      ''attack at dawn'' [] = Inr (True, c) \<and>
    length c = ((length ''attack at dawn'' - 1) div 100 + 1) * 128 \<and>
    DecryptByPrivateKey (Some (128, \<lambda>c. Some (take (127 - length (takeWhile (\<lambda>x. x = NUL) (rev c))) c))) c [] =
      Inr (True, ''attack at dawn'')"
  by (rule rsa_roundtrip) (simp_all add: takeWhile_zeros)

section \<open>AES in Galois/counter mode\<close>

text \<open>Pieces of a stream.\<close>

lemma gcm_piece:
  "take (if int n > int i + 128 then 128 else nat (int n - int i)) (drop i s) = take 128 (drop i (take n s))"
proof -
  have "(if int n > int i + 128 then 128 else nat (int n - int i)) = min 128 (n - i)"
    by (auto simp: min_def nat_diff_distrib)
  then show ?thesis
    by (simp add: drop_take)
qed

lemma gcm_loop_stream:
  assumes app: "\<And>c a b. upd c (a @ b) = (let (x, c) = upd c a; (y, c) = upd c b in (x @ y, c))"
    and nil: "\<And>c. upd c [] = ([], c)"
  shows "gcm_loop upd s (int n) i c r = (let (x, c) = upd c (drop i (take n s)) in (r @ x, c))"
proof (induction "n - i" arbitrary: i c r rule: less_induct)
  case less
  show ?case
  proof (cases "i < n")
    case False
    then show ?thesis
      by (subst gcm_loop.simps) (simp add: nil)
  next
    case True
    let ?t = "drop i (take n s)"
    obtain x c' where x: "upd c (take 128 ?t) = (x, c')"
      by (cases "upd c (take 128 ?t)")
    have "gcm_loop upd s (int n) i c r = gcm_loop upd s (int n) (i + 128) c' (r @ x)"
      using True x gcm_piece [of i n s] by (subst gcm_loop.simps) (simp add: Let_def)
    also have "\<dots> = (let (y, c) = upd c' (drop 128 ?t) in ((r @ x) @ y, c))"
      using less [of "i + 128" c' "r @ x"] True by (simp add: add.commute)
    also have "\<dots> = (let (x, c) = upd c (take 128 ?t @ drop 128 ?t) in (r @ x, c))"
      unfolding app x by (simp split: prod.split)
    finally show ?thesis
      unfolding append_take_drop_id .
  qed
qed

lemma gcm_loop_prefix:
  "take n s = take n s' \<Longrightarrow> gcm_loop upd s (int n) i c r = gcm_loop upd s' (int n) i c r"
proof (induction "n - i" arbitrary: i c r rule: less_induct)
  case less
  show ?case
    using less gcm_piece [of i n s] gcm_piece [of i n s'] by (subst (1 2) gcm_loop.simps) (simp add: Let_def split: prod.split)
qed

lemma data_len:
  assumes "length c < 2 ^ 31" "length t = 16"
  shows "to_int32 (nat ((int (length (c @ t)) - 16) mod 2 ^ 64)) = int (length c)"
proof -
  have "(int (length (c @ t)) - 16) mod 2 ^ 64 = int (length c)"
    using assms by simp
  then show ?thesis
    using assms(1) by (simp only: nat_int to_int32_small)
qed


definition xor_evp :: "nat evp" where
  "xor_evp = \<lparr> evp_init = \<lambda>k v. of_char (hd k), evp_aad = \<lambda>c a. c,
    evp_update = \<lambda>c s. (map (\<lambda>x. char_of_byte (byte_of x XOR word_of_nat c)) s, c), evp_tag = \<lambda>c. replicate 16 NUL \<rparr>"


text \<open>The tag is never checked: whatever the library does, \<open>DecryptByAESGCM\<close> returns the same for a
  ciphertext with any two tags, so that forged messages are accepted.\<close>

lemma gcm_tag_ignored:
  assumes "length t = 16" "length t' = 16" "length c < 2 ^ 31"
  shows "DecryptByAESGCM evp key iv (c @ t) addata = DecryptByAESGCM evp key iv (c @ t') addata"
proof -
  have "gcm_loop (evp_update evp) (c @ t) (int (length c)) 0 x [] =
      gcm_loop (evp_update evp) (c @ t') (int (length c)) 0 x []" for x
    by (rule gcm_loop_prefix) simp
  then show ?thesis
    unfolding DecryptByAESGCM_def data_len [OF assms(3,1)] data_len [OF assms(3,2)] by simp
qed

text \<open>Different vectors give different strings, so that no counter block is used twice for one key.\<close>

lemma char_of_byte_inj: "char_of_byte a = char_of_byte b \<Longrightarrow> a = b"
  by (metis byte_of_char_of_byte)

lemma iv_str_inj: "inj iv_str"
proof (rule injI)
  fix v w
  assume "iv_str v = iv_str w"
  then have eq: "(ucast (drop_bit s v) :: u8) = ucast (drop_bit s w)" if "s \<in> set [56, 48, 40, 32, 24, 16, 8, 0]" for s
    using that by (auto simp: iv_str_def dest: char_of_byte_inj)
  show "v = w"
  proof (rule bit_word_eqI)
    fix n :: nat
    assume "n < LENGTH(64)"
    then have "n div 8 < 8"
      by simp
    then have "n div 8 \<in> {0, 1, 2, 3, 4, 5, 6, 7}"
      unfolding insert_iff empty_iff by linarith
    then have "8 * (n div 8) \<in> set [56, 48, 40, 32, 24, 16, 8, 0]"
      by (elim insertE emptyE) simp_all
    then have "bit (ucast (drop_bit (8 * (n div 8)) v) :: u8) (n mod 8) = bit (ucast (drop_bit (8 * (n div 8)) w) :: u8) (n mod 8)"
      by (simp only: eq)
    then show "bit v n = bit w n"
      by (simp add: bit_ucast_iff bit_drop_bit_eq)
  qed
qed

section \<open>Digests and Base64\<close>

lemma Md5Hex_roundtrip:
  assumes "length (MD5 source) = 16"
  shows "\<exists>h. Md5Hex MD5 source = Some h \<and> length h = 32 \<and> HexToBin h = MD5 source"
proof -
  have "Md5 MD5 source = MD5 source"
    using assms by (simp add: Md5_def)
  moreover have "BinToHex (MD5 source) = Some (concat (map hex_enc (MD5 source)))"
    using assms by (intro BinToHex_enc) simp
  moreover have "length (concat (map hex_enc (MD5 source))) = 2 * length (MD5 source)"
    using hex_decode_Some [OF hex_decode_enc] by simp
  ultimately show ?thesis
    using assms HexToBin_decode [of "concat (map hex_enc (MD5 source))"] by (simp add: Md5Hex_def hex_decode_enc)
qed

text \<open>The standard text for a URL-safe one: the two characters exchanged back, and the padding.\<close>

definition base64_restore :: "string \<Rightarrow> string" where
  "base64_restore s =
    map (\<lambda>c. if c = CHR ''-'' then CHR ''+'' else if c = CHR ''_'' then CHR ''/'' else c) s @
    replicate ((4 - length s mod 4) mod 4) CHR ''=''"

lemma replace_all_char: "replace_all x [y] s = map (\<lambda>c. if c = x then y else c) s"
  by (induction s) (simp_all add: replace_all_def)

lemma replace_all_Nil: "replace_all x [] s = filter (\<lambda>c. c \<noteq> x) s"
  by (induction s) (simp_all add: replace_all_def)

lemma padding:
  fixes n p :: nat
  assumes "p \<le> 2" "(n + p) mod 4 = 0"
  shows "(4 - n mod 4) mod 4 = p"
proof -
  have "n mod 4 < 4" "(n mod 4 + p) mod 4 = 0"
    using assms(2) by (simp_all add: mod_add_left_eq)
  moreover have "p = 0 \<or> p = 1 \<or> p = 2" "n mod 4 = 0 \<or> n mod 4 = 1 \<or> n mod 4 = 2 \<or> n mod 4 = 3"
    using assms(1) \<open>n mod 4 < 4\<close> by linarith+
  ultimately show ?thesis
    by (elim disjE) simp_all
qed

text \<open>URL-safe Base64.  If the library writes letters, digits, \<open>+\<close> and \<open>/\<close>, padded with at most two
  \<open>=\<close> to a multiple of four characters, \<open>Base64EncodeUrlSafe\<close> writes letters, digits, \<open>-\<close> and \<open>_\<close>
  only, and nothing is lost: the standard text can be restored.\<close>

lemma base64_url_safe:
  assumes "encode_block buffer = w @ replicate p CHR ''=''" "p \<le> 2" "(length w + p) mod 4 = 0"
    and w: "list_all (\<lambda>c. isalnum c \<or> c = CHR ''+'' \<or> c = CHR ''/'') w"
  shows "list_all (\<lambda>c. isalnum c \<or> c = CHR ''-'' \<or> c = CHR ''_'') (Base64EncodeUrlSafe encode_block buffer) \<and>
    base64_restore (Base64EncodeUrlSafe encode_block buffer) = Base64Encode encode_block buffer"
proof -
  let ?f = "\<lambda>c. if c = CHR ''+'' then CHR ''-'' else if c = CHR ''/'' then CHR ''_'' else c"
  have *: "list_all (\<lambda>c. isalnum c \<or> c = CHR ''-'' \<or> c = CHR ''_'') (map ?f w) \<and> filter (\<lambda>c. c \<noteq> CHR ''='') (map ?f w) = map ?f w \<and>
      map (\<lambda>c. if c = CHR ''-'' then CHR ''+'' else if c = CHR ''_'' then CHR ''/'' else c) (map ?f w) = w"
    using w by (induction w) (auto simp: isalnum_def)
  have "map (\<lambda>c. if c = CHR ''/'' then CHR ''_'' else c) (map (\<lambda>c. if c = CHR ''+'' then CHR ''-'' else c) w) = map ?f w"
    by simp
  then have "Base64EncodeUrlSafe encode_block buffer = map ?f w"
    using * assms(1) unfolding Base64EncodeUrlSafe_def Base64Encode_def replace_all_char replace_all_Nil Let_def
    by (simp only: map_append map_replicate filter_append) simp
  moreover have "(4 - length w mod 4) mod 4 = p"
    using assms(2,3) by (rule padding)
  ultimately show ?thesis
    using * assms(1) by (simp add: base64_restore_def Base64Encode_def)
qed

end
