(* ===== verification/Auth.thy ===== *)
theory Auth
  imports HttpConnection Crypto Decimal
begin

text \<open>
  The authentication client of \<open>src/base/auth/auth_util.cc\<close>, on the HTTP client and the cryptographic
  helpers.  \<open>AuthManager\<close> is the delegate of all its HTTP clients, which are told apart by their addresses.
  The messages of the protocol buffers compiler, the generator of random identifiers and the library
  behind the cryptographic helpers are parameters.
\<close>

section \<open>Data\<close>

record auth_request =
  req_type :: int
  req_token :: string
  req_version :: int
  req_deviceid :: string
  req_randomid :: string

record auth_response =
  res_code :: int
  res_signature :: string
  res_desc :: string

text \<open>What the code uses of other libraries: the messages, the keys, the digest and Base64.\<close>

record auth_lib =
  serialize :: "auth_request \<Rightarrow> string"
  parse_response :: "string \<Rightarrow> auth_response"
  pub_key :: rsa_op
  pub_verify :: "(string \<Rightarrow> string \<Rightarrow> bool) option"
  digest :: "string \<Rightarrow> string"
  encode_base64 :: "string \<Rightarrow> string"
  decode_base64 :: "string \<Rightarrow> string option"

record AuthInfo =
  auth_url :: string
  random_id :: string
  device_id :: string
  product_type :: int
  auth_version :: int
  token :: string
  http_client :: nat
  response_data :: string

text \<open>The manager, with the calls of the delegates of the requests.  The map is in the order of its keys.\<close>

record AuthManager =
  auth_id :: int
  auth_map :: "(int \<times> AuthInfo) list"
  auth_calls :: "(int \<times> int \<times> string) list"

section \<open>Requests\<close>

text \<open>The global function \<open>AuthRequest\<close> fills the fields of the caller.\<close>

definition AuthInfo_new :: "string \<Rightarrow> int \<Rightarrow> int \<Rightarrow> string \<Rightarrow> AuthInfo" where
  "AuthInfo_new u product version tok =
    \<lparr>auth_url = u, random_id = [], device_id = [], product_type = product, auth_version = version, token = tok,
     http_client = 0, response_data = []\<rparr>"

text \<open>The first part of \<open>AuthManager::AuthRequest\<close>, up to the request of the HTTP client, whose port of the
  proxy is not initialised.  The result of the encryption is not checked.\<close>

definition AuthRequest_send ::
  "bool \<Rightarrow> auth_lib \<Rightarrow> string \<Rightarrow> u16 \<Rightarrow> AuthInfo \<Rightarrow> crypto_fault + AuthInfo \<times> HttpClientRequest" where
  "AuthRequest_send ndebug lib uuid junk info =
    (let info = info\<lparr>device_id := ''nodeviceid'', random_id := uuid\<rparr>;
         serial = serialize lib
           \<lparr>req_type = product_type info, req_token = token info, req_version = auth_version info,
            req_deviceid = device_id info, req_randomid = random_id info\<rparr>
     in case EncryptByPublicKey ndebug (pub_key lib) serial [] of
          Inl f \<Rightarrow> Inl f
        | Inr (_, chip_text) \<Rightarrow>
            Inr (info, \<lparr>url = auth_url info @ ''?data='' @ Base64EncodeUrlSafe (encode_base64 lib) chip_text,
              http_method = kHttpMethodGet, http_heads = [], http_proxy_host = [], http_proxy_port = junk,
              http_proxy_username = [], http_proxy_passwd = []\<rparr>))"

text \<open>The second part, with the lock held: the request is entered for the client \<open>p\<close>, which is already
  running then.\<close>

definition AuthRequest_insert :: "nat \<Rightarrow> AuthInfo \<Rightarrow> AuthManager \<Rightarrow> int \<times> AuthManager" where
  "AuthRequest_insert p info m =
    (let tmp_id = auth_id m + 1
     in (tmp_id, m\<lparr>auth_id := tmp_id, auth_map := AList.update tmp_id (info\<lparr>http_client := p\<rparr>) (auth_map m)\<rparr>))"

definition AuthCancel :: "int \<Rightarrow> AuthManager \<Rightarrow> AuthManager" where
  "AuthCancel i m = m\<lparr>auth_map := AList.delete i (auth_map m)\<rparr>"

section \<open>Responses\<close>

fun append_response :: "nat \<Rightarrow> string \<Rightarrow> (int \<times> AuthInfo) list \<Rightarrow> (int \<times> AuthInfo) list" where
  "append_response p content [] = []"
| "append_response p content ((i, info) # es) =
    (if http_client info = p then (i, info\<lparr>response_data := response_data info @ content\<rparr>) # es
     else (i, info) # append_response p content es)"

definition auth_OnHttpResponse :: "nat \<Rightarrow> string \<Rightarrow> AuthManager \<Rightarrow> AuthManager" where
  "auth_OnHttpResponse p content m = m\<lparr>auth_map := append_response p content (auth_map m)\<rparr>"

definition signature_source :: "AuthInfo \<Rightarrow> string" where
  "signature_source info =
    show_int (product_type info) @ show_int (auth_version info) @ token info @ device_id info @ random_id info"

text \<open>The arguments of the call of the delegate.\<close>

definition HandleAuthResponse :: "auth_lib \<Rightarrow> nat \<Rightarrow> AuthInfo \<Rightarrow> int \<times> string" where
  "HandleAuthResponse lib code info =
    (if code \<noteq> 200 then (int code, ''failed'')
     else let response = parse_response lib (Base64Decode (decode_base64 lib) (response_data info))
       in if res_code response \<noteq> 200 then (res_code response, res_desc response)
          else let success = RSA_Verify (digest lib) (pub_verify lib) (signature_source info)
                     (Base64Decode (decode_base64 lib) (res_signature response))
            in if success then (res_code response, res_desc response) else (401, res_desc response))"

fun find_client :: "nat \<Rightarrow> (int \<times> AuthInfo) list \<Rightarrow> (int \<times> AuthInfo) option" where
  "find_client p [] = None"
| "find_client p ((i, info) # es) = (if http_client info = p then Some (i, info) else find_client p es)"

text \<open>After the call of the delegate the client is cancelled, and the entry is erased.\<close>

definition auth_OnHttpComplete :: "auth_lib \<Rightarrow> nat \<Rightarrow> nat \<Rightarrow> AuthManager \<Rightarrow> AuthManager \<times> bool" where
  "auth_OnHttpComplete lib p code m =
    (case find_client p (auth_map m) of
       None \<Rightarrow> (m, False)
     | Some (i, info) \<Rightarrow>
         (m\<lparr>auth_calls := auth_calls m @ [(i, HandleAuthResponse lib code info)], auth_map := AList.delete i (auth_map m)\<rparr>, True))"

fun auth_delegate :: "auth_lib \<Rightarrow> nat \<Rightarrow> AuthManager http_dlg" where
  "auth_delegate lib p m (OnHttpHeads hs) = (m, False)"
| "auth_delegate lib p m (OnHttpResponse content) = (auth_OnHttpResponse p content m, False)"
| "auth_delegate lib p m (OnHttpComplete code) = auth_OnHttpComplete lib p code m"

section \<open>The decision\<close>

text \<open>The conditions under which a response is genuine.\<close>

definition verified :: "auth_lib \<Rightarrow> nat \<Rightarrow> AuthInfo \<Rightarrow> bool" where
  "verified lib code info \<longleftrightarrow> code = 200 \<and>
    (let response = parse_response lib (Base64Decode (decode_base64 lib) (response_data info))
     in res_code response = 200 \<and>
        (\<exists>verify. pub_verify lib = Some verify \<and>
          verify (Md5 (digest lib) (signature_source info)) (Base64Decode (decode_base64 lib) (res_signature response))))"

lemma HandleAuthResponse_200: "fst (HandleAuthResponse lib code info) = 200 \<longleftrightarrow> verified lib code info"
  by (auto simp: HandleAuthResponse_def verified_def RSA_Verify_def Let_def split: option.split)

lemma find_client_Some: "find_client p es = Some (i, info) \<Longrightarrow> http_client info = p \<and> (i, info) \<in> set es"
  by (induction es rule: find_client.induct) (auto split: if_splits)

lemma find_client_None: "find_client p es = None \<longleftrightarrow> (\<forall>(i, info) \<in> set es. http_client info \<noteq> p)"
  by (induction es rule: find_client.induct) auto

lemma find_client_append:
  "find_client p (append_response p content es) =
    map_option (\<lambda>(i, info). (i, info\<lparr>response_data := response_data info @ content\<rparr>)) (find_client p es)"
  by (induction p content es rule: append_response.induct) auto

lemma append_response_append: "append_response p b (append_response p a es) = append_response p (a @ b) es"
  by (induction p a es rule: append_response.induct) auto

lemma append_response_Nil: "append_response p [] es = es"
  by (induction p "[] :: string" es rule: append_response.induct) auto

lemma auth_body: "\<not> is_complete cb \<Longrightarrow> \<not> snd (auth_delegate lib p m cb) \<and>
    (find_client p (auth_map (fst (auth_delegate lib p m cb))) = None \<longleftrightarrow> find_client p (auth_map m) = None)"
  by (cases cb) (simp_all add: auth_OnHttpResponse_def find_client_append)

interpretation auth: body_delegate "auth_delegate lib p" "\<lambda>m. find_client p (auth_map m) \<noteq> None" for lib p
  by unfold_locales (simp_all add: auth_body)

lemma auth_responses:
  "auth.delegate_calls lib p m (map OnHttpResponse bodies) = m\<lparr>auth_map := append_response p (concat bodies) (auth_map m)\<rparr>"
proof (induction bodies arbitrary: m)
  case (Cons b bodies)
  then show ?case
    by (simp add: auth.delegate_calls_def auth_OnHttpResponse_def append_response_append)
qed (simp add: auth.delegate_calls_def append_response_Nil)


text \<open>A library for the witnesses: signatures are the digests themselves.\<close>

definition plain_lib :: auth_lib where
  "plain_lib = \<lparr>serialize = req_token, parse_response = (\<lambda>s. \<lparr>res_code = 200, res_signature = s, res_desc = ''ok''\<rparr>),
     pub_key = None, pub_verify = Some (\<lambda>d s. d = s), digest = (\<lambda>s. take 16 (s @ replicate 16 NUL)),
     encode_base64 = id, decode_base64 = Some\<rparr>"

definition plain_manager :: "string \<Rightarrow> AuthManager" where
  "plain_manager resp = \<lparr>auth_id = 1,
     auth_map = [(1, (AuthInfo_new ''http://a.b/'' 1 23 ''t'')\<lparr>http_client := 7, response_data := resp\<rparr>)], auth_calls = []\<rparr>"


text \<open>The fields are signed without separators, so that different requests have the same source.\<close>

lemma signature_source_ambiguous:
  "signature_source (AuthInfo_new u 1 23 tok) = signature_source (AuthInfo_new u 12 3 tok)"
  by (simp add: signature_source_def AuthInfo_new_def show_int_def show_nat.simps)

text \<open>The HTTP client runs before its request is entered: a response that comes first is lost, and the entry
  stays for ever.\<close>

lemma early_response_lost:
  assumes "find_client p (auth_map m) = None" "auth_OnHttpComplete lib p code m = (m1, c)" "AuthRequest_insert p info m1 = (i, m2)"
  shows "auth_calls m2 = auth_calls m" "map_of (auth_map m2) i = Some (info\<lparr>http_client := p\<rparr>)"
  using assms by (auto simp: auth_OnHttpComplete_def AuthRequest_insert_def Let_def update_conv')

section \<open>The end of a request\<close>

text \<open>Every authentication ends in a lock.  The HTTP client of a request collects the whole body of the response for it,
  and when the response is complete the manager cancels the client from within its call: the client locks
  again the mutex it holds, while the manager holds its own.\<close>

lemma auth_complete_relocks:
  assumes "proxy_host req = []" "net_type req = kNetTypeHttp" "lengths_ok lc fs"
    and "find_client p (auth_map m) = Some (i, info)"
    and "response_events code fs bodies = es @ [Parser on_finish_impl, Read 0]"
  shows "\<exists>h. http_run v4 v6 lc (auth_delegate lib p) (connect_events @ es) (http_Request (HttpConnection_new r req m)) [] = Inr (h, [Tcp]) \<and>
    find_client p (auth_map (dstate h)) = Some (i, info\<lparr>response_data := response_data info @ concat bodies\<rparr>) \<and>
    http_run v4 v6 lc (auth_delegate lib p) (connect_events @ response_events code fs bodies)
      (http_Request (HttpConnection_new r req m)) [] = Inl Relock"
proof -
  let ?run = "http_run v4 v6 lc (auth_delegate lib p)" and ?h0 = "http_Request (HttpConnection_new r req m)"
  have "find_client p (auth_map m) \<noteq> None"
    using assms(4) by simp
  then obtain h where h: "?run (connect_events @ es) ?h0 [] = Inr (h, [Tcp])" "reading_state h"
    "dstate h = auth.delegate_calls lib p m (OnHttpHeads (fold (\<lambda>(k, v). AList.update k v) fs []) # map OnHttpResponse bodies)"
    using auth.exchange_body [OF assms(1,2) _ assms(3,5), where r = r] by meson
  have m: "dstate h = m\<lparr>auth_map := append_response p (concat bodies) (auth_map m)\<rparr>"
    using auth_responses [of lib p m bodies] h(3) by (simp add: auth.delegate_calls_def)
  have f: "find_client p (auth_map (dstate h)) = Some (i, info\<lparr>response_data := response_data info @ concat bodies\<rparr>)"
    using m assms(4) by (simp add: find_client_append)
  have "http_exec v4 v6 lc (auth_delegate lib p) (Parser on_finish_impl) h = Inl Relock"
    using h(2) f by (simp add: http_exec_def reading_state_def on_finish_def NotifyComplete_def call_delegate_def auth_OnHttpComplete_def)
  then have "?run (connect_events @ response_events code fs bodies) ?h0 [] = Inl Relock"
    using h(1) unfolding assms(5) append_assoc [symmetric] http_run_append by simp
  then show ?thesis
    using h(1) f by blast
qed

end
