(* ===== verification/WireFormat.thy ===== *)
theory WireFormat
  imports Prelude
begin

text \<open>
  The wire format of the protocol buffers library in \<open>src/third_party/protobuf-3.11.4/src/google/protobuf\<close>, as far as the
  messages of the program use it: variable-length integers (\<open>io/coded_stream.h\<close>, \<open>parse_context.h\<close>,
  \<open>parse_context.cc\<close>), tags, sizes and strings.  A writer gives the bytes it appends; a reader takes the bytes up to
  the end of the buffer and gives a value with the bytes that are left, or \<open>None\<close> for an error.  The readers of the
  library may step over the end of the buffer, into bytes that are there for it, and the loop of the
  message then fails; here such a read fails itself.
\<close>

section \<open>Writing\<close>

lemma unat_drop_bit: "unat (drop_bit k v) = unat v div 2 ^ k" for v :: "'a::len word"
proof -
  have "unat v < 2 ^ LENGTH('a)"
    by (rule unsigned_less)
  then have "unat v div 2 ^ k < 2 ^ LENGTH('a)"
    by (rule le_less_trans [rotated]) simp
  then show ?thesis
    by (simp only: unsigned_drop_bit_eq) (simp add: drop_bit_eq_div take_bit_nat_eq_self)
qed

function UnsafeVarint :: "u64 \<Rightarrow> u8 list" where
  "UnsafeVarint v = (if v < 0x80 then [ucast v] else ucast (v OR 0x80) # UnsafeVarint (drop_bit 7 v))"
  by pat_completeness auto
termination
  by (relation "measure unat") (auto simp: unat_drop_bit word_less_nat_alt word_le_nat_alt not_less)

declare UnsafeVarint.simps [simp del]

text \<open>Tags: the number of the field and the kind of its value.\<close>

definition MakeTag :: "u32 \<Rightarrow> u32 \<Rightarrow> u32" where
  "MakeTag num wire_type = push_bit 3 num OR wire_type"

definition WriteTagToArray :: "u32 \<Rightarrow> u32 \<Rightarrow> u8 list" where
  "WriteTagToArray num wire_type = UnsafeVarint (ucast (MakeTag num wire_type))"

text \<open>A negative \<open>int32\<close> is written as a 64-bit number.\<close>

definition WriteInt32ToArray :: "u32 \<Rightarrow> u32 \<Rightarrow> u8 list" where
  "WriteInt32ToArray num v = WriteTagToArray num 0 @ UnsafeVarint (scast v)"

definition WriteInt64ToArray :: "u32 \<Rightarrow> u64 \<Rightarrow> u8 list" where
  "WriteInt64ToArray num v = WriteTagToArray num 0 @ UnsafeVarint v"

definition WriteBoolToArray :: "u32 \<Rightarrow> bool \<Rightarrow> u8 list" where
  "WriteBoolToArray num v = WriteTagToArray num 0 @ UnsafeVarint (if v then 1 else 0)"

definition WriteStringMaybeAliased :: "u32 \<Rightarrow> u8 list \<Rightarrow> u8 list" where
  "WriteStringMaybeAliased num s = WriteTagToArray num 2 @ UnsafeVarint (ucast (of_nat (length s) :: u32)) @ s"

section \<open>Sizes\<close>

text \<open>\<open>Log2FloorNonZero\<close>.\<close>

function log2_floor :: "nat \<Rightarrow> nat" where
  "log2_floor n = (if n < 2 then 0 else Suc (log2_floor (n div 2)))"
  by pat_completeness auto
termination
  by (relation "measure id") auto

declare log2_floor.simps [simp del]

definition VarintSize32 :: "u32 \<Rightarrow> nat" where
  "VarintSize32 v = (log2_floor (unat (v OR 1)) * 9 + 73) div 64"

definition VarintSize64 :: "u64 \<Rightarrow> nat" where
  "VarintSize64 v = (log2_floor (unat (v OR 1)) * 9 + 73) div 64"

definition Int32Size :: "u32 \<Rightarrow> nat" where
  "Int32Size v = (if sint v < 0 then 10 else VarintSize32 v)"

definition Int64Size :: "u64 \<Rightarrow> nat" where
  "Int64Size v = VarintSize64 v"

definition StringSize :: "u8 list \<Rightarrow> nat" where
  "StringSize s = length s + VarintSize32 (of_nat (length s))"

section \<open>Reading\<close>

text \<open>The loops of the readers: byte number \<open>i\<close>, up to number \<open>n\<close>.  The continuation bit of the byte before is taken
  back by the subtraction.\<close>

fun varint_loop :: "nat \<Rightarrow> nat \<Rightarrow> 'a::len word \<Rightarrow> u8 list \<Rightarrow> ('a word \<times> u8 list) option" where
  "varint_loop i n res [] = None"
| "varint_loop i n res (b # bs) =
    (if n \<le> i then None
     else let res = res + push_bit (7 * i) (ucast b - 1) in if b < 128 then Some (res, bs) else varint_loop (Suc i) n res bs)"

definition VarintParseSlow64 :: "u32 \<Rightarrow> u8 list \<Rightarrow> (u64 \<times> u8 list) option" where
  "VarintParseSlow64 res32 bs = varint_loop 2 10 (ucast res32) bs"

fun VarintParse :: "u8 list \<Rightarrow> (u64 \<times> u8 list) option" where
  "VarintParse [] = None"
| "VarintParse (b # bs) =
    (let res = (ucast b :: u32)
     in if res AND 0x80 = 0 then Some (ucast res, bs)
        else case bs of
               [] \<Rightarrow> None
             | byte # bs \<Rightarrow>
                 let res = res + push_bit 7 (ucast byte - 1)
                 in if byte AND 0x80 = 0 then Some (ucast res, bs) else VarintParseSlow64 res bs)"

definition ReadTagFallback :: "u32 \<Rightarrow> u8 list \<Rightarrow> (u32 \<times> u8 list) option" where
  "ReadTagFallback res bs = varint_loop 2 5 res bs"

fun ReadTag :: "u8 list \<Rightarrow> (u32 \<times> u8 list) option" where
  "ReadTag [] = None"
| "ReadTag (b # bs) =
    (let res = (ucast b :: u32)
     in if res < 128 then Some (res, bs)
        else case bs of
               [] \<Rightarrow> None
             | second # bs \<Rightarrow>
                 let res = res + push_bit 7 (ucast second - 1)
                 in if second < 128 then Some (res, bs) else ReadTagFallback res bs)"

definition INT_MAX :: nat where "INT_MAX = 2147483647"

text \<open>The value of byte number \<open>i\<close> in the sum.\<close>

definition varint_add :: "nat \<Rightarrow> u8 \<Rightarrow> u32 \<Rightarrow> u32" where
  "varint_add i b res = res + push_bit (7 * i) (ucast b - 1)"

fun ReadSizeFallback :: "u32 \<Rightarrow> u8 list \<Rightarrow> (u32 \<times> u8 list) option" where
  "ReadSizeFallback res (b1 # b2 # b3 # b4 # bs) =
    (let r1 = varint_add 1 b1 res; r2 = varint_add 2 b2 r1; r3 = varint_add 3 b3 r2
     in if b1 < 128 then Some (r1, b2 # b3 # b4 # bs)
        else if b2 < 128 then Some (r2, b3 # b4 # bs)
        else if b3 < 128 then Some (r3, b4 # bs)
        else if 8 \<le> b4 then None
        else let r4 = varint_add 4 b4 r3 in if INT_MAX - 16 < unat r4 then None else Some (r4, bs))"
| "ReadSizeFallback res bs = varint_loop 1 4 res bs"

fun ReadSize :: "u8 list \<Rightarrow> (u32 \<times> u8 list) option" where
  "ReadSize [] = None"
| "ReadSize (b # bs) = (if b < 128 then Some (ucast b, bs) else ReadSizeFallback (ucast b) bs)"

definition InlineGreedyStringParser :: "u8 list \<Rightarrow> (u8 list \<times> u8 list) option" where
  "InlineGreedyStringParser bs =
    (case ReadSize bs of
       None \<Rightarrow> None
     | Some (n, bs) \<Rightarrow> if unat n \<le> length bs then Some (take (unat n) bs, drop (unat n) bs) else None)"

section \<open>Numbers round trip\<close>

text \<open>The bytes of a number, in terms of its digits in base 128.\<close>

fun digits128 :: "nat \<Rightarrow> u8 list" where
  "digits128 n = (if n < 128 then [of_nat n] else of_nat (n mod 128 + 128) # digits128 (n div 128))"

declare digits128.simps [simp del]

lemma or_128: "ucast (v OR 0x80 :: u64) = (of_nat (unat v mod 128 + 128) :: u8)"
proof -
  have "(ucast (v OR 0x80) :: u8) = ucast v OR 0x80"
    by (simp add: bit_eq_iff bit_simps)
  also have "\<dots> = take_bit 7 (ucast v) OR 0x80"
    by (rule bit_word_eqI) (auto simp: bit_simps numeral_eq_Suc less_Suc_eq)
  also have "\<dots> = take_bit 7 (ucast v) + 0x80"
    by (rule disjunctive_add [symmetric]) (auto simp: bit_simps numeral_eq_Suc less_Suc_eq)
  also have "take_bit 7 (ucast v :: u8) = of_nat (unat v mod 128)"
  proof -
    have "unat (take_bit 7 (ucast v :: u8)) = unat v mod 128"
      by (simp only: unsigned_take_bit_eq unsigned_ucast_eq) (simp add: take_bit_eq_mod [where 'a = nat] mod_mod_cancel)
    then show ?thesis
      by (metis of_nat_unat ucast_id)
  qed
  finally show ?thesis
    by simp
qed

lemma UnsafeVarint_digits: "UnsafeVarint v = digits128 (unat v)"
proof (induction v rule: UnsafeVarint.induct)
  case (1 v)
  show ?case
    using 1 or_128 [of v] unat_drop_bit [of 7 v]
    by (subst UnsafeVarint.simps, subst digits128.simps) (simp add: word_less_nat_alt)
qed

lemma varint_loop_digits:
  assumes "i < n" "m < 2 ^ (7 * n)" "0 < i"
  shows "varint_loop i n (of_nat (m mod 2 ^ (7 * i) + 2 ^ (7 * i)) :: 'a::len word) (digits128 (m div 2 ^ (7 * i)) @ bs) =
    Some (of_nat m, bs)"
  using assms
proof (induction "n - i" arbitrary: i)
  case (Suc d)
  let ?w = "m div 2 ^ (7 * i)"
  have split: "of_nat (m mod 2 ^ (7 * i) + 2 ^ (7 * i)) + push_bit (7 * i) (of_nat b - 1) =
      (of_nat (m mod 2 ^ (7 * i) + b * 2 ^ (7 * i)) :: 'a word)" for b
    by (simp add: push_bit_eq_mult algebra_simps)
  have m: "m mod 2 ^ (7 * i) + ?w * 2 ^ (7 * i) = m"
    by (rule mod_div_mult_eq)
  show ?case
  proof (cases "?w < 128")
    case True
    then have b: "unat (of_nat ?w :: u8) = ?w" "(of_nat ?w :: u8) < 128"
      by (simp_all add: unat_of_nat word_less_nat_alt take_bit_nat_eq_self)
    then have "(ucast (of_nat ?w :: u8) :: 'a word) = of_nat ?w"
      by (metis of_nat_unat)
    then show ?thesis
      using Suc True b(2) split [of ?w] m by (subst digits128.simps) (simp add: Let_def)
  next
    case False
    let ?b = "?w mod 128 + 128"
    have "unat (of_nat ?b :: u8) = ?b"
      by (subst unat_of_nat) (simp add: take_bit_nat_eq_self)
    then have b: "(ucast (of_nat ?b :: u8) :: 'a word) = of_nat ?b" "\<not> (of_nat ?b :: u8) < 128"
      by (metis of_nat_unat, simp add: word_less_nat_alt)
    have pow: "2 ^ (7 * Suc i) = 2 ^ (7 * i) * (128 :: nat)"
      by (simp add: power_add)
    have "m mod 2 ^ (7 * i) + ?b * 2 ^ (7 * i) = m mod 2 ^ (7 * Suc i) + 2 ^ (7 * Suc i)"
      unfolding pow mod_mult2_eq by (simp add: algebra_simps)
    moreover have "?w div 128 = m div 2 ^ (7 * Suc i)"
      unfolding pow div_mult2_eq ..
    moreover have "Suc i < n"
    proof (rule ccontr)
      assume "\<not> Suc i < n"
      then have "n = Suc i"
        using Suc.prems(1) by simp
      then have "?w < 128"
        using Suc.prems(2) by (simp add: power_add less_mult_imp_div_less)
      then show False
        using False by simp
    qed
    ultimately show ?thesis
      using Suc.hyps(1) [of "Suc i"] Suc.hyps(2) Suc.prems False b split [of ?b] by (subst digits128.simps) (simp add: Let_def)
  qed
qed simp

lemma bit_7_iff: "(ucast b :: 'a::len word) AND 0x80 = 0 \<longleftrightarrow> b < 128" if "8 \<le> LENGTH('a)" for b :: u8
proof -
  have "(ucast b :: 'a word) AND 0x80 = 0 \<longleftrightarrow> \<not> bit b 7"
  proof -
    have "(0x80 :: 'a word) = 2 ^ 7"
      by simp
    then show ?thesis
      using that by (simp only: and_exp_eq_0_iff_not_bit bit_ucast_iff) simp
  qed
  also have "bit b 7 \<longleftrightarrow> odd (unat b div 128)"
    using bit_unsigned_iff [where 'a = nat, of b 7] by (simp add: bit_iff_odd)
  also have "\<not> odd (unat b div 128) \<longleftrightarrow> b < 128"
  proof -
    have "unat b div 128 < 2"
      using unat_u8_less [of b] by (simp add: less_mult_imp_div_less)
    then show ?thesis
      by (auto simp: word_less_nat_alt less_2_cases_iff div_eq_0_iff)
  qed
  finally show ?thesis .
qed

lemma unat_digit: "unat (of_nat (n mod 128 + 128) :: u8) = n mod 128 + 128"
  by (subst unat_of_nat) (simp add: take_bit_nat_eq_self)

lemma unat_last_digit: "n < 128 \<Longrightarrow> unat (of_nat n :: u8) = n"
  by (subst unat_of_nat) (simp add: take_bit_nat_eq_self)

text \<open>The readers as one loop.\<close>

lemma ReadTag_loop: "ReadTag (b # bs) = (if b < 128 then Some (ucast b, bs) else varint_loop 1 5 (ucast b) bs)"
proof -
  have "(ucast b :: u32) < 128 \<longleftrightarrow> b < 128"
    using unat_u8_less [of b] by (simp add: word_less_nat_alt unsigned_ucast_eq take_bit_nat_eq_self)
  then show ?thesis
    by (cases bs) (simp_all add: ReadTagFallback_def Let_def numeral_2_eq_2)
qed

lemma varint_two_bytes:
  fixes b c :: u8
  assumes "\<not> b < 128"
  shows "ucast b + push_bit 7 (ucast c - 1) = (of_nat (unat b - 128 + unat c * 128) :: 'a::len word)"
proof -
  have b: "128 \<le> unat b"
    using assms by (simp add: word_less_nat_alt)
  have "of_nat (unat b - 128 + unat c * 128) = (of_nat (unat b) - 128 + of_nat (unat c) * 128 :: 'a word)"
    using b by (simp add: of_nat_diff)
  then show ?thesis
    by (simp add: push_bit_eq_mult algebra_simps)
qed

lemma ucast_of_nat_small: "k < 2 ^ 32 \<Longrightarrow> ucast (of_nat k :: u32) = (of_nat k :: u64)"
proof -
  assume "k < 2 ^ 32"
  then have "unat (of_nat k :: u32) = k"
    by (simp add: unat_of_nat take_bit_nat_eq_self)
  then show ?thesis
    by (metis of_nat_unat)
qed

lemma VarintParse_loop: "VarintParse (b # bs) = (if b < 128 then Some (ucast b, bs) else varint_loop 1 10 (ucast b) bs)"
proof (cases "b < 128")
  case True
  have "ucast (ucast b :: u32) = (ucast b :: u64)"
    by (rule bit_word_eqI) (auto simp: bit_simps dest: bit_imp_le_length)
  then show ?thesis
    using True by (simp add: bit_7_iff Let_def)
next
  case False
  have "ucast (ucast b + push_bit 7 (ucast c - 1) :: u32) = (ucast b + push_bit 7 (ucast c - 1) :: u64)" for c :: u8
  proof -
    have "unat b - 128 + unat c * 128 < 2 ^ 32"
      using unat_u8_less [of b] unat_u8_less [of c] by simp
    then show ?thesis
      unfolding varint_two_bytes [OF False] by (rule ucast_of_nat_small)
  qed
  moreover have "c AND 0x80 = 0 \<longleftrightarrow> c < 128" for c :: u8
    using bit_7_iff [where 'a = 8, of c] by simp
  ultimately show ?thesis
    using False by (cases bs) (simp_all add: bit_7_iff Let_def VarintParseSlow64_def numeral_2_eq_2)
qed

lemma loop_digits:
  assumes "m < 2 ^ (7 * n)" "1 < n" "digits128 m @ bs = b # cs"
  shows "(if b < 128 then Some (ucast b, cs) else varint_loop 1 n (ucast b) cs) = Some (of_nat m :: 'a::len word, bs)"
proof (cases "m < 128")
  case True
  then have "b = of_nat m" "cs = bs"
    using assms(3) by (simp_all add: digits128.simps)
  then show ?thesis
    using True unat_last_digit [OF True] by (simp add: word_less_nat_alt) (metis of_nat_unat)
next
  case False
  then have b: "b = of_nat (m mod 128 + 128)" and cs: "cs = digits128 (m div 128) @ bs"
    using assms(3) by (subst (asm) digits128.simps, simp)+
  have "\<not> b < 128" "(ucast b :: 'a word) = of_nat (m mod 128 + 128)"
    unfolding b using unat_digit [of m] by (simp add: word_less_nat_alt) (metis unat_digit of_nat_unat)
  then show ?thesis
    using varint_loop_digits [of 1 n m bs] assms(1,2) by (simp add: cs)
qed

lemma digits128_Cons: "\<exists>b cs. digits128 m @ bs = b # cs"
  by (subst digits128.simps) simp

lemma VarintParse_UnsafeVarint [simp]: "VarintParse (UnsafeVarint v @ bs) = Some (v, bs)"
proof -
  obtain b cs where *: "digits128 (unat v) @ bs = b # cs"
    using digits128_Cons by blast
  have "unat v < 2 ^ (7 * 10)"
    using unsigned_less [where 'a = nat, of v] by simp
  from loop_digits [OF this _ *, where 'a = 64] show ?thesis
    by (simp add: UnsafeVarint_digits * VarintParse_loop del: VarintParse.simps)
qed

lemma ReadTag_UnsafeVarint [simp]: "ReadTag (UnsafeVarint (ucast t) @ bs) = Some (t, bs)"
proof -
  have t: "unat (ucast t :: u64) = unat t"
    using unsigned_less [where 'a = nat, of t] by (simp add: unsigned_ucast_eq take_bit_nat_eq_self)
  obtain b cs where *: "digits128 (unat t) @ bs = b # cs"
    using digits128_Cons by blast
  have "unat t < 2 ^ (7 * 5)"
    using unsigned_less [where 'a = nat, of t] by simp
  from loop_digits [OF this _ *, where 'a = 32] show ?thesis
    by (simp add: UnsafeVarint_digits t * ReadTag_loop del: ReadTag.simps)
qed

lemma ReadSizeFallback_short: "varint_loop 1 4 res bs = Some r \<Longrightarrow> ReadSizeFallback res bs = Some r"
  by (induction res bs rule: ReadSizeFallback.induct) (auto simp: Let_def varint_add_def numeral_eq_Suc split: if_splits)

lemma ReadSizeFallback_long:
  assumes "varint_loop 1 5 res (b1 # b2 # b3 # b4 # bs) = Some (r, bs)" "\<not> b1 < 128" "\<not> b2 < 128" "\<not> b3 < 128" "b4 < 8"
    and "unat r \<le> INT_MAX - 16"
  shows "ReadSizeFallback res (b1 # b2 # b3 # b4 # bs) = Some (r, bs)"
proof -
  have "b4 < 128"
    using assms(5) by (simp add: word_less_nat_alt)
  then show ?thesis
    using assms by (simp add: Let_def varint_add_def not_le numeral_eq_Suc)
qed

lemma ReadSize_UnsafeVarint:
  assumes "m \<le> INT_MAX - 16"
  shows "ReadSize (UnsafeVarint (of_nat m) @ bs) = Some (of_nat m, bs)"
proof -
  have m: "unat (of_nat m :: u64) = m" "unat (of_nat m :: u32) = m" and m31: "m < 2 ^ 31"
    using assms by (simp_all add: unat_of_nat INT_MAX_def take_bit_nat_eq_self)
  obtain b cs where b: "digits128 m @ bs = b # cs"
    using digits128_Cons by blast
  show ?thesis
  proof (cases "m < 2 ^ 28")
    case True
    then have "(if b < 128 then Some (ucast b, cs) else varint_loop 1 4 (ucast b) cs) = Some (of_nat m :: u32, bs)"
      by (intro loop_digits [OF _ _ b]) simp_all
    then show ?thesis
      using ReadSizeFallback_short [of "ucast b" cs "(of_nat m, bs)"] by (simp add: UnsafeVarint_digits m b split: if_splits)
  next
    case False
    define a1 where "a1 = m div 128"
    define a2 where "a2 = a1 div 128"
    define a3 where "a3 = a2 div 128"
    define a4 where "a4 = a3 div 128"
    have "a4 = m div 2 ^ 28" "2 ^ 28 \<le> m"
      using False by (simp_all add: a1_def a2_def a3_def a4_def div_mult2_eq [symmetric])
    then have last: "a4 < 8" and "0 < a4"
      using m31 by (simp_all add: less_mult_imp_div_less div_greater_zero_iff)
    then have big: "\<not> a3 < 128" "\<not> a2 < 128" "\<not> a1 < 128" "\<not> m < 128"
      by (auto simp: a4_def a3_def a2_def a1_def)
    let ?d = "\<lambda>k. of_nat (k mod 128 + 128) :: u8"
    have d: "digits128 m = [?d m, ?d a1, ?d a2, ?d a3, of_nat a4]"
      using big last digits128.simps [of m] digits128.simps [of a1] digits128.simps [of a2] digits128.simps [of a3] digits128.simps [of a4]
      by (simp only: a1_def [symmetric] a2_def [symmetric] a3_def [symmetric] a4_def [symmetric]) simp
    have big_d: "\<not> ?d k < 128" for k
      using unat_digit [of k] by (simp only: word_less_nat_alt) simp
    have last_d: "(of_nat a4 :: u8) < 8"
      using last unat_last_digit [of a4] by (simp add: word_less_nat_alt)
    have "b = ?d m" "cs = ?d a1 # ?d a2 # ?d a3 # of_nat a4 # bs"
      using b by (simp_all only: d append_Cons append_Nil list.inject)
    moreover have "(if b < 128 then Some (ucast b, cs) else varint_loop 1 5 (ucast b) cs) = Some (of_nat m :: u32, bs)"
      using m31 by (intro loop_digits [OF _ _ b]) simp_all
    ultimately have "varint_loop 1 5 (ucast b) (?d a1 # ?d a2 # ?d a3 # of_nat a4 # bs) = Some (of_nat m :: u32, bs)" "\<not> b < 128"
      using big_d [of m] by (simp_all only: if_False not_False_eq_True)
    from ReadSizeFallback_long [OF this(1) big_d big_d big_d last_d] this(2) show ?thesis
      unfolding UnsafeVarint_digits m(1) b \<open>cs = _\<close> using assms m(2) by (simp only: ReadSize.simps if_False)
  qed
qed

lemma InlineGreedyStringParser_write [simp]:
  assumes "length s \<le> INT_MAX - 16"
  shows "InlineGreedyStringParser (UnsafeVarint (ucast (of_nat (length s) :: u32)) @ s @ bs) = Some (s, bs)"
proof -
  have small: "length s < 2 ^ 32"
    using assms by (simp add: INT_MAX_def)
  then have "unat (of_nat (length s) :: u32) = length s"
    by (simp add: unat_of_nat take_bit_nat_eq_self)
  then show ?thesis
    using ReadSize_UnsafeVarint [OF assms, of "s @ bs"] by (simp add: InlineGreedyStringParser_def ucast_of_nat_small [OF small])
qed

section \<open>Sizes are exact\<close>

lemma log2_floor_div: "2 ^ k \<le> n \<Longrightarrow> log2_floor n = k + log2_floor (n div 2 ^ k)"
proof (induction k arbitrary: n)
  case (Suc k)
  have n: "2 * 2 ^ k \<le> n" and "(1 :: nat) \<le> 2 ^ k"
    using Suc.prems by simp_all
  then have "\<not> n < 2"
    by linarith
  moreover have "2 ^ k \<le> n div 2"
    using n by (simp add: less_eq_div_iff_mult_less_eq mult.commute)
  ultimately have "log2_floor n = Suc (k + log2_floor (n div 2 div 2 ^ k))"
    using Suc.IH [of "n div 2"] by (subst log2_floor.simps) simp
  then show ?case
    by (simp add: div_mult2_eq)
qed simp

lemma log2_floor_less: "n < 2 ^ k \<Longrightarrow> 0 < k \<Longrightarrow> log2_floor n < k"
proof (induction k arbitrary: n)
  case (Suc k)
  show ?case
  proof (cases "n < 2")
    case False
    then have "0 < k" "n div 2 < 2 ^ k"
      using Suc.prems by (cases k; auto)+
    then show ?thesis
      using Suc.IH [of "n div 2"] False by (subst log2_floor.simps) simp
  qed (subst log2_floor.simps, simp)
qed simp

lemma length_digits128: "length (digits128 n) = log2_floor n div 7 + 1"
proof (induction n rule: digits128.induct)
  case (1 n)
  show ?case
  proof (cases "n < 128")
    case True
    then show ?thesis
      using log2_floor_less [of n 7] by (subst digits128.simps) simp
  next
    case False
    then show ?thesis
      using 1 log2_floor_div [of 7 n] by (subst digits128.simps) simp
  qed
qed

lemma log2_floor_or_1: "log2_floor (n OR 1) = log2_floor n"
proof (cases "n < 2")
  case True
  then have "n = 0 \<or> n = 1"
    by auto
  then show ?thesis
    by (subst (1 2) log2_floor.simps) auto
next
  case False
  have "n OR 1 = n + of_bool (even n)"
    by (rule or_one_eq)
  then have "(n OR 1) div 2 = n div 2" "\<not> (n OR 1) < 2"
    using False by (cases "even n"; simp; presburger)+
  then show ?thesis
    using False by (subst (1 2) log2_floor.simps) simp
qed

lemma nine_over_64: "l < 64 \<Longrightarrow> (l * 9 + 73) div 64 = l div 7 + (1 :: nat)"
proof -
  have "list_all (\<lambda>l. (l * 9 + 73) div 64 = l div 7 + (1 :: nat)) [0..<64]"
    by code_simp
  then show "l < 64 \<Longrightarrow> ?thesis"
    by (simp add: list_all_iff)
qed

lemma VarintSize64: "VarintSize64 v = length (UnsafeVarint v)"
proof -
  have "unat v < 2 ^ 64"
    using unsigned_less [where 'a = nat, of v] by simp
  then have "log2_floor (unat v) < 64"
    by (rule log2_floor_less) simp
  then show ?thesis
    by (simp add: VarintSize64_def UnsafeVarint_digits length_digits128 unsigned_or_eq log2_floor_or_1 [unfolded One_nat_def] nine_over_64)
qed

lemma VarintSize32: "VarintSize32 v = length (UnsafeVarint (ucast v))"
proof -
  have v: "unat v < 2 ^ 32"
    using unsigned_less [where 'a = nat, of v] by simp
  then have u: "unat (ucast v :: u64) = unat v"
    by (simp add: unsigned_ucast_eq take_bit_nat_eq_self)
  have "log2_floor (unat v) < 32"
    using v by (rule log2_floor_less) simp
  then show ?thesis
    by (simp add: VarintSize32_def UnsafeVarint_digits u length_digits128 unsigned_or_eq log2_floor_or_1 [unfolded One_nat_def] nine_over_64)
qed

lemma uint_scast: "uint (scast v :: u64) = (if sint v < 0 then sint v + 2 ^ 64 else sint v)" for v :: u32
proof -
  have r: "- (2 ^ 31) \<le> sint v" "sint v < 2 ^ 31"
    using sint_ge [of v] sint_lt [of v] by simp_all
  have "uint (scast v :: u64) = sint v mod 2 ^ 64"
    using uint_word_of_int [where 'a = 64, of "sint v"] by simp
  also have "\<dots> = (if sint v < 0 then sint v + 2 ^ 64 else sint v)"
    using r mod_add_self2 [of "sint v" "2 ^ 64"] mod_pos_pos_trivial [of "sint v + 2 ^ 64" "2 ^ 64"] by auto
  finally show ?thesis .
qed

lemma Int32Size: "Int32Size v = length (UnsafeVarint (scast v))"
proof (cases "sint v < 0")
  case True
  have "- (2 ^ 31) \<le> sint v"
    using sint_ge [of v] by simp
  then have "2 ^ 63 \<le> uint (scast v :: u64)"
    using True by (simp add: uint_scast)
  then have "int (2 ^ 63) \<le> int (unat (scast v :: u64))"
    by simp
  then have "2 ^ 63 \<le> unat (scast v :: u64)"
    by (simp only: of_nat_le_iff)
  moreover have "unat (scast v :: u64) < 2 ^ 64"
    using unsigned_less [where 'a = nat, of "scast v :: u64"] by simp
  ultimately have "63 \<le> log2_floor (unat (scast v :: u64))" "log2_floor (unat (scast v :: u64)) < 64"
    by (metis le_add1 log2_floor_div, auto intro: log2_floor_less)
  then have "log2_floor (unat (scast v :: u64)) = 63"
    by simp
  then show ?thesis
    using True by (simp add: Int32Size_def UnsafeVarint_digits length_digits128)
next
  case False
  have "uint v = sint v mod 2 ^ 32"
    using uint_sint [of v] by (simp add: take_bit_eq_mod)
  also have "\<dots> = sint v"
    using False sint_lt [of v] by simp
  finally have "uint (scast v :: u64) = uint v"
    using False by (simp add: uint_scast)
  from arg_cong [OF this, of nat] have "unat (scast v :: u64) = unat v"
    by simp
  moreover have "unat (ucast v :: u64) = unat v"
    using unsigned_less [where 'a = nat, of v] by (simp add: unsigned_ucast_eq take_bit_nat_eq_self)
  ultimately show ?thesis
    using False by (simp add: Int32Size_def VarintSize32 UnsafeVarint_digits)
qed

end
