(* ===== verification/Messages.thy ===== *)
theory Messages
  imports WireFormat
begin

text \<open>
  The messages that the protocol buffers compiler has made: \<open>request\<close> and \<open>response\<close> of \<open>src/base/auth/auth.pb.cc\<close>, and the
  parameters of \<open>src/mvvm/pb/MvvmBasicParam.pb.cc\<close>.  A field with a bit in \<open>_has_bits_\<close> is an option; the messages of the
  second file have none, and leave a field with its default value out.  Unknown fields are kept as the bytes that
  are written for them; how the library parses one is a parameter, and so is its check of UTF-8.
\<close>

section \<open>The loop of the parsers\<close>

text \<open>What the \<open>switch\<close> of a message makes of a field: it is parsed, it is malformed, or it is left to
  \<open>handle_unusual\<close>.\<close>

datatype 'm field_result = Field 'm "u8 list" | Malformed | Unusual

type_synonym unknown_parser = "u32 \<Rightarrow> u8 list \<Rightarrow> (u8 list \<times> u8 list) option"

text \<open>\<open>_InternalParse\<close> for the rest of the buffer, with a bound on the number of fields.  A message that ends with the tag 0 or the
  end of a group has not ended at the limit, which is an error of \<open>ParseFromString\<close>.\<close>

fun InternalParse ::
  "(u32 \<Rightarrow> u8 list \<Rightarrow> 'm \<Rightarrow> 'm field_result) \<Rightarrow> unknown_parser \<Rightarrow> (u8 list \<Rightarrow> 'm \<Rightarrow> 'm) \<Rightarrow> nat \<Rightarrow> 'm \<Rightarrow> u8 list \<Rightarrow> 'm option" where
  "InternalParse switch unknown add 0 m bs = (if bs = [] then Some m else None)"
| "InternalParse switch unknown add (Suc n) m bs =
    (if bs = [] then Some m
     else case ReadTag bs of
            None \<Rightarrow> None
          | Some (tag, bs) \<Rightarrow>
              (case switch tag bs m of
                 Field m bs \<Rightarrow> InternalParse switch unknown add n m bs
               | Malformed \<Rightarrow> None
               | Unusual \<Rightarrow>
                   if tag AND 7 = 4 \<or> tag = 0 then None
                   else case unknown tag bs of
                          None \<Rightarrow> None
                        | Some (u, bs) \<Rightarrow> InternalParse switch unknown add n (add u m) bs))"

text \<open>The test of a \<open>case\<close>: the number of the field, then the whole tag.\<close>

definition tag_is :: "u32 \<Rightarrow> u8 \<Rightarrow> u32 \<Rightarrow> bool" where
  "tag_is num t tag \<longleftrightarrow> drop_bit 3 tag = num \<and> ucast tag = t"

definition parse_varint :: "(u64 \<Rightarrow> 'm) \<Rightarrow> u8 list \<Rightarrow> 'm field_result" where
  "parse_varint f bs = (case VarintParse bs of None \<Rightarrow> Malformed | Some (v, bs) \<Rightarrow> Field (f v) bs)"

definition parse_string :: "(u8 list \<Rightarrow> 'm) \<Rightarrow> u8 list \<Rightarrow> 'm field_result" where
  "parse_string f bs = (case InlineGreedyStringParser bs of None \<Rightarrow> Malformed | Some (s, bs) \<Rightarrow> Field (f s) bs)"

definition opt_bytes :: "('a \<Rightarrow> u8 list) \<Rightarrow> 'a option \<Rightarrow> u8 list" where
  "opt_bytes f x = (case x of None \<Rightarrow> [] | Some a \<Rightarrow> f a)"

definition opt_size :: "('a \<Rightarrow> nat) \<Rightarrow> 'a option \<Rightarrow> nat" where
  "opt_size f x = (case x of None \<Rightarrow> 0 | Some a \<Rightarrow> 1 + f a)"

section \<open>The request\<close>

record request =
  rq_type :: "u32 option"
  rq_version :: "u32 option"
  rq_token :: "u8 list option"
  rq_deviceid :: "u8 list option"
  rq_randomid :: "u8 list option"
  rq_unknown :: "u8 list"

definition request_new :: request where
  "request_new = \<lparr>rq_type = None, rq_version = None, rq_token = None, rq_deviceid = None, rq_randomid = None, rq_unknown = []\<rparr>"

definition product_IsValid :: "u32 \<Rightarrow> bool" where
  "product_IsValid v \<longleftrightarrow> v = 0"

definition request_switch :: "u32 \<Rightarrow> u8 list \<Rightarrow> request \<Rightarrow> request field_result" where
  "request_switch tag bs m =
    (if tag_is 1 8 tag then
       parse_varint (\<lambda>v. if product_IsValid (ucast v) then m\<lparr>rq_type := Some (ucast v)\<rparr>
         else m\<lparr>rq_unknown := rq_unknown m @ WriteInt64ToArray 1 v\<rparr>) bs
     else if tag_is 2 16 tag then parse_varint (\<lambda>v. m\<lparr>rq_version := Some (ucast v)\<rparr>) bs
     else if tag_is 3 26 tag then parse_string (\<lambda>s. m\<lparr>rq_token := Some s\<rparr>) bs
     else if tag_is 4 34 tag then parse_string (\<lambda>s. m\<lparr>rq_deviceid := Some s\<rparr>) bs
     else if tag_is 5 42 tag then parse_string (\<lambda>s. m\<lparr>rq_randomid := Some s\<rparr>) bs
     else Unusual)"

definition request_InternalParse :: "unknown_parser \<Rightarrow> u8 list \<Rightarrow> request \<Rightarrow> request option" where
  "request_InternalParse unknown bs m =
    InternalParse request_switch unknown (\<lambda>u m. m\<lparr>rq_unknown := rq_unknown m @ u\<rparr>) (length bs) m bs"

definition request_InternalSerialize :: "request \<Rightarrow> u8 list" where
  "request_InternalSerialize m =
    opt_bytes (WriteInt32ToArray 1) (rq_type m) @ opt_bytes (WriteInt32ToArray 2) (rq_version m) @
    opt_bytes (WriteStringMaybeAliased 3) (rq_token m) @ opt_bytes (WriteStringMaybeAliased 4) (rq_deviceid m) @
    opt_bytes (WriteStringMaybeAliased 5) (rq_randomid m) @ rq_unknown m"

definition request_IsInitialized :: "request \<Rightarrow> bool" where
  "request_IsInitialized m \<longleftrightarrow>
    rq_token m \<noteq> None \<and> rq_deviceid m \<noteq> None \<and> rq_randomid m \<noteq> None \<and> rq_type m \<noteq> None \<and> rq_version m \<noteq> None"

definition request_RequiredFieldsByteSizeFallback :: "request \<Rightarrow> nat" where
  "request_RequiredFieldsByteSizeFallback m =
    opt_size StringSize (rq_token m) + opt_size StringSize (rq_deviceid m) + opt_size StringSize (rq_randomid m) +
    opt_size Int32Size (rq_type m) + opt_size Int32Size (rq_version m)"

definition request_ByteSizeLong :: "request \<Rightarrow> nat" where
  "request_ByteSizeLong m =
    (if request_IsInitialized m
     then (1 + StringSize (the (rq_token m))) + (1 + StringSize (the (rq_deviceid m))) + (1 + StringSize (the (rq_randomid m))) +
       (1 + Int32Size (the (rq_type m))) + (1 + Int32Size (the (rq_version m)))
     else request_RequiredFieldsByteSizeFallback m) + length (rq_unknown m)"

definition opt_or :: "'a option \<Rightarrow> 'a option \<Rightarrow> 'a option" where
  "opt_or x y = (case x of None \<Rightarrow> y | Some a \<Rightarrow> Some a)"

definition request_MergeFrom :: "request \<Rightarrow> request \<Rightarrow> request" where
  "request_MergeFrom from m =
    \<lparr>rq_type = opt_or (rq_type from) (rq_type m), rq_version = opt_or (rq_version from) (rq_version m),
     rq_token = opt_or (rq_token from) (rq_token m), rq_deviceid = opt_or (rq_deviceid from) (rq_deviceid m),
     rq_randomid = opt_or (rq_randomid from) (rq_randomid m), rq_unknown = rq_unknown m @ rq_unknown from\<rparr>"

definition request_Clear :: "request \<Rightarrow> request" where
  "request_Clear m =
    m\<lparr>rq_token := None, rq_deviceid := None, rq_randomid := None, rq_type := None, rq_version := None, rq_unknown := []\<rparr>"

definition request_CopyFrom :: "request \<Rightarrow> request \<Rightarrow> request" where
  "request_CopyFrom from m = request_MergeFrom from (request_Clear m)"

text \<open>\<open>SerializeToString\<close>: \<open>None\<close> for a message of more than 2 GB.  \<open>ParseFromString\<close>: \<open>None\<close> for the result \<open>false\<close>; what the
  message holds then is not modelled.\<close>

definition request_SerializeToString :: "request \<Rightarrow> u8 list option" where
  "request_SerializeToString m = (if INT_MAX < request_ByteSizeLong m then None else Some (request_InternalSerialize m))"

definition request_ParseFromString :: "unknown_parser \<Rightarrow> u8 list \<Rightarrow> request \<Rightarrow> request option" where
  "request_ParseFromString unknown bs m =
    (case request_InternalParse unknown bs (request_Clear m) of
       None \<Rightarrow> None | Some m \<Rightarrow> if request_IsInitialized m then Some m else None)"

section \<open>The response\<close>

record response =
  rs_code :: "u32 option"
  rs_signature :: "u8 list option"
  rs_desc :: "u8 list option"
  rs_rights :: "u8 list option"
  rs_unknown :: "u8 list"

definition response_new :: response where
  "response_new = \<lparr>rs_code = None, rs_signature = None, rs_desc = None, rs_rights = None, rs_unknown = []\<rparr>"

definition response_switch :: "u32 \<Rightarrow> u8 list \<Rightarrow> response \<Rightarrow> response field_result" where
  "response_switch tag bs m =
    (if tag_is 1 8 tag then parse_varint (\<lambda>v. m\<lparr>rs_code := Some (ucast v)\<rparr>) bs
     else if tag_is 2 18 tag then parse_string (\<lambda>s. m\<lparr>rs_signature := Some s\<rparr>) bs
     else if tag_is 3 26 tag then parse_string (\<lambda>s. m\<lparr>rs_desc := Some s\<rparr>) bs
     else if tag_is 4 34 tag then parse_string (\<lambda>s. m\<lparr>rs_rights := Some s\<rparr>) bs
     else Unusual)"

definition response_InternalParse :: "unknown_parser \<Rightarrow> u8 list \<Rightarrow> response \<Rightarrow> response option" where
  "response_InternalParse unknown bs m =
    InternalParse response_switch unknown (\<lambda>u m. m\<lparr>rs_unknown := rs_unknown m @ u\<rparr>) (length bs) m bs"

definition response_InternalSerialize :: "response \<Rightarrow> u8 list" where
  "response_InternalSerialize m =
    opt_bytes (WriteInt32ToArray 1) (rs_code m) @ opt_bytes (WriteStringMaybeAliased 2) (rs_signature m) @
    opt_bytes (WriteStringMaybeAliased 3) (rs_desc m) @ opt_bytes (WriteStringMaybeAliased 4) (rs_rights m) @ rs_unknown m"

definition response_IsInitialized :: "response \<Rightarrow> bool" where
  "response_IsInitialized m \<longleftrightarrow> rs_signature m \<noteq> None \<and> rs_code m \<noteq> None"

definition response_RequiredFieldsByteSizeFallback :: "response \<Rightarrow> nat" where
  "response_RequiredFieldsByteSizeFallback m = opt_size StringSize (rs_signature m) + opt_size Int32Size (rs_code m)"

definition response_ByteSizeLong :: "response \<Rightarrow> nat" where
  "response_ByteSizeLong m =
    (if response_IsInitialized m
     then (1 + StringSize (the (rs_signature m))) + (1 + Int32Size (the (rs_code m)))
     else response_RequiredFieldsByteSizeFallback m) +
    opt_size StringSize (rs_desc m) + opt_size StringSize (rs_rights m) + length (rs_unknown m)"

definition response_MergeFrom :: "response \<Rightarrow> response \<Rightarrow> response" where
  "response_MergeFrom from m =
    \<lparr>rs_code = opt_or (rs_code from) (rs_code m), rs_signature = opt_or (rs_signature from) (rs_signature m),
     rs_desc = opt_or (rs_desc from) (rs_desc m), rs_rights = opt_or (rs_rights from) (rs_rights m),
     rs_unknown = rs_unknown m @ rs_unknown from\<rparr>"

definition response_Clear :: "response \<Rightarrow> response" where
  "response_Clear m = m\<lparr>rs_signature := None, rs_desc := None, rs_rights := None, rs_code := None, rs_unknown := []\<rparr>"

definition response_CopyFrom :: "response \<Rightarrow> response \<Rightarrow> response" where
  "response_CopyFrom from m = response_MergeFrom from (response_Clear m)"

definition response_SerializeToString :: "response \<Rightarrow> u8 list option" where
  "response_SerializeToString m = (if INT_MAX < response_ByteSizeLong m then None else Some (response_InternalSerialize m))"

definition response_ParseFromString :: "unknown_parser \<Rightarrow> u8 list \<Rightarrow> response \<Rightarrow> response option" where
  "response_ParseFromString unknown bs m =
    (case response_InternalParse unknown bs (response_Clear m) of
       None \<Rightarrow> None | Some m \<Rightarrow> if response_IsInitialized m then Some m else None)"

section \<open>The parameters of the view models\<close>

text \<open>A value with the unknown fields of its message.\<close>

record 'v param =
  param_value :: 'v
  param_unknown :: "u8 list"

definition add_unknown :: "u8 list \<Rightarrow> 'v param \<Rightarrow> 'v param" where
  "add_unknown u m = m\<lparr>param_unknown := param_unknown m @ u\<rparr>"

definition ParamString_switch :: "(u8 list \<Rightarrow> bool) \<Rightarrow> u32 \<Rightarrow> u8 list \<Rightarrow> u8 list param \<Rightarrow> u8 list param field_result" where
  "ParamString_switch utf8 tag bs m =
    (if tag_is 1 10 tag then
       (case InlineGreedyStringParser bs of
          None \<Rightarrow> Malformed
        | Some (s, bs) \<Rightarrow> if utf8 s then Field (m\<lparr>param_value := s\<rparr>) bs else Malformed)
     else Unusual)"

definition ParamInt32_switch :: "u32 \<Rightarrow> u8 list \<Rightarrow> u32 param \<Rightarrow> u32 param field_result" where
  "ParamInt32_switch tag bs m = (if tag_is 1 8 tag then parse_varint (\<lambda>v. m\<lparr>param_value := ucast v\<rparr>) bs else Unusual)"

definition ParamBool_switch :: "u32 \<Rightarrow> u8 list \<Rightarrow> bool param \<Rightarrow> bool param field_result" where
  "ParamBool_switch tag bs m = (if tag_is 1 8 tag then parse_varint (\<lambda>v. m\<lparr>param_value := (v \<noteq> 0)\<rparr>) bs else Unusual)"

definition ParamInt64_switch :: "u32 \<Rightarrow> u8 list \<Rightarrow> u64 param \<Rightarrow> u64 param field_result" where
  "ParamInt64_switch tag bs m = (if tag_is 1 8 tag then parse_varint (\<lambda>v. m\<lparr>param_value := v\<rparr>) bs else Unusual)"

definition ParamString_ParseFromString :: "(u8 list \<Rightarrow> bool) \<Rightarrow> unknown_parser \<Rightarrow> u8 list \<Rightarrow> u8 list param option" where
  "ParamString_ParseFromString utf8 unknown bs =
    InternalParse (ParamString_switch utf8) unknown add_unknown (length bs) \<lparr>param_value = [], param_unknown = []\<rparr> bs"

definition ParamInt32_ParseFromString :: "unknown_parser \<Rightarrow> u8 list \<Rightarrow> u32 param option" where
  "ParamInt32_ParseFromString unknown bs =
    InternalParse ParamInt32_switch unknown add_unknown (length bs) \<lparr>param_value = 0, param_unknown = []\<rparr> bs"

definition ParamBool_ParseFromString :: "unknown_parser \<Rightarrow> u8 list \<Rightarrow> bool param option" where
  "ParamBool_ParseFromString unknown bs =
    InternalParse ParamBool_switch unknown add_unknown (length bs) \<lparr>param_value = False, param_unknown = []\<rparr> bs"

definition ParamInt64_ParseFromString :: "unknown_parser \<Rightarrow> u8 list \<Rightarrow> u64 param option" where
  "ParamInt64_ParseFromString unknown bs =
    InternalParse ParamInt64_switch unknown add_unknown (length bs) \<lparr>param_value = 0, param_unknown = []\<rparr> bs"

definition ParamString_InternalSerialize :: "u8 list param \<Rightarrow> u8 list" where
  "ParamString_InternalSerialize m =
    (if 0 < length (param_value m) then WriteStringMaybeAliased 1 (param_value m) else []) @ param_unknown m"

definition ParamInt32_InternalSerialize :: "u32 param \<Rightarrow> u8 list" where
  "ParamInt32_InternalSerialize m = (if param_value m \<noteq> 0 then WriteInt32ToArray 1 (param_value m) else []) @ param_unknown m"

definition ParamBool_InternalSerialize :: "bool param \<Rightarrow> u8 list" where
  "ParamBool_InternalSerialize m = (if param_value m then WriteBoolToArray 1 (param_value m) else []) @ param_unknown m"

definition ParamInt64_InternalSerialize :: "u64 param \<Rightarrow> u8 list" where
  "ParamInt64_InternalSerialize m = (if param_value m \<noteq> 0 then WriteInt64ToArray 1 (param_value m) else []) @ param_unknown m"

definition ParamString_ByteSizeLong :: "u8 list param \<Rightarrow> nat" where
  "ParamString_ByteSizeLong m = (if 0 < length (param_value m) then 1 + StringSize (param_value m) else 0) + length (param_unknown m)"

definition ParamInt32_ByteSizeLong :: "u32 param \<Rightarrow> nat" where
  "ParamInt32_ByteSizeLong m = (if param_value m \<noteq> 0 then 1 + Int32Size (param_value m) else 0) + length (param_unknown m)"

definition ParamBool_ByteSizeLong :: "bool param \<Rightarrow> nat" where
  "ParamBool_ByteSizeLong m = (if param_value m then 1 + 1 else 0) + length (param_unknown m)"

definition ParamInt64_ByteSizeLong :: "u64 param \<Rightarrow> nat" where
  "ParamInt64_ByteSizeLong m = (if param_value m \<noteq> 0 then 1 + Int64Size (param_value m) else 0) + length (param_unknown m)"

text \<open>\<open>MergeFrom\<close> takes over a value that is not the default; \<open>CopyFrom\<close> of another message clears this one first.\<close>

definition ParamString_Clear :: "u8 list param \<Rightarrow> u8 list param" where
  "ParamString_Clear m = m\<lparr>param_value := [], param_unknown := []\<rparr>"

definition ParamString_MergeFrom :: "u8 list param \<Rightarrow> u8 list param \<Rightarrow> u8 list param" where
  "ParamString_MergeFrom from m =
    (let m = add_unknown (param_unknown from) m in if 0 < length (param_value from) then m\<lparr>param_value := param_value from\<rparr> else m)"

definition ParamString_CopyFrom :: "u8 list param \<Rightarrow> u8 list param \<Rightarrow> u8 list param" where
  "ParamString_CopyFrom from m = ParamString_MergeFrom from (ParamString_Clear m)"

definition ParamInt32_Clear :: "u32 param \<Rightarrow> u32 param" where
  "ParamInt32_Clear m = m\<lparr>param_value := 0, param_unknown := []\<rparr>"

definition ParamInt32_MergeFrom :: "u32 param \<Rightarrow> u32 param \<Rightarrow> u32 param" where
  "ParamInt32_MergeFrom from m =
    (let m = add_unknown (param_unknown from) m in if param_value from \<noteq> 0 then m\<lparr>param_value := param_value from\<rparr> else m)"

definition ParamInt32_CopyFrom :: "u32 param \<Rightarrow> u32 param \<Rightarrow> u32 param" where
  "ParamInt32_CopyFrom from m = ParamInt32_MergeFrom from (ParamInt32_Clear m)"

definition ParamBool_Clear :: "bool param \<Rightarrow> bool param" where
  "ParamBool_Clear m = m\<lparr>param_value := False, param_unknown := []\<rparr>"

definition ParamBool_MergeFrom :: "bool param \<Rightarrow> bool param \<Rightarrow> bool param" where
  "ParamBool_MergeFrom from m =
    (let m = add_unknown (param_unknown from) m in if param_value from then m\<lparr>param_value := param_value from\<rparr> else m)"

definition ParamBool_CopyFrom :: "bool param \<Rightarrow> bool param \<Rightarrow> bool param" where
  "ParamBool_CopyFrom from m = ParamBool_MergeFrom from (ParamBool_Clear m)"

definition ParamInt64_Clear :: "u64 param \<Rightarrow> u64 param" where
  "ParamInt64_Clear m = m\<lparr>param_value := 0, param_unknown := []\<rparr>"

definition ParamInt64_MergeFrom :: "u64 param \<Rightarrow> u64 param \<Rightarrow> u64 param" where
  "ParamInt64_MergeFrom from m =
    (let m = add_unknown (param_unknown from) m in if param_value from \<noteq> 0 then m\<lparr>param_value := param_value from\<rparr> else m)"

definition ParamInt64_CopyFrom :: "u64 param \<Rightarrow> u64 param \<Rightarrow> u64 param" where
  "ParamInt64_CopyFrom from m = ParamInt64_MergeFrom from (ParamInt64_Clear m)"

end
