(* ===== verification/MessagesSpec.thy ===== *)
theory MessagesSpec
  imports Messages
begin

text \<open>
  The messages on the wire: the sizes the library reserves for them are exact, and what is written is read back.
\<close>

section \<open>Tags\<close>

lemma MakeTag_values:
  "MakeTag 1 0 = 8" "MakeTag 2 0 = 16" "MakeTag 1 2 = 10" "MakeTag 2 2 = 18" "MakeTag 3 2 = 26" "MakeTag 4 2 = 34" "MakeTag 5 2 = 42"
  by (simp_all add: MakeTag_def push_bit_eq_mult)

lemma tag_is_values: "tag_is num t tag \<longleftrightarrow> unat tag div 8 = unat num \<and> ucast tag = t"
  by (simp add: tag_is_def word_unat_eq_iff unat_drop_bit)

lemma length_tag: "length (UnsafeVarint (ucast tag)) = 1" if "tag < 128" for tag :: u32
proof -
  have "unat tag < 128"
    using that by (simp add: word_less_nat_alt)
  then have "(ucast tag :: u64) < 0x80"
    by (simp add: word_less_nat_alt unsigned_ucast_eq take_bit_nat_eq_self)
  then show ?thesis
    by (subst UnsafeVarint.simps) simp
qed

lemma length_WriteTagToArray [simp]:
  "length (WriteTagToArray 1 0) = 1" "length (WriteTagToArray 2 0) = 1" "length (WriteTagToArray 1 2) = 1"
  "length (WriteTagToArray 2 2) = 1" "length (WriteTagToArray 3 2) = 1" "length (WriteTagToArray 4 2) = 1" "length (WriteTagToArray 5 2) = 1"
  unfolding WriteTagToArray_def MakeTag_values by (rule length_tag; simp)+

section \<open>Sizes\<close>

lemma length_string [simp]: "length (WriteTagToArray k 2) = 1 \<Longrightarrow> length (WriteStringMaybeAliased k s) = 1 + StringSize s"
  by (simp add: StringSize_def WriteStringMaybeAliased_def VarintSize32)

lemma length_int32 [simp]: "length (WriteTagToArray k 0) = 1 \<Longrightarrow> length (WriteInt32ToArray k v) = 1 + Int32Size v"
  by (simp add: Int32Size WriteInt32ToArray_def)

lemma length_int64 [simp]: "length (WriteTagToArray k 0) = 1 \<Longrightarrow> length (WriteInt64ToArray k v) = 1 + Int64Size v"
  by (simp add: Int64Size_def VarintSize64 WriteInt64ToArray_def)

lemma length_bool [simp]: "length (WriteBoolToArray 1 v) = 2"
proof -
  have "(0 :: u64) < 0x80" "(1 :: u64) < 0x80"
    by simp_all
  then show ?thesis
    by (simp add: WriteBoolToArray_def) (simp add: UnsafeVarint.simps)
qed

lemma length_opt_bytes: "(\<And>v. length (f v) = 1 + g v) \<Longrightarrow> length (opt_bytes f x) = opt_size g x"
  by (cases x) (simp_all add: opt_bytes_def opt_size_def)

lemmas length_fields = length_opt_bytes [OF length_string] length_opt_bytes [OF length_int32]

lemma byte_sizes:
  "request_ByteSizeLong q = length (request_InternalSerialize q)" "response_ByteSizeLong r = length (response_InternalSerialize r)"
proof -
  have "request_ByteSizeLong q = request_RequiredFieldsByteSizeFallback q + length (rq_unknown q)"
    by (auto simp: request_ByteSizeLong_def request_IsInitialized_def request_RequiredFieldsByteSizeFallback_def opt_size_def)
  moreover have "response_ByteSizeLong r = response_RequiredFieldsByteSizeFallback r + opt_size StringSize (rs_desc r) +
      opt_size StringSize (rs_rights r) + length (rs_unknown r)"
    by (auto simp: response_ByteSizeLong_def response_IsInitialized_def response_RequiredFieldsByteSizeFallback_def opt_size_def)
  ultimately show "request_ByteSizeLong q = length (request_InternalSerialize q)" "response_ByteSizeLong r = length (response_InternalSerialize r)"
    by (simp_all add: request_RequiredFieldsByteSizeFallback_def request_InternalSerialize_def response_RequiredFieldsByteSizeFallback_def
        response_InternalSerialize_def length_fields)
qed


section \<open>Round trips\<close>

lemma UnsafeVarint_not_Nil [simp]: "UnsafeVarint v \<noteq> []"
  by (subst UnsafeVarint.simps) simp

lemma InternalParse_mono: "InternalParse switch unknown add n m bs = Some r \<Longrightarrow> n \<le> k \<Longrightarrow> InternalParse switch unknown add k m bs = Some r"
proof (induction n arbitrary: m bs k)
  case 0
  then show ?case
    by (cases k) (auto split: if_splits)
next
  case (Suc n)
  then obtain k' where k: "k = Suc k'" "n \<le> k'"
    by (cases k) auto
  show ?case
    using Suc.prems(1) Suc.IH [OF _ k(2)] by (auto simp: k(1) split: if_splits option.splits prod.splits field_result.splits)
qed

text \<open>The bound is no restriction: each field takes at least one byte.\<close>

lemma ReadTag_shorter: "ReadTag bs = Some (tag, cs) \<Longrightarrow> length cs < length bs"
proof -
  have loop: "varint_loop i n res ds = Some (v, cs) \<Longrightarrow> length cs < length ds" for i n and res v :: u32 and ds
    by (induction i n res ds rule: varint_loop.induct) (auto simp: Let_def split: if_splits)
  show "ReadTag bs = Some (tag, cs) \<Longrightarrow> ?thesis"
    by (cases bs) (auto simp: ReadTag_loop simp del: ReadTag.simps(2) split: if_splits dest: loop)
qed

lemma InternalParse_bound:
  assumes "\<And>tag cs m m' ds. switch tag cs m = Field m' ds \<Longrightarrow> length ds \<le> length cs"
    and "\<And>tag cs u ds. unknown tag cs = Some (u, ds) \<Longrightarrow> length ds \<le> length cs"
    and "length bs \<le> n"
  shows "InternalParse switch unknown add n m bs = InternalParse switch unknown add (length bs) m bs"
  using assms(3)
proof (induction "length bs" arbitrary: bs n m rule: less_induct)
  case less
  show ?case
  proof (cases bs)
    case Nil
    then show ?thesis
      by (cases n) simp_all
  next
    case (Cons b bs')
    then obtain n' where n: "n = Suc n'" "length bs' \<le> n'"
      using less.prems by (cases n) auto
    have eq: "InternalParse switch unknown add n' m' ds = InternalParse switch unknown add (length bs') m' ds" if "length ds \<le> length bs'" for m' ds
      using less.hyps [of ds n' m'] less.hyps [of ds "length bs'" m'] that n(2) Cons by simp
    have "length cs \<le> length bs'" if "ReadTag bs = Some (tag, cs)" for tag cs
      using ReadTag_shorter [OF that] Cons by simp
    then show ?thesis
      using Cons n eq assms(1,2)
      by (auto simp del: ReadTag.simps split: option.split prod.split field_result.split) (meson eq order_trans)+
  qed
qed

lemma parse_field:
  assumes "switch tag (body @ rest) m = Field m' rest"
  shows "InternalParse switch unknown add (Suc n) m (UnsafeVarint (ucast tag) @ body @ rest) = InternalParse switch unknown add n m' rest"
  using assms by simp

lemma ucast_scast [simp]: "ucast (scast v :: u64) = v" for v :: u32
  by (rule bit_word_eqI) (auto simp: bit_simps)

lemma parse_int32_field:
  assumes "\<And>bs. switch (MakeTag k 0) bs m = parse_varint f bs"
  shows "InternalParse switch unknown add (Suc n) m (WriteInt32ToArray k v @ rest) = InternalParse switch unknown add n (f (scast v)) rest"
  using parse_field [of switch "MakeTag k 0" "UnsafeVarint (scast v)" rest m "f (scast v)"]
  by (simp add: assms parse_varint_def WriteInt32ToArray_def WriteTagToArray_def)

lemma parse_int64_field:
  assumes "\<And>bs. switch (MakeTag k 0) bs m = parse_varint f bs"
  shows "InternalParse switch unknown add (Suc n) m (WriteInt64ToArray k v @ rest) = InternalParse switch unknown add n (f v) rest"
  using parse_field [of switch "MakeTag k 0" "UnsafeVarint v" rest m "f v"]
  by (simp add: assms parse_varint_def WriteInt64ToArray_def WriteTagToArray_def)

lemma parse_string_field:
  assumes "\<And>bs. switch (MakeTag k 2) bs m = parse_string f bs" "length s \<le> INT_MAX - 16"
  shows "InternalParse switch unknown add (Suc n) m (WriteStringMaybeAliased k s @ rest) = InternalParse switch unknown add n (f s) rest"
  using parse_field [of switch "MakeTag k 2" "UnsafeVarint (ucast (of_nat (length s) :: u32)) @ s" rest m "f s"] assms(2)
  by (simp add: assms(1) parse_string_def WriteStringMaybeAliased_def WriteTagToArray_def)

lemma request_switch_tags:
  "request_switch (MakeTag 1 0) bs m = parse_varint (\<lambda>v. if product_IsValid (ucast v) then m\<lparr>rq_type := Some (ucast v)\<rparr>
     else m\<lparr>rq_unknown := rq_unknown m @ WriteInt64ToArray 1 v\<rparr>) bs"
  "request_switch (MakeTag 2 0) bs m = parse_varint (\<lambda>v. m\<lparr>rq_version := Some (ucast v)\<rparr>) bs"
  "request_switch (MakeTag 3 2) bs m = parse_string (\<lambda>s. m\<lparr>rq_token := Some s\<rparr>) bs"
  "request_switch (MakeTag 4 2) bs m = parse_string (\<lambda>s. m\<lparr>rq_deviceid := Some s\<rparr>) bs"
  "request_switch (MakeTag 5 2) bs m = parse_string (\<lambda>s. m\<lparr>rq_randomid := Some s\<rparr>) bs"
  by (simp_all add: request_switch_def tag_is_values MakeTag_values)

lemma response_switch_tags:
  "response_switch (MakeTag 1 0) bs r = parse_varint (\<lambda>v. r\<lparr>rs_code := Some (ucast v)\<rparr>) bs"
  "response_switch (MakeTag 2 2) bs r = parse_string (\<lambda>s. r\<lparr>rs_signature := Some s\<rparr>) bs"
  "response_switch (MakeTag 3 2) bs r = parse_string (\<lambda>s. r\<lparr>rs_desc := Some s\<rparr>) bs"
  "response_switch (MakeTag 4 2) bs r = parse_string (\<lambda>s. r\<lparr>rs_rights := Some s\<rparr>) bs"
  by (simp_all add: response_switch_def tag_is_values MakeTag_values)

lemmas request_steps = parse_int32_field [of request_switch, OF request_switch_tags(1)] parse_int32_field [of request_switch, OF request_switch_tags(2)]
  parse_string_field [of request_switch, OF request_switch_tags(3)] parse_string_field [of request_switch, OF request_switch_tags(4)]
  parse_string_field [of request_switch, OF request_switch_tags(5)]

lemmas response_steps = parse_int32_field [of response_switch, OF response_switch_tags(1)]
  parse_string_field [of response_switch, OF response_switch_tags(2)] parse_string_field [of response_switch, OF response_switch_tags(3)]
  parse_string_field [of response_switch, OF response_switch_tags(4)]

lemma StringSize_ge: "length s \<le> StringSize s"
  by (simp add: StringSize_def)

lemma size_bound: "n + StringSize s \<le> INT_MAX - 16 \<Longrightarrow> length s \<le> INT_MAX - 16"
  using StringSize_ge [of s] by linarith

text \<open>The parse of a request with all its fields, whatever its product is.\<close>

lemma request_parse_fields:
  assumes "length tok \<le> INT_MAX - 16" "length dev \<le> INT_MAX - 16" "length rnd \<le> INT_MAX - 16"
  shows "request_InternalParse unknown
      (WriteInt32ToArray 1 t @ WriteInt32ToArray 2 v @ WriteStringMaybeAliased 3 tok @ WriteStringMaybeAliased 4 dev @
       WriteStringMaybeAliased 5 rnd) request_new =
    Some \<lparr>rq_type = (if t = 0 then Some 0 else None), rq_version = Some v, rq_token = Some tok, rq_deviceid = Some dev,
      rq_randomid = Some rnd, rq_unknown = (if t = 0 then [] else WriteInt64ToArray 1 (scast t))\<rparr>"
    (is "request_InternalParse _ ?bs _ = Some ?m")
proof -
  let ?add = "\<lambda>u m. m\<lparr>rq_unknown := rq_unknown m @ u\<rparr>"
  have e: "x = x @ []" for x :: "u8 list"
    by simp
  have "InternalParse request_switch unknown ?add (Suc (Suc (Suc (Suc (Suc 0))))) request_new ?bs = Some ?m"
    by (subst (6) e) (simp add: request_steps assms product_IsValid_def request_new_def del: InternalParse.simps(2) append_Nil2)
  moreover have "Suc (Suc (Suc (Suc (Suc 0)))) \<le> length ?bs"
    by simp
  ultimately show ?thesis
    unfolding request_InternalParse_def by (rule InternalParse_mono)
qed

lemma response_parse_fields:
  assumes "length sig \<le> INT_MAX - 16" "\<forall>d. desc = Some d \<longrightarrow> length d \<le> INT_MAX - 16" "\<forall>d. rights = Some d \<longrightarrow> length d \<le> INT_MAX - 16"
  shows "response_InternalParse unknown
      (WriteInt32ToArray 1 c @ WriteStringMaybeAliased 2 sig @ opt_bytes (WriteStringMaybeAliased 3) desc @
       opt_bytes (WriteStringMaybeAliased 4) rights) response_new =
    Some \<lparr>rs_code = Some c, rs_signature = Some sig, rs_desc = desc, rs_rights = rights, rs_unknown = []\<rparr>"
    (is "response_InternalParse _ ?bs _ = Some ?m")
proof -
  let ?add = "\<lambda>u m. m\<lparr>rs_unknown := rs_unknown m @ u\<rparr>"
  have last: "InternalParse response_switch unknown ?add (Suc n) r (WriteStringMaybeAliased 4 d) = Some (r\<lparr>rs_rights := Some d\<rparr>)"
    if "length d \<le> INT_MAX - 16" for n r d
    using response_steps(4) [OF that, of unknown ?add n r "[]"] by (cases n) simp_all
  have third: "InternalParse response_switch unknown ?add (Suc 0) r (WriteStringMaybeAliased 3 d) = Some (r\<lparr>rs_desc := Some d\<rparr>)"
    if "length d \<le> INT_MAX - 16" for r d
    using response_steps(3) [OF that, of unknown ?add 0 r "[]"] by simp
  have second: "InternalParse response_switch unknown ?add (Suc 0) r (WriteStringMaybeAliased 2 d) = Some (r\<lparr>rs_signature := Some d\<rparr>)"
    if "length d \<le> INT_MAX - 16" for r d
    using response_steps(2) [OF that, of unknown ?add 0 r "[]"] by simp
  let ?n = "Suc (Suc ((if desc = None then 0 else Suc 0) + (if rights = None then 0 else Suc 0)))"
  have "InternalParse response_switch unknown ?add ?n response_new ?bs = Some ?m"
    using assms
    by (cases desc; cases rights)
      (simp_all add: response_steps last third second opt_bytes_def response_new_def del: InternalParse.simps(2))
  moreover have "?n \<le> length ?bs"
    by (simp add: opt_bytes_def split: option.split)
  ultimately show ?thesis
    unfolding response_InternalParse_def by (rule InternalParse_mono)
qed

lemma Clear_new: "request_Clear q = request_new" "response_Clear r = response_new"
  by (cases q; simp add: request_Clear_def request_new_def) (cases r; simp add: response_Clear_def response_new_def)

text \<open>C15.  The messages of the authentication.  A request or a response with its required fields is serialized, and the bytes are parsed
  to the same message, whatever the target held before, negative numbers and missing optional fields included; only a
  request for a product other than the one in the enumeration is refused, because its number counts as an unknown
  field.\<close>

theorem auth_messages_roundtrip:
  assumes "request_IsInitialized q" "rq_unknown q = []" "length (request_InternalSerialize q) \<le> INT_MAX - 16"
    and "response_IsInitialized r" "rs_unknown r = []" "length (response_InternalSerialize r) \<le> INT_MAX - 16"
  shows "\<exists>bs cs. request_SerializeToString q = Some bs \<and>
    request_ParseFromString unknown bs q0 = (if rq_type q = Some 0 then Some q else None) \<and>
    response_SerializeToString r = Some cs \<and> response_ParseFromString unknown cs r0 = Some r"
proof -
  obtain t v tok dev rnd where q: "q = \<lparr>rq_type = Some t, rq_version = Some v, rq_token = Some tok, rq_deviceid = Some dev,
      rq_randomid = Some rnd, rq_unknown = []\<rparr>"
    using assms(1,2) by (cases q) (auto simp: request_IsInitialized_def)
  obtain c sig desc rights where r: "r = \<lparr>rs_code = Some c, rs_signature = Some sig, rs_desc = desc, rs_rights = rights, rs_unknown = []\<rparr>"
    using assms(4,5) by (cases r) (auto simp: response_IsInitialized_def)
  have ql: "length tok \<le> INT_MAX - 16" "length dev \<le> INT_MAX - 16" "length rnd \<le> INT_MAX - 16"
    using assms(3) StringSize_ge [of tok] StringSize_ge [of dev] StringSize_ge [of rnd]
    by (simp_all add: q request_InternalSerialize_def length_fields opt_size_def)
  have rl: "length sig \<le> INT_MAX - 16" "\<forall>d. desc = Some d \<longrightarrow> length d \<le> INT_MAX - 16" "\<forall>d. rights = Some d \<longrightarrow> length d \<le> INT_MAX - 16"
    using assms(6) StringSize_ge [of sig] StringSize_ge [of "the desc"] StringSize_ge [of "the rights"]
    by (auto simp: r response_InternalSerialize_def length_fields opt_size_def)
  have "request_SerializeToString q = Some (request_InternalSerialize q)" "response_SerializeToString r = Some (response_InternalSerialize r)"
    using assms(3,6) byte_sizes by (simp_all add: request_SerializeToString_def response_SerializeToString_def INT_MAX_def)
  moreover have "request_ParseFromString unknown (request_InternalSerialize q) q0 = (if rq_type q = Some 0 then Some q else None)"
    using request_parse_fields [OF ql, of unknown t v]
    by (simp add: q request_ParseFromString_def Clear_new request_InternalSerialize_def opt_bytes_def request_IsInitialized_def)
  moreover have "response_ParseFromString unknown (response_InternalSerialize r) r0 = Some r"
    using response_parse_fields [OF rl, of unknown c]
    by (simp add: r response_ParseFromString_def Clear_new response_InternalSerialize_def opt_bytes_def
        response_IsInitialized_def)
  ultimately show ?thesis
    by blast
qed

theorem auth_messages_roundtrip_witness:
  "let q = \<lparr>rq_type = Some 0, rq_version = Some (- 1), rq_token = Some [1], rq_deviceid = Some [], rq_randomid = Some [2, 3], rq_unknown = []\<rparr>
   in request_ParseFromString (\<lambda>_ _. None) (request_InternalSerialize q) request_new = Some q"
proof -
  let ?q = "\<lparr>rq_type = Some 0, rq_version = Some (- 1), rq_token = Some [1], rq_deviceid = Some [], rq_randomid = Some [2, 3], rq_unknown = []\<rparr>"
  let ?r = "\<lparr>rs_code = Some 200, rs_signature = Some [], rs_desc = None, rs_rights = None, rs_unknown = []\<rparr>"
  have "request_IsInitialized ?q" "response_IsInitialized ?r"
    by (simp_all add: request_IsInitialized_def response_IsInitialized_def)
  moreover have "length (request_InternalSerialize ?q) = 22" "length (response_InternalSerialize ?r) = 5"
    by code_simp+
  then have "length (request_InternalSerialize ?q) \<le> INT_MAX - 16" "length (response_InternalSerialize ?r) \<le> INT_MAX - 16"
    by (simp_all add: INT_MAX_def)
  ultimately show ?thesis
    using auth_messages_roundtrip [of ?q ?r "\<lambda>_ _. None" request_new response_new]
    by (auto simp: request_SerializeToString_def Let_def split: if_splits)
qed

section \<open>Copies\<close>

text \<open>A copy is equal to its source, whatever the target held, and of several messages that are merged one after the other the last
  with a field wins.\<close>

lemma CopyFrom_eq: "request_CopyFrom q q0 = q" "response_CopyFrom r r0 = r"
  by (cases q; simp add: request_CopyFrom_def request_MergeFrom_def request_Clear_def opt_or_def split: option.split)
    (cases r; simp add: response_CopyFrom_def response_MergeFrom_def response_Clear_def opt_or_def split: option.split)

lemma param_CopyFrom_eq:
  "ParamString_CopyFrom s s0 = s" "ParamInt32_CopyFrom i i0 = i" "ParamBool_CopyFrom b b0 = b" "ParamInt64_CopyFrom l l0 = l"
  unfolding ParamString_CopyFrom_def ParamString_MergeFrom_def ParamString_Clear_def ParamInt32_CopyFrom_def ParamInt32_MergeFrom_def
    ParamInt32_Clear_def ParamBool_CopyFrom_def ParamBool_MergeFrom_def ParamBool_Clear_def ParamInt64_CopyFrom_def ParamInt64_MergeFrom_def
    ParamInt64_Clear_def
  by (simp_all add: add_unknown_def Let_def)

lemma MergeFrom_assoc:
  "request_MergeFrom q3 (request_MergeFrom q2 q1) = request_MergeFrom (request_MergeFrom q3 q2) q1"
  "response_MergeFrom r3 (response_MergeFrom r2 r1) = response_MergeFrom (response_MergeFrom r3 r2) r1"
  by (simp_all add: request_MergeFrom_def response_MergeFrom_def opt_or_def split: option.split)

section \<open>The parameters of the view models\<close>

lemma param_switch_tags:
  "ParamInt32_switch (MakeTag 1 0) bs i = parse_varint (\<lambda>v. i\<lparr>param_value := ucast v\<rparr>) bs"
  "ParamBool_switch (MakeTag 1 0) bs b = parse_varint (\<lambda>v. b\<lparr>param_value := (v \<noteq> 0)\<rparr>) bs"
  "ParamInt64_switch (MakeTag 1 0) bs l = parse_varint (\<lambda>v. l\<lparr>param_value := v\<rparr>) bs"
  by (simp_all add: ParamInt32_switch_def ParamBool_switch_def ParamInt64_switch_def tag_is_values MakeTag_values)

lemma one_field: "InternalParse switch unknown add (Suc 0) m bs = Some r \<Longrightarrow> bs \<noteq> [] \<Longrightarrow> InternalParse switch unknown add (length bs) m bs = Some r"
  by (erule InternalParse_mono) (cases bs; simp)

lemma ParamString_roundtrip:
  assumes "utf8 s" "length s \<le> INT_MAX - 16"
  shows "ParamString_ParseFromString utf8 unknown (ParamString_InternalSerialize \<lparr>param_value = s, param_unknown = []\<rparr>) = Some \<lparr>param_value = s, param_unknown = []\<rparr>"
proof (cases s)
  case (Cons c cs)
  let ?bs = "WriteStringMaybeAliased 1 s" and ?m = "\<lparr>param_value = [], param_unknown = []\<rparr>"
  have "ParamString_switch utf8 (MakeTag 1 2) (UnsafeVarint (ucast (of_nat (length s) :: u32)) @ s @ []) ?m = Field (?m\<lparr>param_value := s\<rparr>) []"
    using InlineGreedyStringParser_write [OF assms(2), of "[]"] assms(1)
    by (simp add: ParamString_switch_def tag_is_values MakeTag_values del: append_Nil2)
  from parse_field [of "ParamString_switch utf8" "MakeTag 1 2" "UnsafeVarint (ucast (of_nat (length s) :: u32)) @ s" "[]" ?m, simplified append_assoc, OF this]
  have "InternalParse (ParamString_switch utf8) unknown add_unknown (Suc 0) ?m ?bs = Some (?m\<lparr>param_value := s\<rparr>)"
    by (simp add: WriteStringMaybeAliased_def WriteTagToArray_def del: InternalParse.simps(2))
  moreover have "?bs \<noteq> []"
    by (simp add: WriteStringMaybeAliased_def)
  ultimately show ?thesis
    using one_field Cons by (fastforce simp: ParamString_ParseFromString_def ParamString_InternalSerialize_def)
qed (simp add: ParamString_ParseFromString_def ParamString_InternalSerialize_def)

lemma ParamInt32_roundtrip:
  "ParamInt32_ParseFromString unknown (ParamInt32_InternalSerialize \<lparr>param_value = i, param_unknown = []\<rparr>) = Some \<lparr>param_value = i, param_unknown = []\<rparr>"
  using parse_int32_field [of ParamInt32_switch, OF param_switch_tags(1), of unknown add_unknown 0 "\<lparr>param_value = 0, param_unknown = []\<rparr>" i "[]"]
    one_field [of ParamInt32_switch unknown add_unknown "\<lparr>param_value = 0, param_unknown = []\<rparr>" "WriteInt32ToArray 1 i"]
  by (simp add: ParamInt32_ParseFromString_def ParamInt32_InternalSerialize_def WriteInt32ToArray_def del: InternalParse.simps(2))

lemma ParamInt64_roundtrip:
  "ParamInt64_ParseFromString unknown (ParamInt64_InternalSerialize \<lparr>param_value = l, param_unknown = []\<rparr>) = Some \<lparr>param_value = l, param_unknown = []\<rparr>"
  using parse_int64_field [of ParamInt64_switch, OF param_switch_tags(3), of unknown add_unknown 0 "\<lparr>param_value = 0, param_unknown = []\<rparr>" l "[]"]
    one_field [of ParamInt64_switch unknown add_unknown "\<lparr>param_value = 0, param_unknown = []\<rparr>" "WriteInt64ToArray 1 l"]
  by (simp add: ParamInt64_ParseFromString_def ParamInt64_InternalSerialize_def WriteInt64ToArray_def del: InternalParse.simps(2))

lemma WriteBoolToArray_int64: "WriteBoolToArray k b = WriteInt64ToArray k (if b then 1 else 0)"
  by (simp add: WriteBoolToArray_def WriteInt64ToArray_def)

lemma ParamBool_roundtrip:
  "ParamBool_ParseFromString unknown (ParamBool_InternalSerialize \<lparr>param_value = b, param_unknown = []\<rparr>) = Some \<lparr>param_value = b, param_unknown = []\<rparr>"
  using parse_int64_field [of ParamBool_switch, OF param_switch_tags(2), of unknown add_unknown 0 "\<lparr>param_value = False, param_unknown = []\<rparr>" 1 "[]"]
    one_field [of ParamBool_switch unknown add_unknown "\<lparr>param_value = False, param_unknown = []\<rparr>" "WriteInt64ToArray 1 1"]
  by (simp add: ParamBool_ParseFromString_def ParamBool_InternalSerialize_def WriteBoolToArray_int64 WriteInt64ToArray_def
      del: InternalParse.simps(2))

text \<open>C23.  The parameters of the view models.  Each message with a value is parsed to the same value from the bytes that are written for it, also when the value
  is the default and no bytes are written; for a string, if the library takes it for UTF-8.\<close>

theorem param_messages_roundtrip:
  assumes "utf8 s" "length s \<le> INT_MAX - 16"
  shows "ParamString_ParseFromString utf8 unknown (ParamString_InternalSerialize \<lparr>param_value = s, param_unknown = []\<rparr>) = Some \<lparr>param_value = s, param_unknown = []\<rparr> \<and>
    ParamInt32_ParseFromString unknown (ParamInt32_InternalSerialize \<lparr>param_value = i, param_unknown = []\<rparr>) = Some \<lparr>param_value = i, param_unknown = []\<rparr> \<and>
    ParamInt64_ParseFromString unknown (ParamInt64_InternalSerialize \<lparr>param_value = l, param_unknown = []\<rparr>) = Some \<lparr>param_value = l, param_unknown = []\<rparr> \<and>
    ParamBool_ParseFromString unknown (ParamBool_InternalSerialize \<lparr>param_value = b, param_unknown = []\<rparr>) = Some \<lparr>param_value = b, param_unknown = []\<rparr>"
  using ParamString_roundtrip [of utf8 s, OF assms] ParamInt32_roundtrip ParamInt64_roundtrip ParamBool_roundtrip by blast

theorem param_messages_roundtrip_witness:
  "ParamString_ParseFromString (list_all (\<lambda>c. c < 128)) (\<lambda>_ _. None) (ParamString_InternalSerialize \<lparr>param_value = [104, 105], param_unknown = []\<rparr>) =
    Some \<lparr>param_value = [104, 105], param_unknown = []\<rparr>"
  using param_messages_roundtrip [of "list_all (\<lambda>c. c < 128)" "[104, 105]" "\<lambda>_ _. None" 0 0 False] by (simp add: INT_MAX_def)

end
