(* ===== verification/AuthWire.thy ===== *)
theory AuthWire
  imports Auth MessagesSpec
begin

text \<open>
  The authentication client of theory \<open>Auth\<close> with the messages of theory \<open>Messages\<close>: what the client sends can be parsed by a
  server, and what a genuine server sends is accepted.
\<close>

section \<open>The messages in the client\<close>

abbreviation bytes_of :: "string \<Rightarrow> u8 list" where
  "bytes_of \<equiv> map byte_of"

abbreviation string_of :: "u8 list \<Rightarrow> string" where
  "string_of \<equiv> map char_of_byte"

lemma byte_conversions [simp]: "byte_of \<circ> char_of_byte = id" "char_of_byte \<circ> byte_of = id"
  by (simp_all add: fun_eq_iff)

text \<open>The calls of the setters in \<open>AuthManager::AuthRequest\<close>, and \<open>SerializeToString\<close>, whose result is not checked.\<close>

definition request_fields :: "auth_request \<Rightarrow> request" where
  "request_fields q =
    request_new\<lparr>rq_type := Some (word_of_int (req_type q)), rq_token := Some (bytes_of (req_token q)),
      rq_version := Some (word_of_int (req_version q)), rq_deviceid := Some (bytes_of (req_deviceid q)),
      rq_randomid := Some (bytes_of (req_randomid q))\<rparr>"

definition wire_serialize :: "auth_request \<Rightarrow> string" where
  "wire_serialize q = (case request_SerializeToString (request_fields q) of None \<Rightarrow> [] | Some bs \<Rightarrow> string_of bs)"

text \<open>\<open>ParseFromString\<close> and the getters in \<open>HandleAuthResponse\<close>; the result of the parse is not checked, and \<open>junk\<close> is what the
  message holds after it has failed.\<close>

definition get_string :: "u8 list option \<Rightarrow> string" where
  "get_string x = (case x of None \<Rightarrow> [] | Some s \<Rightarrow> string_of s)"

definition wire_parse :: "unknown_parser \<Rightarrow> (string \<Rightarrow> auth_response) \<Rightarrow> string \<Rightarrow> auth_response" where
  "wire_parse unknown junk s =
    (case response_ParseFromString unknown (bytes_of s) response_new of
       None \<Rightarrow> junk s
     | Some r \<Rightarrow> \<lparr>res_code = sint (case rs_code r of None \<Rightarrow> 0 | Some c \<Rightarrow> c), res_signature = get_string (rs_signature r),
         res_desc = get_string (rs_desc r)\<rparr>)"

definition wire_lib :: "unknown_parser \<Rightarrow> (string \<Rightarrow> auth_response) \<Rightarrow> auth_lib \<Rightarrow> auth_lib" where
  "wire_lib unknown junk lib = lib\<lparr>serialize := wire_serialize, parse_response := wire_parse unknown junk\<rparr>"

section \<open>The request\<close>

text \<open>A server that parses with the same code reads the fields of the request, but only for the one product of the enumeration.\<close>

lemma server_reads_request:
  assumes "length (request_InternalSerialize (request_fields q)) \<le> INT_MAX - 16"
  shows "request_ParseFromString unknown (bytes_of (wire_serialize q)) request_new =
    (if word_of_int (req_type q) = (0 :: u32) then Some (request_fields q) else None)"
proof -
  have f: "length (bytes_of (req_token q)) \<le> INT_MAX - 16" "length (bytes_of (req_deviceid q)) \<le> INT_MAX - 16"
    "length (bytes_of (req_randomid q)) \<le> INT_MAX - 16"
    using assms StringSize_ge [of "bytes_of (req_token q)"] StringSize_ge [of "bytes_of (req_deviceid q)"] StringSize_ge [of "bytes_of (req_randomid q)"]
    by (simp_all add: request_fields_def request_new_def request_InternalSerialize_def length_fields opt_size_def)
  have "request_SerializeToString (request_fields q) = Some (request_InternalSerialize (request_fields q))"
    using assms by (simp add: request_SerializeToString_def byte_sizes INT_MAX_def)
  then show ?thesis
    using request_parse_fields [OF f, of unknown "word_of_int (req_type q)" "word_of_int (req_version q)"]
    by (auto simp: wire_serialize_def request_ParseFromString_def Clear_new request_InternalSerialize_def opt_bytes_def request_fields_def
        request_IsInitialized_def request_new_def)
qed

section \<open>The response\<close>

lemma wire_parse_response:
  assumes "response_IsInitialized r" "rs_unknown r = []" "response_SerializeToString r = Some bs" "length bs \<le> INT_MAX - 16"
  shows "wire_parse unknown junk (string_of bs) =
    \<lparr>res_code = sint (the (rs_code r)), res_signature = get_string (rs_signature r), res_desc = get_string (rs_desc r)\<rparr>"
proof -
  obtain c sig desc rights where r: "r = \<lparr>rs_code = Some c, rs_signature = Some sig, rs_desc = desc, rs_rights = rights, rs_unknown = []\<rparr>"
    using assms(1,2) by (cases r) (auto simp: response_IsInitialized_def)
  have bs: "bs = response_InternalSerialize r"
    using assms(3) by (simp add: response_SerializeToString_def split: if_splits)
  have l: "length sig \<le> INT_MAX - 16" "\<forall>d. desc = Some d \<longrightarrow> length d \<le> INT_MAX - 16" "\<forall>d. rights = Some d \<longrightarrow> length d \<le> INT_MAX - 16"
    using assms(4) StringSize_ge [of sig] StringSize_ge [of "the desc"] StringSize_ge [of "the rights"]
    by (auto simp: bs r response_InternalSerialize_def length_fields opt_size_def)
  show ?thesis
    using response_parse_fields [OF l, of unknown c]
    by (simp add: wire_parse_def bs r response_ParseFromString_def Clear_new response_InternalSerialize_def opt_bytes_def response_IsInitialized_def)
qed



end
