(* ===== verification/MessagePump.thy ===== *)
theory MessagePump
  imports Prelude
begin

text \<open>
  The message pumps of \<open>src/base/message_loop\<close>: the queue of delayed tasks in
  \<open>message_pump_impl.cc\<close> and the three back ends that call it back in time,
  \<open>message_pump_default.cc\<close>, \<open>message_pump_win.cc\<close> and \<open>message_pump_android.cc\<close>.

  A task (\<open>Runnable\<close>) is an element of a type \<open>'r\<close>.  \<open>std::set<RunnableInfo>\<close> is a list that is
  strictly sorted by \<open>operator<\<close>.  The clock \<open>GetTickCount2\<close> (milliseconds since the start of the
  program) is an argument of the operations.  The part of an operation under
  \<open>runable_set_mutex_\<close> is one definition, so that the interleavings of several threads can be written
  down.  The virtual function \<open>Wakeup\<close> is an argument; what the queue needs of it is the locale
  \<open>pump_backend\<close>, which each of the three back ends is shown to satisfy.
\<close>

section \<open>The set of tasks\<close>

datatype 'r RunnableInfo = RunnableInfo (expired_time: u64) (rid: u64) (runnable: 'r)

text \<open>\<open>operator<\<close> of \<open>RunnableInfo\<close>; it does not look at the task itself.\<close>

definition RunnableInfo_less :: "'r RunnableInfo \<Rightarrow> 'r RunnableInfo \<Rightarrow> bool" where
  "RunnableInfo_less a b =
    (if expired_time a = expired_time b then rid a < rid b else expired_time a < expired_time b)"

instantiation RunnableInfo :: (type) preorder
begin

definition less_RunnableInfo :: "'a RunnableInfo \<Rightarrow> 'a RunnableInfo \<Rightarrow> bool" where
  "less_RunnableInfo = RunnableInfo_less"

definition less_eq_RunnableInfo :: "'a RunnableInfo \<Rightarrow> 'a RunnableInfo \<Rightarrow> bool" where
  "less_eq_RunnableInfo a b \<longleftrightarrow> \<not> b < a"

instance
  by intro_classes (auto simp: RunnableInfo_less_def less_RunnableInfo_def less_eq_RunnableInfo_def split: if_splits)

end

lemma info_less:
  "a < b \<longleftrightarrow> (if expired_time a = expired_time b then rid a < rid b else expired_time a < expired_time b)"
  by (simp add: less_RunnableInfo_def RunnableInfo_less_def)

text \<open>\<open>std::set::insert\<close>: nothing changes if an equivalent element is present.\<close>

fun set_insert :: "'r RunnableInfo \<Rightarrow> 'r RunnableInfo list \<Rightarrow> 'r RunnableInfo list" where
  "set_insert x [] = [x]"
| "set_insert x (y # ys) = (if x < y then x # y # ys else if y < x then y # set_insert x ys else y # ys)"

section \<open>The pump\<close>

record 'r MessagePumpImpl =
  runable_set :: "'r RunnableInfo list"
  last_id :: u64
  stoped :: bool

definition MessagePumpImpl_new :: "'r MessagePumpImpl" where
  "MessagePumpImpl_new = \<lparr>runable_set = [], last_id = 0, stoped = False\<rparr>"

text \<open>The critical section of \<open>PostRunable\<close>: the task gets the next number and goes into the set; the
  result says whether the back end has to be woken.\<close>

definition PostInsert :: "u64 \<Rightarrow> 'r \<Rightarrow> 'r MessagePumpImpl \<Rightarrow> bool \<times> u64 \<times> 'r MessagePumpImpl" where
  "PostInsert expired r p =
    (let i = last_id p + 1;
         wakeup = (runable_set p = [] \<or> expired < expired_time (hd (runable_set p)))
     in (wakeup, i, p\<lparr>last_id := i, runable_set := set_insert (RunnableInfo expired i r) (runable_set p)\<rparr>))"

definition PostRunable ::
  "(u64 \<Rightarrow> u64 \<Rightarrow> 'b \<Rightarrow> 'b) \<Rightarrow> u64 \<Rightarrow> 'r \<Rightarrow> u64 \<Rightarrow> 'r MessagePumpImpl \<times> 'b \<Rightarrow> u64 \<times> 'r MessagePumpImpl \<times> 'b" where
  "PostRunable Wakeup now r delay = (\<lambda>(p, b).
    if stoped p then (0, p, b)
    else let expired = now + delay; (wakeup, i, p) = PostInsert expired r p
      in (i, p, if wakeup then Wakeup now expired b else b))"

fun erase_id :: "u64 \<Rightarrow> 'r RunnableInfo list \<Rightarrow> 'r RunnableInfo list option" where
  "erase_id i [] = None"
| "erase_id i (x # xs) = (if rid x = i then Some xs else map_option ((#) x) (erase_id i xs))"

definition Cancel :: "u64 \<Rightarrow> 'r MessagePumpImpl \<Rightarrow> bool \<times> 'r MessagePumpImpl" where
  "Cancel i p = (case erase_id i (runable_set p) of
     None \<Rightarrow> (False, p) | Some xs \<Rightarrow> (True, p\<lparr>runable_set := xs\<rparr>))"

text \<open>\<open>DoWork\<close>: the first critical section takes the expired tasks out of the set, the second wakes
  the back end for the next one.\<close>

fun take_expired :: "u64 \<Rightarrow> 'r RunnableInfo list \<Rightarrow> 'r list \<times> 'r RunnableInfo list" where
  "take_expired now [] = ([], [])"
| "take_expired now (x # xs) =
    (if expired_time x \<le> now then (let (rs, ys) = take_expired now xs in (runnable x # rs, ys))
     else ([], x # xs))"

definition DoWork_take :: "u64 \<Rightarrow> 'r MessagePumpImpl \<Rightarrow> 'r list \<times> 'r MessagePumpImpl" where
  "DoWork_take now p = (let (rs, xs) = take_expired now (runable_set p) in (rs, p\<lparr>runable_set := xs\<rparr>))"

definition wake_next :: "(u64 \<Rightarrow> u64 \<Rightarrow> 'b \<Rightarrow> 'b) \<Rightarrow> u64 \<Rightarrow> 'r MessagePumpImpl \<Rightarrow> 'b \<Rightarrow> 'b" where
  "wake_next Wakeup now p b =
    (if runable_set p \<noteq> [] then Wakeup now (expired_time (hd (runable_set p))) b else b)"

text \<open>The whole function; \<open>run\<close> is what a task does to the pump and its back end, \<open>now'\<close> the clock
  when the tasks are done.\<close>

definition DoWork ::
  "(u64 \<Rightarrow> u64 \<Rightarrow> 'b \<Rightarrow> 'b) \<Rightarrow> ('r \<Rightarrow> 'r MessagePumpImpl \<times> 'b \<Rightarrow> 'r MessagePumpImpl \<times> 'b) \<Rightarrow>
   u64 \<Rightarrow> u64 \<Rightarrow> 'r MessagePumpImpl \<times> 'b \<Rightarrow> 'r MessagePumpImpl \<times> 'b" where
  "DoWork Wakeup run now now' = (\<lambda>(p, b).
    let (rs, p) = DoWork_take now p; (p, b) = fold run rs (p, b)
    in (p, wake_next Wakeup now' p b))"

text \<open>\<open>DoOneWork\<close> takes at most one task, and wakes the back end before it runs it.\<close>

definition DoOneWork_take :: "u64 \<Rightarrow> 'r MessagePumpImpl \<Rightarrow> 'r option \<times> 'r MessagePumpImpl" where
  "DoOneWork_take now p =
    (case runable_set p of
       [] \<Rightarrow> (None, p)
     | x # xs \<Rightarrow> if expired_time x \<le> now then (Some (runnable x), p\<lparr>runable_set := xs\<rparr>) else (None, p))"

definition DoOneWork ::
  "(u64 \<Rightarrow> u64 \<Rightarrow> 'b \<Rightarrow> 'b) \<Rightarrow> ('r \<Rightarrow> 'r MessagePumpImpl \<times> 'b \<Rightarrow> 'r MessagePumpImpl \<times> 'b) \<Rightarrow>
   u64 \<Rightarrow> 'r MessagePumpImpl \<times> 'b \<Rightarrow> 'r MessagePumpImpl \<times> 'b" where
  "DoOneWork Wakeup run now = (\<lambda>(p, b).
    let (r, p) = DoOneWork_take now p; b = wake_next Wakeup now p b
    in case r of None \<Rightarrow> (p, b) | Some r \<Rightarrow> run r (p, b))"

text \<open>\<open>Stop\<close> posts a last task \<open>stop_task\<close>, the call of \<open>DoStop\<close>, and refuses all later ones; waiting
  for the threads (\<open>Join\<close>) changes nothing.  \<open>Run\<close> drops what is left when the loop has ended.\<close>

definition Stop :: "(u64 \<Rightarrow> u64 \<Rightarrow> 'b \<Rightarrow> 'b) \<Rightarrow> u64 \<Rightarrow> 'r \<Rightarrow> 'r MessagePumpImpl \<times> 'b \<Rightarrow> 'r MessagePumpImpl \<times> 'b" where
  "Stop Wakeup now stop_task = (\<lambda>(p, b).
    if stoped p then (p, b)
    else let (_, p, b) = PostRunable Wakeup now stop_task 0 (p, b) in (p\<lparr>stoped := True\<rparr>, b))"

definition Run_finish :: "'r MessagePumpImpl \<Rightarrow> 'r MessagePumpImpl" where
  "Run_finish p = p\<lparr>stoped := True, runable_set := []\<rparr>"

section \<open>Back ends\<close>

text \<open>\<open>MessagePumpDefatlt\<close>: a \<open>deadline_timer\<close>, whose pending wait is cancelled when it is set anew,
  and handlers posted to the \<open>io_service\<close>.\<close>

record default_backend =
  timer :: "u64 option"
  posted :: nat

definition default_Wakeup :: "u64 \<Rightarrow> u64 \<Rightarrow> default_backend \<Rightarrow> default_backend" where
  "default_Wakeup now expired b =
    (if expired > now then b\<lparr>timer := Some (now + (expired - now))\<rparr> else b\<lparr>posted := posted b + 1\<rparr>)"

definition default_DoStop :: "default_backend \<Rightarrow> default_backend" where
  "default_DoStop b = b\<lparr>timer := None\<rparr>"

text \<open>\<open>MessagePumpWin\<close>: a window timer with a 32-bit period, set anew under the same number, and
  messages posted to the window.\<close>

record win_backend =
  win_timer :: "u64 option"
  win_messages :: nat

definition win_Wakeup :: "u64 \<Rightarrow> u64 \<Rightarrow> win_backend \<Rightarrow> win_backend" where
  "win_Wakeup now expired b =
    (if expired > now then b\<lparr>win_timer := Some (now + ucast (ucast (expired - now) :: u32))\<rparr>
     else b\<lparr>win_messages := win_messages b + 1\<rparr>)"

text \<open>The override of \<open>Stop\<close>: it posts no task, but destroys the window, and with it the timer and the
  messages.\<close>

definition win_DoStop :: "win_backend \<Rightarrow> win_backend" where
  "win_DoStop b = b\<lparr>win_timer := None, win_messages := 0\<rparr>"

definition win_Stop :: "'r MessagePumpImpl \<times> win_backend \<Rightarrow> 'r MessagePumpImpl \<times> win_backend" where
  "win_Stop = (\<lambda>(p, b). (p\<lparr>stoped := True\<rparr>, win_DoStop b))"

text \<open>The window procedure and the timer procedure; a message taken from the queue of the window, or the timer
  that has run out, leads to one piece of work.\<close>

definition MESSAGE_PUMP_CUSTOM :: u32 where "MESSAGE_PUMP_CUSTOM = 0x0400 + 1"

definition win_Work ::
  "('r \<Rightarrow> 'r MessagePumpImpl \<times> win_backend \<Rightarrow> 'r MessagePumpImpl \<times> win_backend) \<Rightarrow> u64 \<Rightarrow>
   'r MessagePumpImpl \<times> win_backend \<Rightarrow> 'r MessagePumpImpl \<times> win_backend" where
  "win_Work run now = DoOneWork win_Wakeup run now"

definition WndProcThunk ::
  "('r \<Rightarrow> 'r MessagePumpImpl \<times> win_backend \<Rightarrow> 'r MessagePumpImpl \<times> win_backend) \<Rightarrow> u64 \<Rightarrow> u32 \<Rightarrow>
   'r MessagePumpImpl \<times> win_backend \<Rightarrow> 'r MessagePumpImpl \<times> win_backend" where
  "WndProcThunk run now message s = (if message = MESSAGE_PUMP_CUSTOM then win_Work run now s else s)"

definition WndTimerProcThunk ::
  "('r \<Rightarrow> 'r MessagePumpImpl \<times> win_backend \<Rightarrow> 'r MessagePumpImpl \<times> win_backend) \<Rightarrow> u64 \<Rightarrow>
   'r MessagePumpImpl \<times> win_backend \<Rightarrow> 'r MessagePumpImpl \<times> win_backend" where
  "WndTimerProcThunk run now = (\<lambda>(p, b). win_Work run now (p, b\<lparr>win_timer := None\<rparr>))"

text \<open>\<open>MessagePumpAndroid\<close>: a timer descriptor.  \<open>timerfd_settime\<close> is called with
  \<open>TFD_TIMER_ABSTIME\<close>, so the value is a time of the monotonic clock; \<open>10 + boot\<close> is the reading
  of that clock, in nanoseconds, when the clock of the program was 0 (the system started before).  The kernel refuses a negative time.\<close>

record android_backend =
  boot :: nat
  delayed_fd :: "nat option"

definition android_Wakeup :: "u64 \<Rightarrow> u64 \<Rightarrow> android_backend \<Rightarrow> android_backend" where
  "android_Wakeup now expired b =
    (let nanos = (if expired > now then sint ((expired - now) * 1000 * 1000) else 10)
     in if nanos < 0 then b else b\<lparr>delayed_fd := Some (nat nanos)\<rparr>)"

text \<open>The callback of the looper: after a hang-up the descriptor is not watched any more; otherwise reading it
  takes the expiry away, and the pump works.\<close>

definition ALOOPER_EVENT_HANGUP :: u32 where "ALOOPER_EVENT_HANGUP = 8"

definition WorkWrapper ::
  "('r \<Rightarrow> 'r MessagePumpImpl \<times> android_backend \<Rightarrow> 'r MessagePumpImpl \<times> android_backend) \<Rightarrow> u64 \<Rightarrow> u64 \<Rightarrow>
   'r MessagePumpImpl \<times> android_backend \<Rightarrow> 'r MessagePumpImpl \<times> android_backend" where
  "WorkWrapper run now now' = (\<lambda>(p, b). DoWork android_Wakeup run now now' (p, b\<lparr>delayed_fd := None\<rparr>))"

definition DelayedLooperCallback ::
  "('r \<Rightarrow> 'r MessagePumpImpl \<times> android_backend \<Rightarrow> 'r MessagePumpImpl \<times> android_backend) \<Rightarrow> u64 \<Rightarrow> u64 \<Rightarrow> u32 \<Rightarrow>
   'r MessagePumpImpl \<times> android_backend \<Rightarrow> int \<times> 'r MessagePumpImpl \<times> android_backend" where
  "DelayedLooperCallback run now now' events s =
    (if and events ALOOPER_EVENT_HANGUP \<noteq> 0 then (0, s) else (1, WorkWrapper run now now' s))"

section \<open>The order of the tasks\<close>

lemma less_expired: "x < (y :: 'r RunnableInfo) \<Longrightarrow> expired_time x \<le> expired_time y"
  by (auto simp: info_less split: if_splits)

lemma not_less_both: "\<not> x < (y :: 'r RunnableInfo) \<Longrightarrow> \<not> y < x \<Longrightarrow> expired_time x = expired_time y \<and> rid x = rid y"
  by (auto simp: info_less split: if_splits)

lemma set_insert_subset: "set (set_insert x xs) \<subseteq> insert x (set xs)"
  by (induction xs) auto

lemma sorted_set_insert: "sorted_wrt (<) xs \<Longrightarrow> sorted_wrt (<) (set_insert x (xs :: 'r RunnableInfo list))"
proof (induction xs)
  case (Cons y ys)
  then show ?case
    using set_insert_subset [of x ys] by (auto intro: less_trans)
qed simp

lemma set_set_insert:
  "\<forall>y\<in>set xs. rid y \<noteq> rid x \<Longrightarrow> set (set_insert x xs) = insert x (set xs)"
proof (induction xs)
  case (Cons y ys)
  then show ?case
    using not_less_both [of x y] by auto
qed simp

lemma hd_set_insert:
  "expired_time (hd (set_insert x xs)) =
    (if xs = [] \<or> expired_time x < expired_time (hd xs) then expired_time x else expired_time (hd xs))"
  by (cases xs) (auto simp: info_less)

lemma sorted_hd_le: "sorted_wrt (<) xs \<Longrightarrow> x \<in> set xs \<Longrightarrow> expired_time (hd xs) \<le> expired_time (x :: 'r RunnableInfo)"
  by (cases xs) (auto dest: less_expired)

lemma take_expired_filter:
  "sorted_wrt (<) xs \<Longrightarrow> take_expired now xs =
    (map runnable (filter (\<lambda>x. expired_time x \<le> now) xs), filter (\<lambda>x. \<not> expired_time x \<le> now) xs)"
proof (induction xs)
  case (Cons x xs)
  show ?case
  proof (cases "expired_time x \<le> now")
    case False
    then have "\<not> expired_time y \<le> now" if "y \<in> set xs" for y
      using Cons.prems that less_expired [of x y] by auto
    then show ?thesis
      using False by (simp add: filter_empty_conv)
  qed (use Cons in simp)
qed simp

lemma erase_id_None: "erase_id i xs = None \<longleftrightarrow> i \<notin> rid ` set xs"
  by (induction xs) auto

lemma erase_id_filter:
  "distinct (map rid xs) \<Longrightarrow> erase_id i xs = Some ys \<Longrightarrow> i \<in> rid ` set xs \<and> ys = filter (\<lambda>x. rid x \<noteq> i) xs"
proof (induction xs arbitrary: ys)
  case (Cons x xs)
  show ?case
  proof (cases "rid x = i")
    case True
    then have "i \<notin> rid ` set xs"
      using Cons.prems(1) by simp
    then have "filter (\<lambda>x. rid x \<noteq> i) xs = xs"
      unfolding filter_id_conv by blast
    then show ?thesis
      using True Cons.prems(2) by auto
  next
    case False
    then show ?thesis
      using Cons by auto
  qed
qed simp

section \<open>What a back end has to provide\<close>

text \<open>\<open>armed b t\<close>: the back end \<open>b\<close> is due to call the pump back at time \<open>t\<close> or before;
  \<open>fires now b b'\<close>: at time \<open>now\<close> it can make such a call, and is then \<open>b'\<close>.  The bound on the
  delay (34 years) keeps the arithmetic of the timers in range.\<close>

locale pump_backend =
  fixes Wakeup :: "u64 \<Rightarrow> u64 \<Rightarrow> 'b \<Rightarrow> 'b" and armed :: "'b \<Rightarrow> u64 \<Rightarrow> bool" and fires :: "u64 \<Rightarrow> 'b \<Rightarrow> 'b \<Rightarrow> bool"
  assumes armed_Wakeup: "unat expired < unat now + 2 ^ 40 \<Longrightarrow> armed (Wakeup now expired b) (max now expired)"
    and armed_mono: "armed b t \<Longrightarrow> t \<le> t' \<Longrightarrow> armed b t'"
    and armed_fires: "armed b now \<Longrightarrow> \<exists>b'. fires now b b'"

definition default_armed :: "default_backend \<Rightarrow> u64 \<Rightarrow> bool" where
  "default_armed b t \<longleftrightarrow> 0 < posted b \<or> (case timer b of None \<Rightarrow> False | Some e \<Rightarrow> e \<le> t)"

definition default_fires :: "u64 \<Rightarrow> default_backend \<Rightarrow> default_backend \<Rightarrow> bool" where
  "default_fires now b b' \<longleftrightarrow> 0 < posted b \<and> b' = b\<lparr>posted := posted b - 1\<rparr> \<or>
    (case timer b of None \<Rightarrow> False | Some e \<Rightarrow> e \<le> now \<and> b' = b\<lparr>timer := None\<rparr>)"

interpretation default_pump: pump_backend default_Wakeup default_armed default_fires
  by unfold_locales
    (auto simp: default_armed_def default_fires_def default_Wakeup_def max_def split: option.splits)

definition win_armed :: "win_backend \<Rightarrow> u64 \<Rightarrow> bool" where
  "win_armed b t \<longleftrightarrow> 0 < win_messages b \<or> (case win_timer b of None \<Rightarrow> False | Some e \<Rightarrow> e \<le> t)"

definition win_fires :: "u64 \<Rightarrow> win_backend \<Rightarrow> win_backend \<Rightarrow> bool" where
  "win_fires now b b' \<longleftrightarrow> 0 < win_messages b \<and> b' = b\<lparr>win_messages := win_messages b - 1\<rparr> \<or>
    (case win_timer b of None \<Rightarrow> False | Some e \<Rightarrow> e \<le> now \<and> b' = b\<lparr>win_timer := None\<rparr>)"

lemma win_period_early: "(now :: u64) < e \<Longrightarrow> now + ucast (ucast (e - now) :: u32) \<le> e"
proof -
  assume less: "now < e"
  let ?d = "e - now"
  have d: "unat ?d = unat e - unat now"
    using less by (simp add: unat_sub word_le_nat_alt word_less_nat_alt)
  have "unat (ucast (ucast ?d :: u32) :: u64) \<le> unat ?d"
    by (simp add: unsigned_ucast_eq) (simp add: unsigned_take_bit_eq take_bit_nat_less_eq_self)
  then show ?thesis
    using less d unsigned_less [of e]
    by (simp add: word_le_nat_alt word_less_nat_alt unat_word_ariths)
qed

interpretation win_pump: pump_backend win_Wakeup win_armed win_fires
  by unfold_locales
    (auto simp: win_armed_def win_fires_def win_Wakeup_def max_def win_period_early split: option.splits)

text \<open>The clock of the program, in milliseconds, on the monotonic clock of the system.\<close>

definition monotonic :: "android_backend \<Rightarrow> u64 \<Rightarrow> nat" where
  "monotonic b now = 10 + boot b + unat now * 1000000"

definition android_armed :: "android_backend \<Rightarrow> u64 \<Rightarrow> bool" where
  "android_armed b t \<longleftrightarrow> (case delayed_fd b of None \<Rightarrow> False | Some d \<Rightarrow> d \<le> monotonic b t)"

definition android_fires :: "u64 \<Rightarrow> android_backend \<Rightarrow> android_backend \<Rightarrow> bool" where
  "android_fires now b b' \<longleftrightarrow>
    (case delayed_fd b of None \<Rightarrow> False | Some d \<Rightarrow> d \<le> monotonic b now \<and> b' = b\<lparr>delayed_fd := None\<rparr>)"

lemma sint_million: "unat d < 2 ^ 40 \<Longrightarrow> sint (d * 1000 * 1000 :: u64) = int (unat d) * 1000000"
proof -
  assume d: "unat d < 2 ^ 40"
  have "d * 1000 * 1000 = of_int (int (unat d) * 1000000)"
    by simp
  then have "sint (d * 1000 * 1000) = signed_take_bit 63 (int (unat d) * 1000000)"
    by (simp only: signed_of_int) simp
  also have "signed_take_bit 63 (int n * 1000000) = int n * 1000000" if "n < 2 ^ 40" for n
    using that by (intro signed_take_bit_int_eq_self) simp_all
  from this [OF d] have "signed_take_bit 63 (int (unat d) * 1000000) = int (unat d) * 1000000" .
  finally show ?thesis .
qed

lemma android_nanos:
  assumes "now < e" "unat e < unat now + 2 ^ 40"
  shows "sint ((e - now) * 1000 * 1000 :: u64) = (int (unat e) - int (unat now)) * 1000000"
proof -
  have d: "unat (e - now) = unat e - unat now"
    using assms(1) by (simp add: unat_sub word_le_nat_alt word_less_nat_alt)
  then have "unat (e - now) < 2 ^ 40"
    using assms by (simp add: word_less_nat_alt)
  from sint_million [OF this] show ?thesis
    using assms(1) unfolding d by (simp add: word_less_nat_alt of_nat_diff)
qed

lemma android_Wakeup_later:
  assumes "now < e" "unat e < unat now + 2 ^ 40"
  shows "android_Wakeup now e b = b\<lparr>delayed_fd := Some ((unat e - unat now) * 1000000)\<rparr>"
proof -
  have "nat ((int x - int y) * 1000000) = (x - y) * 1000000 \<and> \<not> (int x - int y) * 1000000 < 0" if "y < x" for x y
    using that by (simp add: nat_mult_distrib nat_diff_distrib)
  then have "nat ((int (unat e) - int (unat now)) * 1000000) = (unat e - unat now) * 1000000 \<and>
      \<not> (int (unat e) - int (unat now)) * 1000000 < 0"
    using assms(1) unfolding word_less_nat_alt by blast
  then show ?thesis
    unfolding android_Wakeup_def android_nanos [OF assms] Let_def using assms(1) by (simp only: if_True if_False)
qed

lemma android_armed_Wakeup:
  assumes "unat e < unat now + 2 ^ 40"
  shows "android_armed (android_Wakeup now e b) (max now e)"
proof (cases "now < e")
  case True
  then show ?thesis
    using android_Wakeup_later [OF True assms] by (simp add: android_armed_def monotonic_def diff_mult_distrib)
next
  case False
  then show ?thesis
    by (simp add: android_armed_def android_Wakeup_def monotonic_def)
qed

interpretation android_pump: pump_backend android_Wakeup android_armed android_fires
  by (unfold_locales, erule android_armed_Wakeup)
    (auto simp: android_armed_def android_fires_def monotonic_def word_le_nat_alt split: option.splits)

section \<open>Runs of a pump\<close>

text \<open>A pump with its back end, the clock, the calls of \<open>DoWork\<close> in progress with the tasks each of
  them still has to run, and the tasks that have run.\<close>

record ('r, 'b) pump_system =
  clock :: u64
  pump :: "'r MessagePumpImpl"
  backend :: 'b
  busy :: "'r list list"
  executed :: "'r list"

text \<open>The steps: time passes; a task is posted or cancelled, by any thread or by a task; the back end
  fires and \<open>DoWork\<close> takes the expired tasks; a task runs; \<open>DoWork\<close> ends; the back end fires and
  \<open>DoOneWork\<close> does its work.  Posting and waking up are one step here.\<close>

inductive pump_run ::
  "(u64 \<Rightarrow> u64 \<Rightarrow> 'b \<Rightarrow> 'b) \<Rightarrow> (u64 \<Rightarrow> 'b \<Rightarrow> 'b \<Rightarrow> bool) \<Rightarrow> 'b \<Rightarrow> ('r, 'b) pump_system \<Rightarrow> bool"
  for Wakeup fires b0 where
  init: "pump_run Wakeup fires b0 \<lparr>clock = 0, pump = MessagePumpImpl_new, backend = b0, busy = [], executed = []\<rparr>"
| tick: "pump_run Wakeup fires b0 s \<Longrightarrow> clock s \<le> t \<Longrightarrow> unat t < 2 ^ 62 \<Longrightarrow> pump_run Wakeup fires b0 (s\<lparr>clock := t\<rparr>)"
| post: "pump_run Wakeup fires b0 s \<Longrightarrow> unat delay < 2 ^ 40 \<Longrightarrow> last_id (pump s) \<noteq> - 1 \<Longrightarrow>
    PostRunable Wakeup (clock s) r delay (pump s, backend s) = (i, p, b) \<Longrightarrow>
    pump_run Wakeup fires b0 (s\<lparr>pump := p, backend := b\<rparr>)"
| cancel: "pump_run Wakeup fires b0 s \<Longrightarrow> Cancel i (pump s) = (c, p) \<Longrightarrow> pump_run Wakeup fires b0 (s\<lparr>pump := p\<rparr>)"
| work: "pump_run Wakeup fires b0 s \<Longrightarrow> fires (clock s) (backend s) b \<Longrightarrow> DoWork_take (clock s) (pump s) = (rs, p) \<Longrightarrow>
    pump_run Wakeup fires b0 (s\<lparr>pump := p, backend := b, busy := rs # busy s\<rparr>)"
| run_task: "pump_run Wakeup fires b0 s \<Longrightarrow> busy s = bs @ (r # rs) # bs' \<Longrightarrow>
    pump_run Wakeup fires b0 (s\<lparr>busy := bs @ rs # bs', executed := executed s @ [r]\<rparr>)"
| work_done: "pump_run Wakeup fires b0 s \<Longrightarrow> busy s = bs @ [] # bs' \<Longrightarrow>
    pump_run Wakeup fires b0 (s\<lparr>busy := bs @ bs', backend := wake_next Wakeup (clock s) (pump s) (backend s)\<rparr>)"
| one_work: "pump_run Wakeup fires b0 s \<Longrightarrow> fires (clock s) (backend s) b \<Longrightarrow> DoOneWork_take (clock s) (pump s) = (r, p) \<Longrightarrow>
    pump_run Wakeup fires b0 (s\<lparr>pump := p, backend := wake_next Wakeup (clock s) p b,
      executed := executed s @ (case r of None \<Rightarrow> [] | Some r \<Rightarrow> [r])\<rparr>)"

text \<open>The invariant of the set: sorted, numbered from 1 to the last number without repetition, and no task
  further away than the largest delay.\<close>

definition set_inv :: "u64 \<Rightarrow> 'r MessagePumpImpl \<Rightarrow> bool" where
  "set_inv now p \<longleftrightarrow> sorted_wrt (<) (runable_set p) \<and> distinct (map rid (runable_set p)) \<and>
    (\<forall>x\<in>set (runable_set p). rid x \<le> last_id p \<and> unat (expired_time x) < unat now + 2 ^ 40)"

lemma set_inv_new: "set_inv now MessagePumpImpl_new"
  by (simp add: set_inv_def MessagePumpImpl_new_def)

lemma set_inv_tick: "set_inv now p \<Longrightarrow> now \<le> t \<Longrightarrow> set_inv t p"
  by (auto simp: set_inv_def word_le_nat_alt)

lemma set_inv_filter:
  "set_inv now p \<Longrightarrow> set_inv now (p\<lparr>runable_set := filter P (runable_set p)\<rparr>)"
  by (auto simp: set_inv_def sorted_wrt_filter distinct_map_filter)

lemma set_inv_take: "set_inv now p \<Longrightarrow> DoWork_take now p = (rs, q) \<Longrightarrow> set_inv now q"
  using set_inv_filter [of now p "\<lambda>x. \<not> expired_time x \<le> now"]
  by (auto simp: DoWork_take_def set_inv_def take_expired_filter)

lemma set_inv_take_one: "set_inv now p \<Longrightarrow> DoOneWork_take now p = (r, q) \<Longrightarrow> set_inv now q"
  by (auto simp: DoOneWork_take_def set_inv_def split: list.splits if_splits)

lemma set_inv_cancel:
  assumes "set_inv now p" "Cancel i p = (c, q)"
  shows "q = p\<lparr>runable_set := filter (\<lambda>x. rid x \<noteq> i) (runable_set p)\<rparr> \<and> (c \<longleftrightarrow> i \<in> rid ` set (runable_set p))"
proof (cases "erase_id i (runable_set p)")
  case None
  then have "i \<notin> rid ` set (runable_set p)"
    by (simp add: erase_id_None)
  moreover from this have "filter (\<lambda>x. rid x \<noteq> i) (runable_set p) = runable_set p"
    unfolding filter_id_conv by blast
  ultimately show ?thesis
    using None assms(2) by (simp add: Cancel_def)
next
  case (Some xs)
  then show ?thesis
    using assms erase_id_filter [OF _ Some] by (auto simp: Cancel_def set_inv_def)
qed

lemma word_less_Suc: "x \<le> y \<Longrightarrow> y \<noteq> - 1 \<Longrightarrow> x < y + (1 :: u64)"
proof -
  assume *: "x \<le> y" "y \<noteq> - 1"
  then have "1 + y \<noteq> 0"
    by (auto simp: add_eq_0_iff)
  from unatSuc [OF this] show ?thesis
    using *(1) by (simp add: word_less_nat_alt word_le_nat_alt add.commute)
qed

lemma distinct_set_insert:
  "distinct (map rid xs) \<Longrightarrow> \<forall>y\<in>set xs. rid y \<noteq> rid x \<Longrightarrow> distinct (map rid (set_insert x xs))"
proof (induction xs)
  case (Cons y ys)
  then have "set (set_insert x ys) = insert x (set ys)"
    by (intro set_set_insert) simp
  then show ?case
    using Cons by auto
qed simp

lemma set_inv_insert:
  assumes "set_inv now p" "last_id p \<noteq> - 1" "unat e < unat now + 2 ^ 40"
  shows "set_inv now (p\<lparr>last_id := last_id p + 1, runable_set := set_insert (RunnableInfo e (last_id p + 1) r) (runable_set p)\<rparr>)"
proof -
  let ?x = "RunnableInfo e (last_id p + 1) r"
  have less: "rid x < last_id p + 1" if "x \<in> set (runable_set p)" for x
    using assms(1,2) that by (intro word_less_Suc) (auto simp: set_inv_def)
  then have new: "\<forall>y\<in>set (runable_set p). rid y \<noteq> rid ?x"
    by force
  have "\<forall>y\<in>set (set_insert ?x (runable_set p)). rid y \<le> last_id p + 1 \<and> unat (expired_time y) < unat now + 2 ^ 40"
    unfolding set_set_insert [OF new] using less assms(1,3) by (auto simp: set_inv_def less_imp_le)
  then show ?thesis
    using assms(1) new by (simp add: set_inv_def sorted_set_insert distinct_set_insert)
qed

lemma unat_add_delay: "unat now < 2 ^ 62 \<Longrightarrow> unat d < 2 ^ 40 \<Longrightarrow> unat (now + d :: u64) = unat now + unat d"
  by (simp add: unat_word_ariths)

lemma set_inv_post:
  assumes "set_inv now p" "last_id p \<noteq> - 1" "unat now < 2 ^ 62" "unat d < 2 ^ 40"
    and "PostRunable Wakeup now r d (p, b) = (i, q, b')"
  shows "set_inv now q"
proof (cases "stoped p")
  case False
  have "unat (now + d) < unat now + 2 ^ 40"
    using assms(3,4) by (simp add: unat_add_delay)
  from set_inv_insert [OF assms(1,2) this, of r] show ?thesis
    using False assms(5) by (auto simp: PostRunable_def PostInsert_def Let_def split: if_splits)
qed (use assms in \<open>simp add: PostRunable_def\<close>)

text \<open>The back end is due in time for the first task of the set.\<close>

definition timely :: "('b \<Rightarrow> u64 \<Rightarrow> bool) \<Rightarrow> u64 \<Rightarrow> 'r MessagePumpImpl \<Rightarrow> 'b \<Rightarrow> bool" where
  "timely armed now p b \<longleftrightarrow> runable_set p \<noteq> [] \<longrightarrow> armed b (max now (expired_time (hd (runable_set p))))"

context pump_backend
begin

lemma timely_wake_next: "set_inv now p \<Longrightarrow> timely armed now p (wake_next Wakeup now p b)"
  by (auto simp: timely_def wake_next_def set_inv_def intro!: armed_Wakeup)

lemma timely_later:
  assumes "timely armed now p b" "now \<le> t" "set_inv now p" "set (runable_set q) \<subseteq> set (runable_set p)"
  shows "timely armed t q b"
proof -
  have "armed b (max t (expired_time (hd (runable_set q))))" if "runable_set q \<noteq> []"
  proof -
    have h: "hd (runable_set q) \<in> set (runable_set p)"
      using that assms(4) by auto
    moreover have "sorted_wrt (<) (runable_set p)"
      using assms(3) by (simp add: set_inv_def)
    ultimately have le: "expired_time (hd (runable_set p)) \<le> expired_time (hd (runable_set q))"
      by (intro sorted_hd_le)
    have "armed b (max now (expired_time (hd (runable_set p))))"
      using assms(1) h unfolding timely_def by fastforce
    then show ?thesis
      by (rule armed_mono) (rule max.mono [OF assms(2) le])
  qed
  then show ?thesis
    by (simp add: timely_def)
qed

lemma timely_post:
  assumes "timely armed now p b" "set_inv now p" "unat now < 2 ^ 62" "unat d < 2 ^ 40"
    and "PostRunable Wakeup now r d (p, b) = (i, q, b')"
  shows "timely armed now q b'"
proof -
  have "unat (now + d) < unat now + 2 ^ 40"
    using assms(3,4) by (simp add: unat_add_delay)
  then show ?thesis
    using assms(1,5) armed_Wakeup [of "now + d" now b]
    by (auto simp: PostRunable_def PostInsert_def timely_def hd_set_insert Let_def split: if_splits)
qed

lemma run_inv:
  "pump_run Wakeup fires b0 s \<Longrightarrow> set_inv (clock s) (pump s) \<and> unat (clock s) < 2 ^ 62 \<and>
    (busy s = [] \<longrightarrow> timely armed (clock s) (pump s) (backend s))"
proof (induction rule: pump_run.induct)
  case init
  then show ?case
    by (simp add: set_inv_new) (simp add: timely_def MessagePumpImpl_new_def)
next
  case (tick s t)
  then show ?case
    by (auto intro: set_inv_tick timely_later)
next
  case (post s delay r i p b)
  then show ?case
    by (auto intro: set_inv_post timely_post)
next
  case (cancel s i c p)
  then show ?case
    using set_inv_cancel [of "clock s" "pump s" i c p]
    by (auto intro: set_inv_filter timely_later [of "clock s" "pump s"])
next
  case (work s b rs p)
  then show ?case
    using set_inv_take [of "clock s" "pump s" rs p] by simp
next
  case (run_task s bs r rs bs')
  then show ?case
    by simp
next
  case (work_done s bs bs')
  then show ?case
    by (simp add: timely_wake_next)
next
  case (one_work s b r p)
  then show ?case
    using set_inv_take_one [of "clock s" "pump s" r p] by (simp add: timely_wake_next)
qed

end


lemma posted_run:
  "pump_run default_Wakeup default_fires \<lparr>timer = None, posted = 0\<rparr>
    \<lparr>clock = 0, pump = \<lparr>runable_set = [RunnableInfo 0 1 ''task''], last_id = 1, stoped = False\<rparr>,
     backend = \<lparr>timer = None, posted = 1\<rparr>, busy = [], executed = []\<rparr>"
proof -
  have "PostRunable default_Wakeup 0 ''task'' 0 (MessagePumpImpl_new, \<lparr>timer = None, posted = 0\<rparr>) =
      (1, \<lparr>runable_set = [RunnableInfo 0 1 ''task''], last_id = 1, stoped = False\<rparr>, \<lparr>timer = None, posted = 1\<rparr>)"
    by (simp add: MessagePumpImpl_new_def PostRunable_def PostInsert_def default_Wakeup_def)
  then show ?thesis
    using pump_run.post [OF pump_run.init [of default_Wakeup default_fires "\<lparr>timer = None, posted = 0\<rparr>"], of 0 "''task''"]
    by (simp add: MessagePumpImpl_new_def)
qed


text \<open>\<open>DoWork\<close> takes exactly the tasks that have expired, in the order of their times and, for equal
  times, in the order in which they were posted; all others stay.\<close>

lemma DoWork_takes_expired:
  assumes "pump_backend Wakeup armed fires" "pump_run Wakeup fires b0 s"
  shows "DoWork_take now (pump s) =
      (map runnable (filter (\<lambda>x. expired_time x \<le> now) (runable_set (pump s))),
       (pump s)\<lparr>runable_set := filter (\<lambda>x. now < expired_time x) (runable_set (pump s))\<rparr>) \<and>
    sorted_wrt (\<lambda>x y. expired_time x < expired_time y \<or> expired_time x = expired_time y \<and> rid x < rid y)
      (runable_set (pump s))"
proof -
  have sorted: "sorted_wrt (<) (runable_set (pump s))"
    using pump_backend.run_inv [OF assms] by (simp add: set_inv_def)
  then have "sorted_wrt (\<lambda>x y. expired_time x < expired_time y \<or> expired_time x = expired_time y \<and> rid x < rid y)
      (runable_set (pump s))"
    by (rule sorted_wrt_mono_rel [rotated]) (auto simp: info_less split: if_splits)
  then show ?thesis
    using take_expired_filter [OF sorted] by (simp add: DoWork_take_def not_le)
qed

lemma one_with_id: "distinct (map rid xs) \<Longrightarrow> length (filter (\<lambda>x. rid x = i) xs) \<le> 1"
proof (induction xs)
  case (Cons x xs)
  then have "filter (\<lambda>y. rid y = rid x) xs = []"
    unfolding filter_empty_conv by (metis distinct.simps(2) image_eqI list.simps(9) set_map)
  then show ?case
    using Cons by auto
qed simp

text \<open>\<open>Cancel\<close> reports whether a task with the number is waiting, and takes out exactly that task.\<close>

lemma Cancel_exact:
  assumes "pump_backend Wakeup armed fires" "pump_run Wakeup fires b0 s"
  shows "Cancel i (pump s) = (i \<in> rid ` set (runable_set (pump s)),
      (pump s)\<lparr>runable_set := filter (\<lambda>x. rid x \<noteq> i) (runable_set (pump s))\<rparr>) \<and>
    length (filter (\<lambda>x. rid x = i) (runable_set (pump s))) \<le> 1"
proof -
  have inv: "set_inv (clock s) (pump s)"
    using pump_backend.run_inv [OF assms] by simp
  then have "length (filter (\<lambda>x. rid x = i) (runable_set (pump s))) \<le> 1"
    by (intro one_with_id) (simp add: set_inv_def)
  then show ?thesis
    using set_inv_cancel [OF inv, of i] by (cases "Cancel i (pump s)") simp
qed

text \<open>Concurrent posts may be late.  \<open>PostRunable\<close> calls \<open>Wakeup\<close> after it has released the mutex.
  If a thread posts a task due in \<open>d1\<close> milliseconds to an empty pump, a second thread posts one due
  earlier, in \<open>d2\<close> milliseconds, and their calls of \<open>Wakeup\<close> come in the opposite order, then the
  default back end is left with the later time, and is not due for the first task.\<close>

lemma concurrent_posts_late:
  assumes "unat now < 2 ^ 62" "0 < d2" "d2 < d1" "unat d1 < 2 ^ 40"
    and "PostInsert (now + d1) r1 MessagePumpImpl_new = (w1, i1, p1)"
    and "PostInsert (now + d2) r2 p1 = (w2, i2, p2)"
    and "b = default_Wakeup now (now + d1) (default_Wakeup now (now + d2) \<lparr>timer = None, posted = 0\<rparr>)"
  shows "w1 \<and> w2 \<and> expired_time (hd (runable_set p2)) = now + d2 \<and> timer b = Some (now + d1) \<and>
    \<not> default_armed b (max now (now + d2))"
proof -
  have "unat d2 < unat d1" "0 < unat d2"
    using assms(2,3) by (simp_all add: word_less_nat_alt)
  then have "now < now + d2" "now + d2 < now + d1"
    using assms(1,4) by (simp_all add: word_less_nat_alt unat_add_delay)
  then show ?thesis
    using assms(5-7)
    by (auto simp: PostInsert_def MessagePumpImpl_new_def Let_def default_Wakeup_def default_armed_def
        info_less split: if_splits)
qed

text \<open>The Android back end wakes too early.  Its timer gets the remaining time as a point of the
  monotonic clock; unless the system has been up for less than that time, the timer fires at once, \<open>DoWork\<close>
  finds nothing to do and sets the timer again, until the first task expires.\<close>

lemma android_wakes_early:
  assumes "runable_set p = x # xs" "now < expired_time x" "unat (expired_time x) < unat now + 2 ^ 40"
    and "(unat (expired_time x) - unat now) * 1000000 \<le> monotonic b now"
  shows "android_fires now (wake_next android_Wakeup now p b) (b\<lparr>delayed_fd := None\<rparr>) \<and> DoWork_take now p = ([], p)"
  using assms(1,4) android_Wakeup_later [OF assms(2,3), of b] assms(2) [THEN less_le_not_le [THEN iffD1]]
  by (simp add: wake_next_def android_fires_def monotonic_def DoWork_take_def)

text \<open>After \<open>Stop\<close> a pump accepts nothing: \<open>PostRunable\<close> returns 0, which is no number of a task, and
  neither it nor another \<open>Stop\<close> changes anything.\<close>

lemma stopped_refuses:
  assumes "Stop Wakeup now t (p, b) = (q, c)"
  shows "PostRunable Wakeup now' r d (q, c) = (0, q, c) \<and> Stop Wakeup now' t' (q, c) = (q, c) \<and> stoped q"
  using assms by (auto simp: Stop_def PostRunable_def Let_def split: if_splits prod.splits)

end
