(* ===== verification/MessageLoop.thy ===== *)
theory MessageLoop
  imports MessagePump StdMap
begin

text \<open>
  The loops of \<open>src/base/message_loop/message_loop_impl.cc\<close>: the manager that owns one pump of each kind, and the
  functions that start it, stop it and give out its pumps.  The pumps are objects in a store, because
  a pointer to a pump outlives the manager; they are those of theory \<open>MessagePump\<close> with their back ends.
\<close>

section \<open>Data\<close>

datatype MessagePumpType = kMessagePumpTypeUI | kMessagePumpTypeIO | kMessagePumpTypeWork | kMessagePumpTypeFile

text \<open>The order of the enumeration, which is the order of the map.\<close>

primrec pump_type_index :: "MessagePumpType \<Rightarrow> nat" where
  "pump_type_index kMessagePumpTypeUI = 0"
| "pump_type_index kMessagePumpTypeIO = 1"
| "pump_type_index kMessagePumpTypeWork = 2"
| "pump_type_index kMessagePumpTypeFile = 3"

lemma pump_type_index_inj: "pump_type_index a = pump_type_index b \<Longrightarrow> a = b"
  by (cases a; cases b) simp_all

instantiation MessagePumpType :: linorder
begin

definition less_MessagePumpType :: "MessagePumpType \<Rightarrow> MessagePumpType \<Rightarrow> bool" where
  "less_MessagePumpType a b \<longleftrightarrow> pump_type_index a < pump_type_index b"

definition less_eq_MessagePumpType :: "MessagePumpType \<Rightarrow> MessagePumpType \<Rightarrow> bool" where
  "less_eq_MessagePumpType a b \<longleftrightarrow> pump_type_index a \<le> pump_type_index b"

instance
  by intro_classes (auto simp: less_MessagePumpType_def less_eq_MessagePumpType_def dest: pump_type_index_inj)

end

datatype platform = OS_WIN | OS_ANDROID

datatype backend = Default default_backend | Win win_backend | Android android_backend

primrec backend_Wakeup :: "backend \<Rightarrow> u64 \<Rightarrow> u64 \<Rightarrow> backend" where
  "backend_Wakeup (Default b) now expired = Default (default_Wakeup now expired b)"
| "backend_Wakeup (Win b) now expired = Win (win_Wakeup now expired b)"
| "backend_Wakeup (Android b) now expired = Android (android_Wakeup now expired b)"

definition Wakeup :: "u64 \<Rightarrow> u64 \<Rightarrow> backend \<Rightarrow> backend" where
  "Wakeup now expired b = backend_Wakeup b now expired"

record 'r pump_object =
  pump_name :: string
  thread_count :: nat
  pump :: "'r MessagePumpImpl"
  backend :: backend

text \<open>The store and the global manager.\<close>

record 'r loops =
  objects :: "'r pump_object list"
  g_loop_manager :: "(MessagePumpType \<times> nat) list option"

text \<open>A pointer to a pump: an object of the store, the pump \<open>s_empty_pump\<close>, or null.\<close>

datatype pump_ref = Pump nat | Empty_pump | Null_pump

section \<open>The manager\<close>

definition new_pump :: "string \<Rightarrow> nat \<Rightarrow> backend \<Rightarrow> 'r pump_object" where
  "new_pump name threads b = \<lparr>pump_name = name, thread_count = threads, pump = MessagePumpImpl_new, backend = b\<rparr>"

definition default_pump_new :: "string \<Rightarrow> nat \<Rightarrow> 'r pump_object" where
  "default_pump_new name threads = new_pump name threads (Default \<lparr>timer = None, posted = 0\<rparr>)"

text \<open>The pump of the user interface depends on the platform; \<open>clk\<close> is the clock of the system.\<close>

definition ui_pump_new :: "platform \<Rightarrow> nat \<Rightarrow> 'r pump_object" where
  "ui_pump_new os clk =
    (case os of
       OS_WIN \<Rightarrow> new_pump ''Main'' 1 (Win \<lparr>win_timer = None, win_messages = 0\<rparr>)
     | OS_ANDROID \<Rightarrow> new_pump ''Main'' 1 (Android \<lparr>boot = clk, delayed_fd = None\<rparr>))"

definition WORK_THREAD_COUNT :: nat where "WORK_THREAD_COUNT = 4"

definition set_looper :: "MessagePumpType \<Rightarrow> 'r pump_object \<Rightarrow>
    'r pump_object list \<times> (MessagePumpType \<times> nat) list \<Rightarrow> 'r pump_object list \<times> (MessagePumpType \<times> nat) list" where
  "set_looper t p = (\<lambda>(objs, loopers). (objs @ [p], map_put t (length objs) loopers))"

definition MessageLooperManager_new :: "platform \<Rightarrow> nat \<Rightarrow> 'r pump_object list \<Rightarrow> 'r pump_object list \<times> (MessagePumpType \<times> nat) list" where
  "MessageLooperManager_new os clk objs =
    set_looper kMessagePumpTypeFile (default_pump_new ''File'' 1)
      (set_looper kMessagePumpTypeWork (default_pump_new ''Work'' WORK_THREAD_COUNT)
        (set_looper kMessagePumpTypeIO (default_pump_new ''IO'' 1)
          (set_looper kMessagePumpTypeUI (ui_pump_new os clk) (objs, []))))"

text \<open>The virtual function \<open>Stop\<close>, which \<open>MessagePumpWin\<close> overrides.\<close>

definition stop_object :: "u64 \<Rightarrow> 'r \<Rightarrow> 'r pump_object \<Rightarrow> 'r pump_object" where
  "stop_object now stop_task p =
    (case backend p of
       Win w \<Rightarrow> (let (q, w) = win_Stop (pump p, w) in p\<lparr>pump := q, backend := Win w\<rparr>)
     | _ \<Rightarrow> (let (q, b) = Stop Wakeup now stop_task (pump p, backend p) in p\<lparr>pump := q, backend := b\<rparr>))"

definition stop_at :: "u64 \<Rightarrow> 'r \<Rightarrow> nat \<Rightarrow> 'r pump_object list \<Rightarrow> 'r pump_object list" where
  "stop_at now stop_task a objs = (if a < length objs then objs[a := stop_object now stop_task (objs ! a)] else objs)"

text \<open>The destructor stops each pump; the destructor of \<open>MessageLoopImpl\<close> stops it once more.\<close>

fun MessageLooperManager_delete :: "u64 \<Rightarrow> 'r \<Rightarrow> (MessagePumpType \<times> nat) list \<Rightarrow> 'r pump_object list \<Rightarrow> 'r pump_object list" where
  "MessageLooperManager_delete now stop_task [] objs = objs"
| "MessageLooperManager_delete now stop_task ((t, a) # loopers) objs =
    MessageLooperManager_delete now stop_task loopers (stop_at now stop_task a (stop_at now stop_task a objs))"

definition InitMessageLoop :: "platform \<Rightarrow> nat \<Rightarrow> 'r loops \<Rightarrow> 'r loops" where
  "InitMessageLoop os clk s =
    (if g_loop_manager s \<noteq> None then s
     else let (objs, loopers) = MessageLooperManager_new os clk (objects s)
       in s\<lparr>objects := objs, g_loop_manager := Some loopers\<rparr>)"

definition UnintMessageLoop :: "u64 \<Rightarrow> 'r \<Rightarrow> 'r loops \<Rightarrow> 'r loops" where
  "UnintMessageLoop now stop_task s =
    (let tmp = g_loop_manager s; s = s\<lparr>g_loop_manager := None\<rparr>
     in case tmp of
          None \<Rightarrow> s
        | Some loopers \<Rightarrow> s\<lparr>objects := MessageLooperManager_delete now stop_task loopers (objects s)\<rparr>)"

definition manager_GetMessagePumpByType :: "MessagePumpType \<Rightarrow> (MessagePumpType \<times> nat) list \<Rightarrow> pump_ref" where
  "manager_GetMessagePumpByType t loopers = (case map_of loopers t of None \<Rightarrow> Null_pump | Some a \<Rightarrow> Pump a)"

definition GetMessagePumpByType :: "MessagePumpType \<Rightarrow> 'r loops \<Rightarrow> pump_ref" where
  "GetMessagePumpByType t s =
    (case g_loop_manager s of
       None \<Rightarrow> Empty_pump
     | Some loopers \<Rightarrow> manager_GetMessagePumpByType t loopers)"

definition IOMessagePump :: "'r loops \<Rightarrow> pump_ref" where
  "IOMessagePump s = GetMessagePumpByType kMessagePumpTypeIO s"

definition WorkMessagePump :: "'r loops \<Rightarrow> pump_ref" where
  "WorkMessagePump s = GetMessagePumpByType kMessagePumpTypeWork s"

definition FileMessagePump :: "'r loops \<Rightarrow> pump_ref" where
  "FileMessagePump s = GetMessagePumpByType kMessagePumpTypeFile s"

definition UIMessagePump :: "'r loops \<Rightarrow> pump_ref" where
  "UIMessagePump s = GetMessagePumpByType kMessagePumpTypeUI s"

text \<open>The virtual function \<open>PostRunable\<close> through a pointer: the result and the store; \<open>None\<close> for a null pointer.
  The empty pump returns \<open>-1\<close>.\<close>

definition ref_PostRunable :: "u64 \<Rightarrow> 'r \<Rightarrow> u64 \<Rightarrow> pump_ref \<Rightarrow> 'r loops \<Rightarrow> (u64 \<times> 'r loops) option" where
  "ref_PostRunable now r delay p s =
    (case p of
       Null_pump \<Rightarrow> None
     | Empty_pump \<Rightarrow> Some (- 1, s)
     | Pump a \<Rightarrow>
         if a < length (objects s) then
           (let obj = objects s ! a; (i, q, b) = PostRunable Wakeup now r delay (pump obj, backend obj)
            in Some (i, s\<lparr>objects := (objects s)[a := obj\<lparr>pump := q, backend := b\<rparr>]\<rparr>))
         else None)"

text \<open>\<open>Cancel\<close>; the empty pump cancels nothing.\<close>

definition ref_Cancel :: "u64 \<Rightarrow> pump_ref \<Rightarrow> 'r loops \<Rightarrow> (bool \<times> 'r loops) option" where
  "ref_Cancel i p s =
    (case p of
       Null_pump \<Rightarrow> None
     | Empty_pump \<Rightarrow> Some (False, s)
     | Pump a \<Rightarrow>
         if a < length (objects s) then
           (let obj = objects s ! a; (c, q) = Cancel i (pump obj)
            in Some (c, s\<lparr>objects := (objects s)[a := obj\<lparr>pump := q\<rparr>]\<rparr>))
         else None)"

text \<open>A thread of a pump takes the expired tasks, or ends its loop.\<close>

definition work_at :: "u64 \<Rightarrow> nat \<Rightarrow> 'r loops \<Rightarrow> 'r loops" where
  "work_at now a s =
    (if a < length (objects s) then
       s\<lparr>objects := (objects s)[a := (objects s ! a)\<lparr>pump := snd (DoWork_take now (pump (objects s ! a)))\<rparr>]\<rparr> else s)"

definition finish_at :: "nat \<Rightarrow> 'r loops \<Rightarrow> 'r loops" where
  "finish_at a s =
    (if a < length (objects s) then
       s\<lparr>objects := (objects s)[a := (objects s ! a)\<lparr>pump := Run_finish (pump (objects s ! a))\<rparr>]\<rparr> else s)"

text \<open>The thread-local pointer set by the loop of a pump; \<open>CallOnValidThread\<close> of the loop around a pump.\<close>

definition CurrentMessagePump :: "nat option \<Rightarrow> pump_ref" where
  "CurrentMessagePump tls = (case tls of Some a \<Rightarrow> Pump a | None \<Rightarrow> Null_pump)"

definition CallOnValidThread :: "nat option \<Rightarrow> nat \<Rightarrow> bool" where
  "CallOnValidThread tls a \<longleftrightarrow> Pump a = CurrentMessagePump tls"

section \<open>Runs\<close>

inductive loop_step :: "'r loops \<Rightarrow> 'r loops \<Rightarrow> bool" where
  init: "loop_step s (InitMessageLoop os clk s)"
| unint: "loop_step s (UnintMessageLoop now r s)"
| post: "ref_PostRunable now r delay p s = Some (i, s') \<Longrightarrow> loop_step s s'"
| cancel: "ref_Cancel i p s = Some (c, s') \<Longrightarrow> loop_step s s'"
| work: "loop_step s (work_at now a s)"
| finish: "loop_step s (finish_at a s)"

definition loops_start :: "'r loops" where
  "loops_start = \<lparr>objects = [], g_loop_manager = None\<rparr>"

text \<open>Every pump that runs is one of the manager, which has one of each kind.\<close>

definition managed :: "'r loops \<Rightarrow> nat \<Rightarrow> bool" where
  "managed s a \<longleftrightarrow> (\<exists>ls t. g_loop_manager s = Some ls \<and> map_of ls t = Some a)"

definition loop_inv :: "'r loops \<Rightarrow> bool" where
  "loop_inv s \<longleftrightarrow> (\<forall>a<length (objects s). \<not> stoped (pump (objects s ! a)) \<longrightarrow> managed s a) \<and>
    (\<forall>ls t. g_loop_manager s = Some ls \<longrightarrow> sorted_map ls \<and> (\<exists>a<length (objects s). map_of ls t = Some a))"

lemma loop_inv_start: "loop_inv loops_start"
  by (simp add: loop_inv_def loops_start_def)

text \<open>The manager made from a store with \<open>n\<close> objects.\<close>

lemma MessageLooperManager_new_objects:
  assumes "MessageLooperManager_new os clk objs = (objs', ls)"
  shows "length objs' = length objs + 4" "a < length objs \<Longrightarrow> objs' ! a = objs ! a" "sorted_map ls"
    "\<exists>b<length objs + 4. map_of ls t = Some b"
    "length objs \<le> a \<Longrightarrow> a < length objs + 4 \<Longrightarrow> \<exists>t. map_of ls t = Some a"
proof -
  let ?n = "length objs"
  have ls: "ls = [(kMessagePumpTypeUI, ?n), (kMessagePumpTypeIO, Suc ?n), (kMessagePumpTypeWork, Suc (Suc ?n)),
      (kMessagePumpTypeFile, Suc (Suc (Suc ?n)))]"
    and objs': "objs' = objs @ [ui_pump_new os clk, default_pump_new ''IO'' 1, default_pump_new ''Work'' WORK_THREAD_COUNT,
      default_pump_new ''File'' 1]"
    using assms by (simp_all add: MessageLooperManager_new_def set_looper_def less_MessagePumpType_def)
  show "length objs' = length objs + 4" "a < length objs \<Longrightarrow> objs' ! a = objs ! a" "sorted_map ls"
    by (simp_all add: objs' ls nth_append sorted_map_def less_MessagePumpType_def)
  show "\<exists>b<length objs + 4. map_of ls t = Some b"
    unfolding ls by (cases t) simp_all
  assume "length objs \<le> a" "a < length objs + 4"
  then have "a = ?n \<or> a = Suc ?n \<or> a = Suc (Suc ?n) \<or> a = Suc (Suc (Suc ?n))"
    by linarith
  moreover have "map_of ls kMessagePumpTypeUI = Some ?n" "map_of ls kMessagePumpTypeIO = Some (Suc ?n)"
    "map_of ls kMessagePumpTypeWork = Some (Suc (Suc ?n))" "map_of ls kMessagePumpTypeFile = Some (Suc (Suc (Suc ?n)))"
    by (simp_all add: ls)
  ultimately show "\<exists>t. map_of ls t = Some a"
    by blast
qed

lemma loop_inv_init:
  assumes "loop_inv s"
  shows "loop_inv (InitMessageLoop os clk s)"
proof (cases "g_loop_manager s")
  case None
  obtain objs ls where new: "MessageLooperManager_new os clk (objects s) = (objs, ls)"
    by fastforce
  note m = MessageLooperManager_new_objects [OF new]
  have "stoped (pump (objects s ! a))" if "a < length (objects s)" for a
    using assms that None by (auto simp: loop_inv_def managed_def)
  then have "\<exists>t. map_of ls t = Some a" if "a < length objs" "\<not> stoped (pump (objs ! a))" for a
    using that m(1) m(2,5) [of a] by (cases "a < length (objects s)") auto
  then show ?thesis
    using None m(1,3,4) by (simp add: loop_inv_def managed_def InitMessageLoop_def new)
qed (use assms in \<open>simp add: InitMessageLoop_def\<close>)

lemma stoped_stop_object [simp]: "stoped (pump (stop_object now r p))"
  by (simp add: stop_object_def win_Stop_def Stop_def Let_def split: prod.split backend.split)

lemma length_stop_at [simp]: "length (stop_at now r a objs) = length objs"
  by (simp add: stop_at_def)

lemma delete_objects:
  "length (MessageLooperManager_delete now r ls objs) = length objs"
  "a < length objs \<Longrightarrow> stoped (pump (objs ! a)) \<or> a \<in> snd ` set ls \<Longrightarrow>
    stoped (pump (MessageLooperManager_delete now r ls objs ! a))"
proof (induction now r ls objs rule: MessageLooperManager_delete.induct)
  case (2 now r t b ls objs)
  let ?objs = "stop_at now r b (stop_at now r b objs)"
  have l: "length ?objs = length objs"
    by (simp add: stop_at_def)
  {
    case 1
    show ?case
      using 2(1) l by simp
  next
    case 2
    then have "stoped (pump (?objs ! a)) \<or> a \<in> snd ` set ls"
      by (auto simp: stop_at_def nth_list_update)
    then show ?case
      using 2 l "2.IH"(2) by simp
  }
qed simp_all

lemma loop_inv_unint:
  assumes "loop_inv s"
  shows "loop_inv (UnintMessageLoop now r s)"
proof (cases "g_loop_manager s")
  case (Some ls)
  have "stoped (pump (objects s ! a)) \<or> a \<in> snd ` set ls" if "a < length (objects s)" for a
    using assms that Some by (force simp: loop_inv_def managed_def dest: map_of_SomeD)
  then show ?thesis
    using Some by (simp add: UnintMessageLoop_def loop_inv_def delete_objects)
qed (use assms in \<open>simp add: UnintMessageLoop_def loop_inv_def managed_def\<close>)

text \<open>Steps of one pump that do not set it going again.\<close>

lemma loop_inv_update:
  assumes "loop_inv s" "a < length (objects s)" "stoped (pump (objects s ! a)) \<Longrightarrow> stoped (pump p)"
  shows "loop_inv (s\<lparr>objects := (objects s)[a := p]\<rparr>)"
  using assms by (auto simp: loop_inv_def managed_def nth_list_update)

lemma loop_inv_step: "loop_step s s' \<Longrightarrow> loop_inv s \<Longrightarrow> loop_inv s'"
proof (induction rule: loop_step.induct)
  case (post now r delay p s i s')
  then show ?case
    by (auto simp: ref_PostRunable_def MessagePump.PostRunable_def PostInsert_def Let_def split: pump_ref.splits if_splits
        intro!: loop_inv_update)
next
  case (cancel i p s c s')
  then show ?case
    by (auto simp: ref_Cancel_def MessagePump.Cancel_def Let_def split: pump_ref.splits if_splits option.splits
        intro!: loop_inv_update)
next
  case (work s now a)
  then show ?case
    by (auto simp: work_at_def DoWork_take_def Let_def split: prod.split intro!: loop_inv_update)
next
  case (finish s a)
  then show ?case
    by (auto simp: finish_at_def Run_finish_def intro!: loop_inv_update)
qed (simp_all add: loop_inv_init loop_inv_unint)

lemma loop_inv_run: "loop_step\<^sup>*\<^sup>* loops_start s \<Longrightarrow> loop_inv s"
  by (induction rule: rtranclp_induct) (auto intro: loop_inv_start loop_inv_step)



end
