(* ===== verification/PumpShutdown.thy ===== *)
theory PumpShutdown
  imports MessagePump "HOL-Library.Multiset"
begin

text \<open>
  The end of a pump.  \<open>MessagePumpDefatlt\<close> runs on the threads that call \<open>io_service_.run()\<close>, which returns when
  the object \<open>work_\<close> is gone and neither a handler nor a timer is left.  \<open>Stop\<close> posts a last task, the call of
  \<open>DoStop\<close>, so that the tasks that were accepted before it are not lost.  The pump of the Windows user
  interface overrides \<open>Stop\<close> and destroys its window instead.
\<close>

section \<open>The threads of the default pump\<close>

datatype 'r io_task = Task 'r | Stop_task

text \<open>The system of a pump, its \<open>io_service\<close> and its threads, with the tasks accepted and cancelled so far.\<close>

record 'r io_system =
  io_clock :: u64
  io_pump :: "'r io_task MessagePumpImpl"
  io_backend :: default_backend
  io_work :: bool
  io_busy :: "'r io_task list list"
  io_executed :: "'r io_task list"
  io_accepted :: "'r io_task list"
  io_cancelled :: "'r io_task list"

definition io_start :: "'r io_system" where
  "io_start = \<lparr>io_clock = 0, io_pump = MessagePumpImpl_new, io_backend = \<lparr>timer = None, posted = 0\<rparr>, io_work = True, io_busy = [],
    io_executed = [], io_accepted = [], io_cancelled = []\<rparr>"

text \<open>\<open>DoStop\<close> cancels the timer and drops \<open>work_\<close>.\<close>

definition io_DoStop :: "'r io_system \<Rightarrow> 'r io_system" where
  "io_DoStop s = s\<lparr>io_backend := default_DoStop (io_backend s), io_work := False\<rparr>"

text \<open>A thread runs the next task of a call of \<open>DoWork\<close>.\<close>

definition io_run_task :: "'r io_task \<Rightarrow> 'r io_system \<Rightarrow> 'r io_system" where
  "io_run_task r s = (let s = s\<lparr>io_executed := io_executed s @ [r]\<rparr> in if r = Stop_task then io_DoStop s else s)"

text \<open>When \<open>io_service_.run()\<close> returns.\<close>

definition io_finished :: "'r io_system \<Rightarrow> bool" where
  "io_finished s \<longleftrightarrow> \<not> io_work s \<and> io_busy s = [] \<and> timer (io_backend s) = None \<and> posted (io_backend s) = 0"

text \<open>The steps; posting and waking up are one step, as in the runs of theory \<open>MessagePump\<close>.\<close>

inductive io_step :: "'r io_system \<Rightarrow> 'r io_system \<Rightarrow> bool" where
  io_tick: "io_clock s \<le> t \<Longrightarrow> unat t < 2 ^ 62 \<Longrightarrow> io_step s (s\<lparr>io_clock := t\<rparr>)"
| io_post: "unat delay < 2 ^ 40 \<Longrightarrow> last_id (io_pump s) \<noteq> - 1 \<Longrightarrow>
    PostRunable default_Wakeup (io_clock s) (Task r) delay (io_pump s, io_backend s) = (i, p, b) \<Longrightarrow>
    io_step s (s\<lparr>io_pump := p, io_backend := b, io_accepted := io_accepted s @ (if stoped (io_pump s) then [] else [Task r])\<rparr>)"
| io_stop: "last_id (io_pump s) \<noteq> - 1 \<Longrightarrow> Stop default_Wakeup (io_clock s) Stop_task (io_pump s, io_backend s) = (p, b) \<Longrightarrow>
    io_step s (s\<lparr>io_pump := p, io_backend := b, io_accepted := io_accepted s @ (if stoped (io_pump s) then [] else [Stop_task])\<rparr>)"
| io_cancel: "Cancel i (io_pump s) = (c, p) \<Longrightarrow>
    io_step s (s\<lparr>io_pump := p, io_cancelled := io_cancelled s @ map runnable (filter (\<lambda>x. rid x = i) (runable_set (io_pump s)))\<rparr>)"
| io_work: "default_fires (io_clock s) (io_backend s) b \<Longrightarrow> DoWork_take (io_clock s) (io_pump s) = (rs, p) \<Longrightarrow>
    io_step s (s\<lparr>io_pump := p, io_backend := b, io_busy := rs # io_busy s\<rparr>)"
| io_task: "io_busy s = bs @ (r # rs) # bs' \<Longrightarrow> io_step s (io_run_task r (s\<lparr>io_busy := bs @ rs # bs'\<rparr>))"
| io_done: "io_busy s = bs @ [] # bs' \<Longrightarrow>
    io_step s (s\<lparr>io_busy := bs @ bs', io_backend := wake_next default_Wakeup (io_clock s) (io_pump s) (io_backend s)\<rparr>)"

section \<open>No task is lost\<close>

abbreviation waiting :: "'r MessagePumpImpl \<Rightarrow> 'r multiset" where
  "waiting p \<equiv> mset (map runnable (runable_set p))"

lemma waiting_insert:
  "\<forall>y\<in>set xs. rid y \<noteq> rid x \<Longrightarrow> mset (map runnable (set_insert x xs)) = add_mset (runnable x) (mset (map runnable xs))"
proof (induction xs)
  case (Cons y ys)
  then have "x < y \<or> y < x"
    using not_less_both [of x y] by (metis list.set_intros(1))
  then show ?case
    using Cons by auto
qed simp

lemma waiting_take: "take_expired now xs = (rs, ys) \<Longrightarrow> mset (map runnable xs) = mset rs + mset (map runnable ys)"
  by (induction xs arbitrary: rs) (auto split: if_splits prod.splits)

lemma waiting_filter:
  "mset (map runnable (filter P xs)) + mset (map runnable (filter (\<lambda>x. \<not> P x) xs)) = mset (map runnable xs)"
  by (induction xs) auto

lemma waiting_post:
  assumes "set_inv now p" "last_id p \<noteq> - 1" "PostRunable Wakeup now r d (p, b) = (i, q, b')"
  shows "waiting q = (if stoped p then waiting p else add_mset r (waiting p))" "stoped q = stoped p"
proof -
  have "rid x < last_id p + 1" if "x \<in> set (runable_set p)" for x
    using assms(1,2) that by (intro word_less_Suc) (auto simp: set_inv_def)
  then have "\<forall>y\<in>set (runable_set p). rid y \<noteq> rid (RunnableInfo (now + d) (last_id p + 1) r)"
    by force
  from waiting_insert [OF this] show "waiting q = (if stoped p then waiting p else add_mset r (waiting p))" "stoped q = stoped p"
    using assms(3) by (cases "stoped p"; auto simp: PostRunable_def PostInsert_def Let_def)+
qed

text \<open>The invariant: the set is in order, the back end is due in time when no work is in progress, every
  accepted task is in exactly one place, and \<open>work_\<close> goes with the last task, which only a stopped pump has.\<close>

definition io_inv :: "'r io_system \<Rightarrow> bool" where
  "io_inv s \<longleftrightarrow> set_inv (io_clock s) (io_pump s) \<and> unat (io_clock s) < 2 ^ 62 \<and>
    (io_busy s = [] \<longrightarrow> timely default_armed (io_clock s) (io_pump s) (io_backend s)) \<and>
    mset (io_accepted s) = mset (io_executed s) + mset (concat (io_busy s)) + waiting (io_pump s) + mset (io_cancelled s) \<and>
    (Stop_task \<in> set (io_accepted s) \<longrightarrow> stoped (io_pump s)) \<and> (\<not> io_work s \<longrightarrow> Stop_task \<in> set (io_executed s))"

lemma io_inv_start: "io_inv io_start"
  by (simp add: io_inv_def io_start_def set_inv_new) (simp add: timely_def MessagePumpImpl_new_def)

lemma timely_stoped [simp]: "timely armed now (p\<lparr>stoped := x\<rparr>) b = timely armed now p b"
  by (simp add: timely_def)

lemma set_inv_stoped [simp]: "set_inv now (p\<lparr>stoped := x\<rparr>) = set_inv now p"
  by (simp add: set_inv_def)

lemma io_inv_step:
  assumes "io_step s s'" "io_inv s"
  shows "io_inv s'"
  using assms
proof (induction rule: io_step.induct)
  case (io_tick s t)
  then show ?case
    by (auto simp: io_inv_def intro: set_inv_tick default_pump.timely_later)
next
  case (io_post delay s r i p b)
  then have i: "set_inv (io_clock s) (io_pump s)" "unat (io_clock s) < 2 ^ 62"
    by (simp_all add: io_inv_def)
  show ?case
    using io_post.prems waiting_post [OF i(1) io_post.hyps(2,3)] set_inv_post [OF i(1) io_post.hyps(2) i(2) io_post.hyps(1,3)]
      default_pump.timely_post [OF _ i io_post.hyps(1,3)]
    by (auto simp: io_inv_def)
next
  case (io_stop s p b)
  show ?case
  proof (cases "stoped (io_pump s)")
    case False
    obtain i q b' where q: "PostRunable default_Wakeup (io_clock s) Stop_task 0 (io_pump s, io_backend s) = (i, q, b')"
      by (metis prod_cases3)
    then have p: "p = q\<lparr>stoped := True\<rparr>" "b = b'"
      using io_stop.hyps(2) False by (simp_all add: Stop_def)
    have i: "set_inv (io_clock s) (io_pump s)" "unat (io_clock s) < 2 ^ 62"
      using io_stop.prems by (simp_all add: io_inv_def)
    show ?thesis
      using io_stop.prems False waiting_post [OF i(1) io_stop.hyps(1) q] set_inv_post [OF i(1) io_stop.hyps(1) i(2) _ q]
        default_pump.timely_post [OF _ i _ q]
      by (auto simp: io_inv_def p)
  qed (use io_stop in \<open>auto simp: Stop_def io_inv_def\<close>)
next
  case (io_cancel i s c p)
  then have i: "set_inv (io_clock s) (io_pump s)"
    by (simp add: io_inv_def)
  have p: "p = (io_pump s)\<lparr>runable_set := filter (\<lambda>x. rid x \<noteq> i) (runable_set (io_pump s))\<rparr>"
    using set_inv_cancel [OF i io_cancel.hyps] by blast
  have "timely default_armed (io_clock s) p (io_backend s)" if "timely default_armed (io_clock s) (io_pump s) (io_backend s)"
    using that i by (rule default_pump.timely_later [OF _ order_refl]) (auto simp: p)
  then show ?case
    using io_cancel.prems set_inv_filter [OF i] waiting_filter [of "\<lambda>x. rid x = i" "runable_set (io_pump s)"]
    by (auto simp: io_inv_def p ac_simps)
next
  case (io_work s b rs p)
  then have i: "set_inv (io_clock s) (io_pump s)"
    by (simp add: io_inv_def)
  have "waiting (io_pump s) = mset rs + waiting p" "stoped p = stoped (io_pump s)"
    using io_work.hyps(2) waiting_take [of "io_clock s" "runable_set (io_pump s)" rs]
    by (auto simp: DoWork_take_def split: prod.splits)
  then show ?case
    using io_work.prems set_inv_take [OF i io_work.hyps(2)] by (simp add: io_inv_def ac_simps)
next
  case (io_task s bs r rs bs')
  then show ?case
    by (auto simp: io_inv_def io_run_task_def io_DoStop_def Let_def)
next
  case (io_done s bs bs')
  then show ?case
    by (simp add: io_inv_def default_pump.timely_wake_next)
qed

lemma io_inv_run: "io_step\<^sup>*\<^sup>* io_start s \<Longrightarrow> io_inv s"
  by (induction rule: rtranclp_induct) (auto intro: io_inv_start io_inv_step)

lemma accepted_set:
  "mset (io_accepted s) = mset (io_executed s) + mset (io_cancelled s) \<Longrightarrow>
    set (io_accepted s) = set (io_executed s) \<union> set (io_cancelled s)"
  by (metis set_mset_mset set_mset_union)


text \<open>A run: a task is posted with a delay, the pump is stopped, the stop task runs, then the timer expires.\<close>

definition io_example :: "nat io_system" where
  "io_example = \<lparr>io_clock = 5, io_pump = \<lparr>runable_set = [], last_id = 2, stoped = True\<rparr>, io_backend = \<lparr>timer = None, posted = 0\<rparr>,
    io_work = False, io_busy = [], io_executed = [Stop_task, Task 7], io_accepted = [Task 7, Stop_task], io_cancelled = []\<rparr>"

definition io_stopping :: "nat io_system" where
  "io_stopping = \<lparr>io_clock = 0, io_pump = \<lparr>runable_set = [RunnableInfo 0 2 Stop_task, RunnableInfo 5 1 (Task 7)], last_id = 2, stoped = True\<rparr>,
    io_backend = \<lparr>timer = Some 5, posted = 1\<rparr>, io_work = True, io_busy = [], io_executed = [], io_accepted = [Task 7, Stop_task], io_cancelled = []\<rparr>"

lemmas io_run_defs = io_start_def MessagePumpImpl_new_def PostRunable_def PostInsert_def default_Wakeup_def Stop_def default_fires_def
  DoWork_take_def io_run_task_def io_DoStop_def default_DoStop_def wake_next_def info_less io_example_def io_stopping_def

lemma io_stopping_run: "io_step\<^sup>*\<^sup>* io_start io_stopping"
proof -
  let ?a = "\<lparr>io_clock = 0, io_pump = \<lparr>runable_set = [RunnableInfo 5 1 (Task 7)], last_id = 1, stoped = False\<rparr>,
      io_backend = \<lparr>timer = Some 5, posted = 0\<rparr>, io_work = True, io_busy = [], io_executed = [], io_accepted = [Task 7], io_cancelled = []\<rparr> :: nat io_system"
  have "io_step io_start ?a"
    using io_step.io_post [of 5 io_start 7, OF _ _ surjective_pairing [THEN trans, OF arg_cong2 [where f = Pair, OF refl surjective_pairing]]]
    by (simp add: io_run_defs)
  moreover have "io_step ?a io_stopping"
    using io_step.io_stop [of ?a, OF _ surjective_pairing] by (simp add: io_run_defs)
  ultimately show ?thesis
    by (meson converse_rtranclp_into_rtranclp rtranclp.rtrancl_refl)
qed

lemma io_example_run: "io_step\<^sup>*\<^sup>* io_start io_example"
proof -
  let ?c = "io_stopping\<lparr>io_pump := \<lparr>runable_set = [RunnableInfo 5 1 (Task 7)], last_id = 2, stoped = True\<rparr>,
      io_backend := \<lparr>timer = Some 5, posted = 0\<rparr>, io_busy := [[Stop_task]]\<rparr>"
  let ?d = "?c\<lparr>io_busy := [[]], io_executed := [Stop_task], io_backend := \<lparr>timer = None, posted = 0\<rparr>, io_work := False\<rparr>"
  let ?e = "?d\<lparr>io_busy := [], io_backend := \<lparr>timer = Some 5, posted = 0\<rparr>\<rparr>"
  let ?f = "?e\<lparr>io_clock := 5\<rparr>"
  let ?g = "?f\<lparr>io_pump := \<lparr>runable_set = [], last_id = 2, stoped = True\<rparr>, io_backend := \<lparr>timer = None, posted = 0\<rparr>, io_busy := [[Task 7]]\<rparr>"
  let ?h = "?g\<lparr>io_busy := [[]], io_executed := [Stop_task, Task 7]\<rparr>"
  have "io_step io_stopping ?c"
    using io_step.io_work [of io_stopping "\<lparr>timer = Some 5, posted = 0\<rparr>", OF _ surjective_pairing] by (simp add: io_run_defs)
  moreover have "io_step ?c ?d"
    using io_step.io_task [of ?c "[]" Stop_task "[]" "[]"] by (simp add: io_run_defs)
  moreover have "io_step ?d ?e"
    using io_step.io_done [of ?d "[]" "[]"] by (simp add: io_run_defs)
  moreover have "io_step ?e ?f"
    using io_step.io_tick [of ?e 5] by (simp add: io_stopping_def)
  moreover have "io_step ?f ?g"
    using io_step.io_work [of ?f "\<lparr>timer = None, posted = 0\<rparr>", OF _ surjective_pairing] by (simp add: io_run_defs)
  moreover have "io_step ?g ?h"
    using io_step.io_task [of ?g "[]" "Task 7" "[]" "[]"] by (simp add: io_run_defs)
  moreover have "io_step ?h io_example"
    using io_step.io_done [of ?h "[]" "[]"] by (simp add: io_run_defs)
  ultimately show ?thesis
    using io_stopping_run by (meson rtranclp.rtrancl_into_rtrancl)
qed


section \<open>The loop can end\<close>

text \<open>More of the invariant: a timer is set for a task of the pump, the stop task drops \<open>work_\<close>, and a stopped pump has
  accepted it.\<close>

definition stop_inv :: "'r io_system \<Rightarrow> bool" where
  "stop_inv s \<longleftrightarrow> (\<forall>e. timer (io_backend s) = Some e \<longrightarrow> unat e < unat (io_clock s) + 2 ^ 40) \<and>
    (Stop_task \<in> set (io_executed s) \<longrightarrow> \<not> io_work s) \<and> (stoped (io_pump s) \<longrightarrow> Stop_task \<in> set (io_accepted s))"

lemma timer_Wakeup:
  "timer (default_Wakeup now e b) = Some t \<Longrightarrow> t = e \<or> timer b = Some t"
  by (auto simp: default_Wakeup_def split: if_splits)

lemma timer_post:
  assumes "PostRunable default_Wakeup now r d (p, b) = (i, q, b')" "timer b' = Some t"
  shows "t = now + d \<or> timer b = Some t"
  using assms timer_Wakeup [of now "now + d" b t] by (auto simp: PostRunable_def Let_def split: if_splits prod.splits)

lemma stop_inv_step:
  assumes "io_step s s'" "io_inv s" "stop_inv s"
  shows "stop_inv s'"
  using assms
proof (induction rule: io_step.induct)
  case (io_tick s t)
  then show ?case
    by (fastforce simp: stop_inv_def word_le_nat_alt)
next
  case (io_post delay s r i p b)
  then have "unat (io_clock s + delay) < unat (io_clock s) + 2 ^ 40" "set_inv (io_clock s) (io_pump s)"
    by (simp_all add: io_inv_def unat_add_delay)
  then show ?case
    using io_post.prems(2) timer_post [OF io_post.hyps(3)] waiting_post(2) [OF _ io_post.hyps(2,3)] by (auto simp: stop_inv_def)
next
  case (io_stop s p b)
  show ?case
  proof (cases "stoped (io_pump s)")
    case False
    obtain i q b' where q: "PostRunable default_Wakeup (io_clock s) Stop_task 0 (io_pump s, io_backend s) = (i, q, b')"
      by (metis prod_cases3)
    then show ?thesis
      using io_stop False timer_post [OF q] by (auto simp: stop_inv_def Stop_def)
  qed (use io_stop in \<open>auto simp: Stop_def stop_inv_def\<close>)
next
  case (io_cancel i s c p)
  then show ?case
    using set_inv_cancel [of "io_clock s" "io_pump s" i c p] by (auto simp: stop_inv_def io_inv_def)
next
  case (io_work s b rs p)
  then show ?case
    by (auto simp: stop_inv_def DoWork_take_def default_fires_def split: prod.splits option.splits)
next
  case (io_task s bs r rs bs')
  then show ?case
    by (auto simp: stop_inv_def io_run_task_def io_DoStop_def default_DoStop_def Let_def)
next
  case (io_done s bs bs')
  then have "unat (expired_time x) < unat (io_clock s) + 2 ^ 40" if "x \<in> set (runable_set (io_pump s))" for x
    using that by (simp add: io_inv_def set_inv_def)
  then show ?case
    using io_done.prems(2) timer_Wakeup [of "io_clock s" "expired_time (hd (runable_set (io_pump s)))" "io_backend s"]
    by (fastforce simp: stop_inv_def wake_next_def split: if_splits)
qed

lemma stop_inv_run: "io_step\<^sup>*\<^sup>* s s' \<Longrightarrow> io_inv s \<Longrightarrow> stop_inv s \<Longrightarrow> io_inv s' \<and> stop_inv s'"
  by (induction rule: rtranclp_induct) (auto intro: io_inv_step stop_inv_step)

text \<open>The threads can run what they have taken.\<close>

lemma io_quiesce:
  "\<exists>s'. io_step\<^sup>*\<^sup>* s s' \<and> io_busy s' = [] \<and> io_pump s' = io_pump s \<and> io_clock s' = io_clock s \<and> io_cancelled s' = io_cancelled s"
proof (induction "sum_list (map (\<lambda>rs. Suc (length rs)) (io_busy s))" arbitrary: s rule: less_induct)
  case less
  have go: ?case if "io_step s t" "sum_list (map (\<lambda>rs. Suc (length rs)) (io_busy t)) < sum_list (map (\<lambda>rs. Suc (length rs)) (io_busy s))"
    "io_pump t = io_pump s" "io_clock t = io_clock s" "io_cancelled t = io_cancelled s" for t
    using less [OF that(2)] that(1,3-5) by (metis converse_rtranclp_into_rtranclp)
  show ?case
  proof (cases "io_busy s")
    case (Cons rs bs)
    show ?thesis
    proof (cases rs)
      case Nil
      show ?thesis
        by (rule go [OF io_step.io_done [of s "[]" bs]]) (use Cons Nil in simp_all)
    next
      case (Cons r rs')
      show ?thesis
        by (rule go [OF io_step.io_task [of s "[]" r rs' bs]])
          (use \<open>io_busy s = rs # bs\<close> Cons in \<open>simp_all add: io_run_task_def io_DoStop_def Let_def\<close>)
    qed
  qed auto
qed

text \<open>Handlers that are left find nothing to do.\<close>

lemma io_spurious:
  assumes "runable_set (io_pump s) = []" "io_busy s = []" "default_fires (io_clock s) (io_backend s) b"
  shows "io_step\<^sup>*\<^sup>* s (s\<lparr>io_backend := b\<rparr>)"
proof -
  have "DoWork_take (io_clock s) (io_pump s) = ([], io_pump s)"
    using assms(1) by (simp add: DoWork_take_def)
  from io_step.io_work [OF assms(3) this] have "io_step s (s\<lparr>io_backend := b, io_busy := [[]]\<rparr>)"
    by (simp add: assms(2))
  moreover have "s\<lparr>io_busy := [], io_backend := b\<rparr> = s\<lparr>io_backend := b\<rparr>"
    using assms(2) by (cases s) simp
  then have "io_step (s\<lparr>io_backend := b, io_busy := [[]]\<rparr>) (s\<lparr>io_backend := b\<rparr>)"
    using io_step.io_done [of "s\<lparr>io_backend := b, io_busy := [[]]\<rparr>" "[]" "[]"] assms(1) by (simp add: wake_next_def)
  ultimately show ?thesis
    by (meson r_into_rtranclp rtranclp_trans)
qed

lemma io_posted:
  assumes "runable_set (io_pump s) = []" "io_busy s = []"
  shows "io_step\<^sup>*\<^sup>* s (s\<lparr>io_backend := (io_backend s)\<lparr>posted := 0\<rparr>\<rparr>)"
  using assms
proof (induction "posted (io_backend s)" arbitrary: s)
  case 0
  then have "s\<lparr>io_backend := (io_backend s)\<lparr>posted := 0\<rparr>\<rparr> = s"
    by (cases s; cases "io_backend s") simp
  then show ?case
    by simp
next
  case (Suc n)
  let ?b = "(io_backend s)\<lparr>posted := n\<rparr>"
  have "default_fires (io_clock s) (io_backend s) ?b"
    using Suc.hyps(2) [symmetric] by (simp add: default_fires_def)
  from io_spurious [OF Suc.prems this] Suc.hyps(1) [of "s\<lparr>io_backend := ?b\<rparr>"] Suc.prems show ?case
    by simp
qed

lemma io_empty:
  assumes "runable_set (io_pump s) = []" "io_busy s = []" "\<forall>e. timer (io_backend s) = Some e \<longrightarrow> e \<le> io_clock s"
  shows "io_step\<^sup>*\<^sup>* s (s\<lparr>io_backend := \<lparr>timer = None, posted = 0\<rparr>\<rparr>)"
proof (cases "timer (io_backend s)")
  case None
  then have "(io_backend s)\<lparr>posted := 0\<rparr> = \<lparr>timer = None, posted = 0\<rparr>"
    by simp
  then show ?thesis
    using io_posted [OF assms(1,2)] by simp
next
  case (Some e)
  let ?s = "s\<lparr>io_backend := (io_backend s)\<lparr>posted := 0\<rparr>\<rparr>"
  have "default_fires (io_clock ?s) (io_backend ?s) \<lparr>timer = None, posted = 0\<rparr>"
    using Some assms(3) by (simp add: default_fires_def)
  from io_spurious [OF _ _ this] io_posted [OF assms(1,2)] show ?thesis
    using assms(1,2) by simp
qed

text \<open>All tasks that wait can be taken when the clock has passed their times.\<close>

lemma io_take_all:
  assumes "io_inv s" "io_busy s = []" "\<forall>x\<in>set (runable_set (io_pump s)). expired_time x \<le> io_clock s"
  shows "\<exists>s'. io_step\<^sup>*\<^sup>* s s' \<and> io_busy s' = [] \<and> runable_set (io_pump s') = [] \<and> stoped (io_pump s') = stoped (io_pump s) \<and>
    io_clock s' = io_clock s \<and> io_cancelled s' = io_cancelled s"
proof (cases "runable_set (io_pump s) = []")
  case False
  then have "max (io_clock s) (expired_time (hd (runable_set (io_pump s)))) = io_clock s"
    using assms(3) by (simp add: max_def antisym)
  then obtain b where b: "default_fires (io_clock s) (io_backend s) b"
    using assms(1,2) False default_pump.armed_fires [of "io_backend s" "io_clock s"] by (auto simp: io_inv_def timely_def)
  obtain rs where rs: "DoWork_take (io_clock s) (io_pump s) = (rs, (io_pump s)\<lparr>runable_set := []\<rparr>)"
    using assms(1,3) by (auto simp: DoWork_take_def io_inv_def set_inv_def take_expired_filter filter_empty_conv)
  let ?t = "s\<lparr>io_pump := (io_pump s)\<lparr>runable_set := []\<rparr>, io_backend := b, io_busy := rs # io_busy s\<rparr>"
  show ?thesis
    using io_step.io_work [OF b rs] io_quiesce [of ?t] by (auto intro: converse_rtranclp_into_rtranclp)
qed (use assms(2) in auto)

lemma io_wait:
  assumes "unat (io_clock s) < 2 ^ 62 - 2 ^ 40"
  obtains t where "unat t = unat (io_clock s) + 2 ^ 40" "io_step s (s\<lparr>io_clock := t\<rparr>)"
proof -
  have t: "unat (io_clock s + 2 ^ 40) = unat (io_clock s) + 2 ^ 40"
    using assms by (simp add: unat_add_lem [THEN iffD1])
  then have "io_step s (s\<lparr>io_clock := io_clock s + 2 ^ 40\<rparr>)"
    using assms by (intro io_step.io_tick) (simp_all add: word_le_nat_alt)
  with t that show ?thesis
    by blast
qed



section \<open>The pump of the Windows user interface\<close>

text \<open>The window procedures are the firing of the back end followed by \<open>DoOneWork\<close>.\<close>

lemma WndTimerProcThunk_fires:
  "win_timer b = Some e \<Longrightarrow> e \<le> now \<Longrightarrow>
    \<exists>b'. win_fires now b b' \<and> WndTimerProcThunk run now (p, b) = DoOneWork win_Wakeup run now (p, b')"
  by (intro exI [of _ "b\<lparr>win_timer := None\<rparr>"]) (simp add: win_fires_def WndTimerProcThunk_def win_Work_def)

lemma DelayedLooperCallback_fires:
  assumes "delayed_fd b = Some d" "d \<le> monotonic b now" "and events ALOOPER_EVENT_HANGUP = 0"
  shows "\<exists>b'. android_fires now b b' \<and> DelayedLooperCallback run now now' events (p, b) = (1, DoWork android_Wakeup run now now' (p, b'))"
  using assms by (intro exI [of _ "b\<lparr>delayed_fd := None\<rparr>"]) (simp add: android_fires_def DelayedLooperCallback_def WorkWrapper_def)

text \<open>After \<open>Stop\<close> of this pump the back end never fires again, so that the tasks which were accepted and had not run are
  lost, without a call of \<open>Cancel\<close>.\<close>

lemma win_stop_drops:
  assumes "win_Stop (p, b) = (q, c)"
  shows "\<not> win_fires now c c'" "runable_set q = runable_set p" "PostRunable win_Wakeup now r d (q, c) = (0, q, c)"
  using assms by (auto simp: win_Stop_def win_DoStop_def win_fires_def PostRunable_def)

end
