(* ===== verification/Mvvm.thy ===== *)
theory Mvvm
  imports StdMap Prelude
begin

text \<open>
  The framework of \<open>src/mvvm\<close>: models with their subscriptions (\<open>model.cc\<close>), view models that subscribe
  to events of models (\<open>viewmodel.cc\<close>), and views that own a view model (\<open>baseview.cc\<close>).

  A delegate of a subscription is \<open>std::bind(func, this, ..)\<close>: the address of a view model and one of its
  functions.  A call of a delegate whose view model is destroyed is the fault \<open>Dangling\<close>, a call through
  an empty pointer the fault \<open>Null_pointer\<close>.  The messages of the protocol buffers are the datatype \<open>message\<close>.
\<close>

section \<open>Data\<close>

datatype message = ParamInt32 int | ParamInt64 int | ParamBool bool | ParamString string | Message string

text \<open>\<open>SuscribeEventDelegateInfo\<close>: the delegate and the number of the subscription.\<close>

record 'f SuscribeEventDelegateInfo =
  sub_vm :: nat
  sub_func :: 'f
  sub_id :: int

type_synonym 'f model = "(int \<times> 'f SuscribeEventDelegateInfo list) list"

record 'f ViewModel =
  viewmode_type :: int
  subscribe_ids :: "(int \<times> int) list"
  property_changed_delegate :: bool
  event_fired_delegate :: bool
  vm_context :: "nat option"
  alive :: bool

text \<open>What the views and the delegates of the view models are told.\<close>

datatype 'f mvvm_call = Delegate_call nat 'f int message | OnPropertyChanged nat int message | OnEventFired nat int message

text \<open>The static members of \<open>Model\<close> and \<open>ViewModel\<close>, the store of the view models, the view models of the views,
  and the log of the calls.  A builder of a model makes a new one; that of a view model is its class.\<close>

record 'f mvvm =
  s_suscribe_id :: int
  model_builder :: "(int \<times> unit) list"
  models :: "(int \<times> 'f model) list"
  vm_builder :: "(int \<times> int) list"
  view_models :: "'f ViewModel list"
  views :: "(nat \<times> nat) list"
  mvvm_calls :: "'f mvvm_call list"

datatype mvvm_fault = Dangling | Null_pointer

definition mvvm_start :: "'f mvvm" where
  "mvvm_start = \<lparr>s_suscribe_id = 0, model_builder = [], models = [], vm_builder = [], view_models = [], views = [], mvvm_calls = []\<rparr>"

section \<open>Models\<close>

definition RegisterModel :: "int \<Rightarrow> 'f mvvm \<Rightarrow> 'f mvvm" where
  "RegisterModel t s = s\<lparr>model_builder := map_put t () (model_builder s)\<rparr>"

text \<open>The model of a type, made if necessary: whether there is one, and the state.\<close>

definition ModelOf :: "int \<Rightarrow> 'f mvvm \<Rightarrow> bool \<times> 'f mvvm" where
  "ModelOf t s =
    (case map_of (models s) t of
       Some _ \<Rightarrow> (True, s)
     | None \<Rightarrow>
         (case map_of (model_builder s) t of
            None \<Rightarrow> (False, s)
          | Some _ \<Rightarrow> (True, s\<lparr>models := map_put t [] (models s)\<rparr>)))"

definition get_model :: "int \<Rightarrow> 'f mvvm \<Rightarrow> 'f model" where
  "get_model t s = (case map_of (models s) t of Some m \<Rightarrow> m | None \<Rightarrow> [])"

definition set_model :: "int \<Rightarrow> 'f model \<Rightarrow> 'f mvvm \<Rightarrow> 'f mvvm" where
  "set_model t m s = s\<lparr>models := map_put t m (models s)\<rparr>"

text \<open>\<open>SubscribeEvent\<close> of the model of type \<open>t\<close>.\<close>

definition SubscribeEvent :: "int \<Rightarrow> int \<Rightarrow> nat \<Rightarrow> 'f \<Rightarrow> 'f mvvm \<Rightarrow> int \<times> 'f mvvm" where
  "SubscribeEvent t event vm f s =
    (let m = get_model t s;
         m = (if map_of m event = None then map_put event [] m else m);
         i = s_suscribe_id s + 1;
         info = \<lparr>sub_vm = vm, sub_func = f, sub_id = i\<rparr>;
         m = map_put event ((case map_of m event of Some l \<Rightarrow> l | None \<Rightarrow> []) @ [info]) m
     in (i, set_model t m (s\<lparr>s_suscribe_id := i\<rparr>)))"

fun erase_delegate :: "int \<Rightarrow> 'f SuscribeEventDelegateInfo list \<Rightarrow> 'f SuscribeEventDelegateInfo list option" where
  "erase_delegate i [] = None"
| "erase_delegate i (d # ds) = (if i = sub_id d then Some ds else map_option ((#) d) (erase_delegate i ds))"

text \<open>The loop over all events, until the number is found.\<close>

fun erase_subscription :: "int \<Rightarrow> 'f model \<Rightarrow> 'f model" where
  "erase_subscription i [] = []"
| "erase_subscription i ((event, ds) # m) =
    (case erase_delegate i ds of Some ds' \<Rightarrow> (event, ds') # m | None \<Rightarrow> (event, ds) # erase_subscription i m)"

definition UnSubscribeEvent :: "int \<Rightarrow> int \<Rightarrow> 'f mvvm \<Rightarrow> 'f mvvm" where
  "UnSubscribeEvent t i s = set_model t (erase_subscription i (get_model t s)) s"

text \<open>A call of a delegate; it is bound to the pointer of its view model.\<close>

definition call_vm :: "int \<Rightarrow> message \<Rightarrow> 'f SuscribeEventDelegateInfo \<Rightarrow> 'f mvvm \<Rightarrow> mvvm_fault + 'f mvvm" where
  "call_vm event v d s =
    (if sub_vm d < length (view_models s) \<and> alive (view_models s ! sub_vm d)
     then Inr (s\<lparr>mvvm_calls := mvvm_calls s @ [Delegate_call (sub_vm d) (sub_func d) event v]\<rparr>)
     else Inl Dangling)"

fun call_delegates :: "int \<Rightarrow> message \<Rightarrow> 'f SuscribeEventDelegateInfo list \<Rightarrow> 'f mvvm \<Rightarrow> mvvm_fault + 'f mvvm" where
  "call_delegates event v [] s = Inr s"
| "call_delegates event v (d # ds) s =
    (case call_vm event v d s of Inl f \<Rightarrow> Inl f | Inr s \<Rightarrow> call_delegates event v ds s)"

definition Model_FireEvent :: "int \<Rightarrow> int \<Rightarrow> message \<Rightarrow> 'f mvvm \<Rightarrow> mvvm_fault + 'f mvvm" where
  "Model_FireEvent t event v s =
    (case map_of (get_model t s) event of None \<Rightarrow> Inr s | Some ds \<Rightarrow> call_delegates event v ds s)"

definition Model_FireEvent_string :: "int \<Rightarrow> int \<Rightarrow> string \<Rightarrow> 'f mvvm \<Rightarrow> mvvm_fault + 'f mvvm" where
  "Model_FireEvent_string t event v s = Model_FireEvent t event (ParamString v) s"

section \<open>View models\<close>

definition RegisterViewModel :: "int \<Rightarrow> int \<Rightarrow> 'f mvvm \<Rightarrow> 'f mvvm" where
  "RegisterViewModel t cls s = s\<lparr>vm_builder := map_put t cls (vm_builder s)\<rparr>"

definition upd_vm :: "nat \<Rightarrow> ('f ViewModel \<Rightarrow> 'f ViewModel) \<Rightarrow> 'f mvvm \<Rightarrow> 'f mvvm" where
  "upd_vm a f s = (if a < length (view_models s) then s\<lparr>view_models := (view_models s)[a := f (view_models s ! a)]\<rparr> else s)"

text \<open>\<open>Create\<close>: the address of a new view model of the registered class.\<close>

definition Create :: "int \<Rightarrow> 'f mvvm \<Rightarrow> nat option \<times> 'f mvvm" where
  "Create t s =
    (case map_of (vm_builder s) t of
       None \<Rightarrow> (None, s)
     | Some cls \<Rightarrow>
         (Some (length (view_models s)),
          s\<lparr>view_models := view_models s @
            [\<lparr>viewmode_type = cls, subscribe_ids = [], property_changed_delegate = False, event_fired_delegate = False,
              vm_context = None, alive = True\<rparr>]\<rparr>))"

text \<open>The loop of \<open>UnSubscrieAllEvent\<close> over the numbers and the models.\<close>

fun unsubscribe_loop :: "(int \<times> int) list \<Rightarrow> 'f mvvm \<Rightarrow> 'f mvvm" where
  "unsubscribe_loop [] s = s"
| "unsubscribe_loop ((i, t) # ids) s =
    (let (found, s) = ModelOf t s in unsubscribe_loop ids (if found then UnSubscribeEvent t i s else s))"

definition UnSubscrieAllEvent :: "nat \<Rightarrow> 'f mvvm \<Rightarrow> 'f mvvm" where
  "UnSubscrieAllEvent a s =
    upd_vm a (\<lambda>v. v\<lparr>subscribe_ids := []\<rparr>) (unsubscribe_loop (subscribe_ids (view_models s ! a)) s)"

definition ViewModel_delete :: "nat \<Rightarrow> 'f mvvm \<Rightarrow> 'f mvvm" where
  "ViewModel_delete a s = upd_vm a (\<lambda>v. v\<lparr>alive := False\<rparr>) (UnSubscrieAllEvent a s)"

text \<open>The macros \<open>BEGIN_SUBSCRIE_EVENT\<close>, \<open>SUBSCRIE_EVENT\<close> and \<open>END_SUBSCRIE_EVENT\<close> of \<open>mvvm_base.h\<close>, for a
  list of events and functions.\<close>

definition SUBSCRIE_EVENT :: "nat \<Rightarrow> int \<Rightarrow> int \<times> 'f \<Rightarrow> 'f mvvm \<Rightarrow> 'f mvvm" where
  "SUBSCRIE_EVENT a t = (\<lambda>(event, f) s.
    let (i, s) = SubscribeEvent t event a f s in upd_vm a (\<lambda>v. v\<lparr>subscribe_ids := map_put i t (subscribe_ids v)\<rparr>) s)"

definition subscribe_block :: "nat \<Rightarrow> int \<times> (int \<times> 'f) list \<Rightarrow> 'f mvvm \<Rightarrow> 'f mvvm" where
  "subscribe_block a = (\<lambda>(t, subs) s. let (found, s) = ModelOf t s in if found then fold (SUBSCRIE_EVENT a t) subs s else s)"

text \<open>\<open>NotifyBind\<close> keeps the view \<open>w\<close> as the context and makes the subscriptions of \<open>OnAttach\<close> of the class, a list of
  blocks for each type of view model.  \<open>NotifyUnBind\<close> calls \<open>OnDetach\<close> too, which is empty in every class.\<close>

definition NotifyBind :: "(int \<Rightarrow> (int \<times> (int \<times> 'f) list) list) \<Rightarrow> nat \<Rightarrow> nat \<Rightarrow> 'f mvvm \<Rightarrow> 'f mvvm" where
  "NotifyBind OnAttach w a s =
    fold (subscribe_block a) (OnAttach (viewmode_type (view_models s ! a))) (upd_vm a (\<lambda>v. v\<lparr>vm_context := Some w\<rparr>) s)"

definition NotifyUnBind :: "nat \<Rightarrow> 'f mvvm \<Rightarrow> 'f mvvm" where
  "NotifyUnBind a s =
    UnSubscrieAllEvent a (upd_vm a (\<lambda>v. v\<lparr>property_changed_delegate := False, event_fired_delegate := False\<rparr>) s)"

definition BindPropertyChanged :: "nat \<Rightarrow> 'f mvvm \<Rightarrow> 'f mvvm" where
  "BindPropertyChanged a = upd_vm a (\<lambda>v. v\<lparr>property_changed_delegate := True\<rparr>)"

definition BindEvent :: "nat \<Rightarrow> 'f mvvm \<Rightarrow> 'f mvvm" where
  "BindEvent a = upd_vm a (\<lambda>v. v\<lparr>event_fired_delegate := True\<rparr>)"

text \<open>The overloads of \<open>SetProperty\<close>, which wrap the value in a message when there is a delegate, and that for a
  message; those of \<open>FireEvent\<close>.\<close>

definition SetProperty_int32 :: "nat \<Rightarrow> int \<Rightarrow> int \<Rightarrow> 'f mvvm \<Rightarrow> 'f mvvm" where
  "SetProperty_int32 a p v s =
    (if property_changed_delegate (view_models s ! a) then s\<lparr>mvvm_calls := mvvm_calls s @ [OnPropertyChanged a p (ParamInt32 v)]\<rparr> else s)"

definition SetProperty_int64 :: "nat \<Rightarrow> int \<Rightarrow> int \<Rightarrow> 'f mvvm \<Rightarrow> 'f mvvm" where
  "SetProperty_int64 a p v s =
    (if property_changed_delegate (view_models s ! a) then s\<lparr>mvvm_calls := mvvm_calls s @ [OnPropertyChanged a p (ParamInt64 v)]\<rparr> else s)"

definition SetProperty_bool :: "nat \<Rightarrow> int \<Rightarrow> bool \<Rightarrow> 'f mvvm \<Rightarrow> 'f mvvm" where
  "SetProperty_bool a p v s =
    (if property_changed_delegate (view_models s ! a) then s\<lparr>mvvm_calls := mvvm_calls s @ [OnPropertyChanged a p (ParamBool v)]\<rparr> else s)"

definition SetProperty_string :: "nat \<Rightarrow> int \<Rightarrow> string \<Rightarrow> 'f mvvm \<Rightarrow> 'f mvvm" where
  "SetProperty_string a p v s =
    (if property_changed_delegate (view_models s ! a) then s\<lparr>mvvm_calls := mvvm_calls s @ [OnPropertyChanged a p (ParamString v)]\<rparr> else s)"

definition SetProperty :: "nat \<Rightarrow> int \<Rightarrow> message \<Rightarrow> 'f mvvm \<Rightarrow> 'f mvvm" where
  "SetProperty a p v s =
    (if property_changed_delegate (view_models s ! a) then s\<lparr>mvvm_calls := mvvm_calls s @ [OnPropertyChanged a p v]\<rparr> else s)"

definition VM_FireEvent_int32 :: "nat \<Rightarrow> int \<Rightarrow> int \<Rightarrow> 'f mvvm \<Rightarrow> 'f mvvm" where
  "VM_FireEvent_int32 a p v s =
    (if event_fired_delegate (view_models s ! a) then s\<lparr>mvvm_calls := mvvm_calls s @ [OnEventFired a p (ParamInt32 v)]\<rparr> else s)"

definition VM_FireEvent_int64 :: "nat \<Rightarrow> int \<Rightarrow> int \<Rightarrow> 'f mvvm \<Rightarrow> 'f mvvm" where
  "VM_FireEvent_int64 a p v s =
    (if event_fired_delegate (view_models s ! a) then s\<lparr>mvvm_calls := mvvm_calls s @ [OnEventFired a p (ParamInt64 v)]\<rparr> else s)"

definition VM_FireEvent_bool :: "nat \<Rightarrow> int \<Rightarrow> bool \<Rightarrow> 'f mvvm \<Rightarrow> 'f mvvm" where
  "VM_FireEvent_bool a p v s =
    (if event_fired_delegate (view_models s ! a) then s\<lparr>mvvm_calls := mvvm_calls s @ [OnEventFired a p (ParamBool v)]\<rparr> else s)"

definition VM_FireEvent_string :: "nat \<Rightarrow> int \<Rightarrow> string \<Rightarrow> 'f mvvm \<Rightarrow> 'f mvvm" where
  "VM_FireEvent_string a p v s =
    (if event_fired_delegate (view_models s ! a) then s\<lparr>mvvm_calls := mvvm_calls s @ [OnEventFired a p (ParamString v)]\<rparr> else s)"

definition VM_FireEvent :: "nat \<Rightarrow> int \<Rightarrow> message \<Rightarrow> 'f mvvm \<Rightarrow> 'f mvvm" where
  "VM_FireEvent a e v s =
    (if event_fired_delegate (view_models s ! a) then s\<lparr>mvvm_calls := mvvm_calls s @ [OnEventFired a e v]\<rparr> else s)"

definition RouteEventToUI :: "nat \<Rightarrow> int \<Rightarrow> message \<Rightarrow> 'f mvvm \<Rightarrow> 'f mvvm" where
  "RouteEventToUI a e v s = VM_FireEvent a e v s"

section \<open>Views\<close>

text \<open>The view \<open>w\<close> owns its view model.  The assignment of \<open>CreateVM\<close> stores the new one before it releases the old one.\<close>

definition CreateVM :: "nat \<Rightarrow> int \<Rightarrow> 'f mvvm \<Rightarrow> mvvm_fault + 'f mvvm" where
  "CreateVM w t s =
    (let old = map_of (views s) w;
         (new, s) = Create t s;
         s = s\<lparr>views := (case new of Some a \<Rightarrow> map_put w a (views s) | None \<Rightarrow> map_erase w (views s))\<rparr>;
         s = (case old of Some b \<Rightarrow> ViewModel_delete b s | None \<Rightarrow> s)
     in case new of
          None \<Rightarrow> Inl Null_pointer
        | Some a \<Rightarrow> Inr (BindEvent a (BindPropertyChanged a s)))"

definition BindVM :: "(int \<Rightarrow> (int \<times> (int \<times> 'f) list) list) \<Rightarrow> nat \<Rightarrow> 'f mvvm \<Rightarrow> mvvm_fault + 'f mvvm" where
  "BindVM OnAttach w s = (case map_of (views s) w of None \<Rightarrow> Inl Null_pointer | Some a \<Rightarrow> Inr (NotifyBind OnAttach w a s))"

definition UnBindVM :: "nat \<Rightarrow> 'f mvvm \<Rightarrow> mvvm_fault + 'f mvvm" where
  "UnBindVM w s = (case map_of (views s) w of None \<Rightarrow> Inl Null_pointer | Some a \<Rightarrow> Inr (NotifyUnBind a s))"

definition BaseView_delete :: "nat \<Rightarrow> 'f mvvm \<Rightarrow> 'f mvvm" where
  "BaseView_delete w s =
    (case map_of (views s) w of None \<Rightarrow> s | Some a \<Rightarrow> ViewModel_delete a (s\<lparr>views := map_erase w (views s)\<rparr>))"

section \<open>Runs\<close>

text \<open>The operations of the application and of its views; \<open>Op_SetProperty\<close> and \<open>Op_VM_FireEvent\<close> are those of the view
  model of a view.\<close>

datatype mvvm_op = Op_RegisterModel int | Op_RegisterViewModel int int | Op_CreateVM nat int | Op_BindVM nat | Op_UnBindVM nat
  | Op_delete nat | Op_FireEvent int int message | Op_SetProperty nat int message | Op_VM_FireEvent nat int message

fun mvvm_exec :: "(int \<Rightarrow> (int \<times> (int \<times> 'f) list) list) \<Rightarrow> mvvm_op \<Rightarrow> 'f mvvm \<Rightarrow> mvvm_fault + 'f mvvm" where
  "mvvm_exec OnAttach (Op_RegisterModel t) s = Inr (RegisterModel t s)"
| "mvvm_exec OnAttach (Op_RegisterViewModel t cls) s = Inr (RegisterViewModel t cls s)"
| "mvvm_exec OnAttach (Op_CreateVM w t) s = CreateVM w t s"
| "mvvm_exec OnAttach (Op_BindVM w) s = BindVM OnAttach w s"
| "mvvm_exec OnAttach (Op_UnBindVM w) s = UnBindVM w s"
| "mvvm_exec OnAttach (Op_delete w) s = Inr (BaseView_delete w s)"
| "mvvm_exec OnAttach (Op_FireEvent t e v) s = Model_FireEvent t e v s"
| "mvvm_exec OnAttach (Op_SetProperty w p v) s =
    (case map_of (views s) w of None \<Rightarrow> Inl Null_pointer | Some a \<Rightarrow> Inr (SetProperty a p v s))"
| "mvvm_exec OnAttach (Op_VM_FireEvent w e v) s =
    (case map_of (views s) w of None \<Rightarrow> Inl Null_pointer | Some a \<Rightarrow> Inr (VM_FireEvent a e v s))"

inductive mvvm_reach :: "(int \<Rightarrow> (int \<times> (int \<times> 'f) list) list) \<Rightarrow> 'f mvvm \<Rightarrow> bool" for OnAttach where
  mvvm_init: "mvvm_reach OnAttach mvvm_start"
| mvvm_next: "mvvm_reach OnAttach s \<Longrightarrow> mvvm_exec OnAttach op s = Inr s' \<Longrightarrow> mvvm_reach OnAttach s'"

end
