(* ===== verification/MvvmSpec.thy ===== *)
theory MvvmSpec
  imports Mvvm
begin

text \<open>
  What the framework of theory \<open>Mvvm\<close> promises: an event of a model reaches exactly the view models that
  are subscribed to it, in the order of their subscriptions, and none that is unbound or destroyed.
\<close>

section \<open>The subscriptions of an event\<close>

definition listeners :: "int \<Rightarrow> int \<Rightarrow> 'f mvvm \<Rightarrow> 'f SuscribeEventDelegateInfo list" where
  "listeners t e s = (case map_of (get_model t s) e of Some ds \<Rightarrow> ds | None \<Rightarrow> [])"

definition all_subs :: "'f model \<Rightarrow> 'f SuscribeEventDelegateInfo list" where
  "all_subs m = concat (map snd m)"

lemma all_subs_simps [simp]: "all_subs [] = []" "all_subs ((e, ds) # m) = ds @ all_subs m"
  by (simp_all add: all_subs_def)

lemma all_subs_put_new: "map_of m e = None \<Longrightarrow> all_subs (map_put e [] m) = all_subs m"
  by (induction e "[] :: 'a SuscribeEventDelegateInfo list" m rule: map_put.induct) (auto split: if_splits)

lemma all_subs_put_append:
  "sorted_map m \<Longrightarrow> map_of m e = Some l \<Longrightarrow>
    \<exists>xs ys. all_subs m = xs @ ys \<and> all_subs (map_put e (l @ [x]) m) = xs @ x # ys"
proof (induction e "l @ [x]" m rule: map_put.induct)
  case (2 k k' v' m)
  show ?case
  proof (cases "k = k'")
    case True
    then show ?thesis
      using 2 by (intro exI [of _ l] exI [of _ "all_subs m"]) simp
  next
    case False
    then have "map_of m k = Some l" "sorted_map m" "\<not> k < k'"
      using 2(2,3) by (auto simp: sorted_map_def dest!: map_of_SomeD)
    then obtain xs ys where "all_subs m = xs @ ys" "all_subs (map_put k (l @ [x]) m) = xs @ x # ys"
      using 2(1) False by blast
    then show ?thesis
      using False \<open>\<not> k < k'\<close> by (intro exI [of _ "v' @ xs"] exI [of _ ys]) simp
  qed
qed simp

lemma filter_fresh: "i \<notin> sub_id ` set ds \<Longrightarrow> filter (\<lambda>d. sub_id d \<noteq> i) ds = ds"
  by (rule filter_True) (metis image_eqI)

lemma erase_delegate_filter:
  "distinct (map sub_id ds) \<Longrightarrow>
    erase_delegate i ds = (if i \<in> sub_id ` set ds then Some (filter (\<lambda>d. sub_id d \<noteq> i) ds) else None)"
  by (induction ds) (auto simp: filter_fresh)

lemma all_subs_erase:
  "distinct (map sub_id (all_subs m)) \<Longrightarrow> all_subs (erase_subscription i m) = filter (\<lambda>d. sub_id d \<noteq> i) (all_subs m)"
proof (induction i m rule: erase_subscription.induct)
  case (2 i event ds m)
  then have "i \<notin> sub_id ` set (all_subs m) \<or> i \<notin> sub_id ` set ds"
    by auto
  then show ?case
    using 2 by (auto simp: erase_delegate_filter filter_fresh)
qed simp

lemma map_fst_erase: "map fst (erase_subscription i m) = map fst m"
  by (induction i m rule: erase_subscription.induct) (auto split: option.split)

lemma map_of_all_subs: "map_of m e = Some ds \<Longrightarrow> set ds \<subseteq> set (all_subs m)"
  by (auto simp: all_subs_def dest: map_of_SomeD)

lemma map_of_erase_subscription:
  "distinct (map sub_id (all_subs m)) \<Longrightarrow>
    map_of (erase_subscription i m) e = map_option (filter (\<lambda>d. sub_id d \<noteq> i)) (map_of m e)"
proof (induction i m rule: erase_subscription.induct)
  case (2 i event ds m)
  have "map_option (filter (\<lambda>d. sub_id d \<noteq> i)) (map_of m e) = map_of m e" if "i \<in> sub_id ` set ds"
  proof (cases "map_of m e")
    case (Some l)
    have "i \<notin> sub_id ` set (all_subs m)"
      using 2(2) that by auto
    then show ?thesis
      using map_of_all_subs [OF Some] Some by (simp add: filter_fresh subset_iff image_iff)
  qed simp
  then show ?case
    using 2 by (auto simp: erase_delegate_filter filter_fresh)
qed simp

section \<open>The invariant\<close>

text \<open>The maps are sorted, and no number occurs twice in a model.\<close>

definition models_ok :: "'f mvvm \<Rightarrow> bool" where
  "models_ok s \<longleftrightarrow> sorted_map (models s) \<and>
    (\<forall>t m. map_of (models s) t = Some m \<longrightarrow> sorted_map m \<and> distinct (map sub_id (all_subs m)))"

text \<open>Each subscription belongs to a view model that is alive and knows it; numbers are given once, in order.\<close>

definition subs_ok :: "'f mvvm \<Rightarrow> bool" where
  "subs_ok s \<longleftrightarrow> (\<forall>t e. sorted_wrt (<) (map sub_id (listeners t e s)) \<and>
    (\<forall>d \<in> set (listeners t e s). sub_vm d < length (view_models s) \<and> alive (view_models s ! sub_vm d) \<and>
      map_of (subscribe_ids (view_models s ! sub_vm d)) (sub_id d) = Some t))"

definition ids_ok :: "'f mvvm \<Rightarrow> bool" where
  "ids_ok s \<longleftrightarrow> (\<forall>a < length (view_models s). sorted_map (subscribe_ids (view_models s ! a)) \<and>
    (\<forall>i t. map_of (subscribe_ids (view_models s ! a)) i = Some t \<longrightarrow> i \<le> s_suscribe_id s \<and>
      (\<forall>b < length (view_models s). map_of (subscribe_ids (view_models s ! b)) i \<noteq> None \<longrightarrow> a = b)))"

definition views_ok :: "'f mvvm \<Rightarrow> bool" where
  "views_ok s \<longleftrightarrow> sorted_map (views s) \<and>
    (\<forall>w a. map_of (views s) w = Some a \<longrightarrow> a < length (view_models s) \<and> alive (view_models s ! a) \<and>
      (\<forall>w'. map_of (views s) w' = Some a \<longrightarrow> w' = w))"

definition mvvm_inv :: "'f mvvm \<Rightarrow> bool" where
  "mvvm_inv s \<longleftrightarrow> models_ok s \<and> subs_ok s \<and> ids_ok s \<and> views_ok s"

lemma ids_okD:
  assumes "ids_ok s" "b < length (view_models s)" "map_of (subscribe_ids (view_models s ! b)) j = Some u"
  shows "j \<le> s_suscribe_id s" "c < length (view_models s) \<Longrightarrow> map_of (subscribe_ids (view_models s ! c)) j \<noteq> None \<Longrightarrow> b = c"
  using assms unfolding ids_ok_def by blast+

lemma mvvm_inv_start: "mvvm_inv mvvm_start"
  by (simp add: mvvm_inv_def models_ok_def subs_ok_def ids_ok_def views_ok_def mvvm_start_def listeners_def get_model_def)

subsection \<open>Models\<close>

lemma listeners_set_model:
  "models_ok s \<Longrightarrow> listeners t' e (set_model t m s) = (if t' = t then (case map_of m e of Some ds \<Rightarrow> ds | None \<Rightarrow> []) else listeners t' e s)"
  by (simp add: listeners_def get_model_def set_model_def models_ok_def)

lemma models_ok_set_model:
  "models_ok s \<Longrightarrow> sorted_map m \<Longrightarrow> distinct (map sub_id (all_subs m)) \<Longrightarrow> models_ok (set_model t m s)"
  by (simp add: models_ok_def set_model_def)

lemma models_ok_get: "models_ok s \<Longrightarrow> sorted_map (get_model t s) \<and> distinct (map sub_id (all_subs (get_model t s)))"
  by (simp add: models_ok_def get_model_def split: option.split)

lemma ModelOf_ok:
  assumes "models_ok s" "ModelOf t s = (found, s')"
  shows "models_ok s'" "listeners t' e s' = listeners t' e s" "view_models s' = view_models s" "views s' = views s"
    "s_suscribe_id s' = s_suscribe_id s" "mvvm_calls s' = mvvm_calls s" "\<not> found \<Longrightarrow> map_of (models s) t = None"
proof -
  have "s' = s \<and> (found \<or> map_of (models s) t = None) \<or> s' = set_model t [] s \<and> map_of (models s) t = None \<and> found"
    using assms(2) by (auto simp: ModelOf_def set_model_def split: option.splits)
  then show "models_ok s'" "listeners t' e s' = listeners t' e s" "view_models s' = view_models s" "views s' = views s"
    "s_suscribe_id s' = s_suscribe_id s" "mvvm_calls s' = mvvm_calls s" "\<not> found \<Longrightarrow> map_of (models s) t = None"
    using assms(1) models_ok_set_model [of s "[]" t] listeners_set_model [OF assms(1), of t' e t "[]"]
    by (auto simp: listeners_def get_model_def set_model_def)
qed

lemma UnSubscribeEvent_ok:
  assumes "models_ok s"
  shows "models_ok (UnSubscribeEvent t i s)"
    "listeners t' e (UnSubscribeEvent t i s) = (if t' = t then filter (\<lambda>d. sub_id d \<noteq> i) (listeners t e s) else listeners t' e s)"
proof -
  note m = models_ok_get [OF assms, of t]
  have "sorted_map (erase_subscription i (get_model t s))"
    using m by (simp add: sorted_map_def map_fst_erase)
  moreover have "distinct (map sub_id (all_subs (erase_subscription i (get_model t s))))"
    using m by (simp add: all_subs_erase distinct_map_filter)
  ultimately show "models_ok (UnSubscribeEvent t i s)"
    using assms by (simp add: UnSubscribeEvent_def models_ok_set_model)
  show "listeners t' e (UnSubscribeEvent t i s) = (if t' = t then filter (\<lambda>d. sub_id d \<noteq> i) (listeners t e s) else listeners t' e s)"
    using m map_of_erase_subscription [of "get_model t s" i e]
    by (simp add: UnSubscribeEvent_def listeners_set_model [OF assms]) (simp add: listeners_def split: option.split)
qed

lemma UnSubscribeEvent_sel [simp]:
  "view_models (UnSubscribeEvent t i s) = view_models s" "views (UnSubscribeEvent t i s) = views s"
  "s_suscribe_id (UnSubscribeEvent t i s) = s_suscribe_id s" "mvvm_calls (UnSubscribeEvent t i s) = mvvm_calls s"
  by (simp_all add: UnSubscribeEvent_def set_model_def)

lemma unsubscribe_loop_ok:
  assumes "models_ok s"
  shows "models_ok (unsubscribe_loop ids s) \<and>
    listeners t e (unsubscribe_loop ids s) = filter (\<lambda>d. (sub_id d, t) \<notin> set ids) (listeners t e s) \<and>
    view_models (unsubscribe_loop ids s) = view_models s \<and> views (unsubscribe_loop ids s) = views s \<and>
    s_suscribe_id (unsubscribe_loop ids s) = s_suscribe_id s \<and> mvvm_calls (unsubscribe_loop ids s) = mvvm_calls s"
  using assms
proof (induction ids arbitrary: s)
  case (Cons x ids)
  obtain i t' where x: "x = (i, t')"
    by fastforce
  obtain found s1 where s1: "ModelOf t' s = (found, s1)"
    by fastforce
  note m = ModelOf_ok [OF Cons.prems s1]
  let ?s = "if found then UnSubscribeEvent t' i s1 else s1"
  have "models_ok ?s"
    using m(1) UnSubscribeEvent_ok(1) [OF m(1)] by simp
  note ih = Cons.IH [OF this]
  have "listeners t e ?s = filter (\<lambda>d. \<not> (sub_id d = i \<and> t = t')) (listeners t e s)"
  proof (cases found)
    case True
    then show ?thesis
      using m(2) by (simp add: UnSubscribeEvent_ok [OF m(1)])
  next
    case False
    then have "t = t' \<Longrightarrow> listeners t e s = []"
      using m(7) by (simp add: listeners_def get_model_def)
    then show ?thesis
      using False m(2) by (cases "t = t'") simp_all
  qed
  then show ?case
    using ih m(3-6) x s1 by (auto simp: Let_def conj_commute intro!: filter_cong)
qed simp

subsection \<open>View models\<close>

lemma upd_vm_sel [simp]:
  "models (upd_vm a f s) = models s" "views (upd_vm a f s) = views s" "s_suscribe_id (upd_vm a f s) = s_suscribe_id s"
  "mvvm_calls (upd_vm a f s) = mvvm_calls s" "length (view_models (upd_vm a f s)) = length (view_models s)"
  "listeners t e (upd_vm a f s) = listeners t e s" "models_ok (upd_vm a f s) = models_ok s"
  by (simp_all add: upd_vm_def listeners_def get_model_def models_ok_def)

lemma nth_upd_vm: "b < length (view_models s) \<Longrightarrow> view_models (upd_vm a f s) ! b = (if a = b then f (view_models s ! b) else view_models s ! b)"
  by (simp add: upd_vm_def nth_list_update)

text \<open>Changes of a view model that concern neither its subscriptions nor its life.\<close>

lemma upd_vm_inv:
  assumes "mvvm_inv s" "\<And>v. subscribe_ids (f v) = subscribe_ids v" "\<And>v. alive (f v) = alive v"
  shows "mvvm_inv (upd_vm a f s)"
proof -
  have "subscribe_ids (view_models (upd_vm a f s) ! b) = subscribe_ids (view_models s ! b)"
    "alive (view_models (upd_vm a f s) ! b) = alive (view_models s ! b)" if "b < length (view_models s)" for b
    using that assms(2,3) by (simp_all add: nth_upd_vm)
  then show ?thesis
    using assms(1) by (simp add: mvvm_inv_def subs_ok_def ids_ok_def views_ok_def)
qed

lemma UnSubscrieAllEvent_ok:
  assumes "mvvm_inv s" "a < length (view_models s)"
  shows "mvvm_inv (UnSubscrieAllEvent a s)"
    "listeners t e (UnSubscrieAllEvent a s) = filter (\<lambda>d. sub_vm d \<noteq> a) (listeners t e s)"
    "length (view_models (UnSubscrieAllEvent a s)) = length (view_models s)"
    "b < length (view_models s) \<Longrightarrow> view_models (UnSubscrieAllEvent a s) ! b =
      (if a = b then (view_models s ! b)\<lparr>subscribe_ids := []\<rparr> else view_models s ! b)"
    "views (UnSubscrieAllEvent a s) = views s" "mvvm_calls (UnSubscrieAllEvent a s) = mvvm_calls s"
proof -
  let ?ids = "subscribe_ids (view_models s ! a)"
  have inv: "models_ok s" "subs_ok s" "ids_ok s" "views_ok s"
    using assms(1) by (simp_all add: mvvm_inv_def)
  note u = unsubscribe_loop_ok [OF inv(1), of ?ids]
  have vms: "view_models (unsubscribe_loop ids s) = view_models s" for ids
    using unsubscribe_loop_ok [OF inv(1)] by blast
  have sel: "views (UnSubscrieAllEvent a s) = views s" "s_suscribe_id (UnSubscrieAllEvent a s) = s_suscribe_id s"
    "length (view_models (UnSubscrieAllEvent a s)) = length (view_models s)" "models_ok (UnSubscrieAllEvent a s)"
    "mvvm_calls (UnSubscrieAllEvent a s) = mvvm_calls s"
    using u by (simp_all add: UnSubscrieAllEvent_def)
  show vm: "view_models (UnSubscrieAllEvent a s) ! b = (if a = b then (view_models s ! b)\<lparr>subscribe_ids := []\<rparr> else view_models s ! b)"
    if "b < length (view_models s)" for b
    using that by (cases "a = b") (simp_all add: UnSubscrieAllEvent_def nth_upd_vm vms)
  have "(sub_id d, t) \<in> set ?ids \<longleftrightarrow> sub_vm d = a" if "d \<in> set (listeners t e s)" for d t e
  proof -
    have d: "sub_vm d < length (view_models s)" "map_of (subscribe_ids (view_models s ! sub_vm d)) (sub_id d) = Some t"
      using inv(2) that by (auto simp: subs_ok_def)
    have "(sub_id d, t) \<in> set ?ids \<longleftrightarrow> map_of ?ids (sub_id d) = Some t"
      using inv(3) assms(2) by (intro map_of_in_set) (simp add: ids_ok_def)
    then show ?thesis
      using d inv(3) assms(2) unfolding ids_ok_def by (metis option.distinct(1))
  qed
  then show l: "listeners t e (UnSubscrieAllEvent a s) = filter (\<lambda>d. sub_vm d \<noteq> a) (listeners t e s)" for t e
    using u by (auto simp: UnSubscrieAllEvent_def intro: filter_cong)
  have "subs_ok (UnSubscrieAllEvent a s)"
    using inv(2) unfolding subs_ok_def l sel(3)
    by (auto simp: vm sorted_wrt_map sorted_wrt_filter)
  moreover have "ids_ok (UnSubscrieAllEvent a s)"
    using inv(3) unfolding ids_ok_def sel by (auto simp: vm split: if_splits)
  moreover have "views_ok (UnSubscrieAllEvent a s)"
    using inv(4) unfolding views_ok_def sel by (auto simp: vm)
  ultimately show "mvvm_inv (UnSubscrieAllEvent a s)"
    using sel(4) by (simp add: mvvm_inv_def)
  show "length (view_models (UnSubscrieAllEvent a s)) = length (view_models s)"
    "views (UnSubscrieAllEvent a s) = views s" "mvvm_calls (UnSubscrieAllEvent a s) = mvvm_calls s"
    by (rule sel)+
qed

subsection \<open>Subscribing\<close>

lemma sub_id_le:
  assumes "mvvm_inv s" "d \<in> set (all_subs (get_model t s))"
  shows "sub_id d \<le> s_suscribe_id s"
proof -
  have inv: "models_ok s" "subs_ok s" "ids_ok s"
    using assms(1) by (simp_all add: mvvm_inv_def)
  obtain e ds where "(e, ds) \<in> set (get_model t s)" "d \<in> set ds"
    using assms(2) by (auto simp: all_subs_def)
  then have "d \<in> set (listeners t e s)"
    using map_of_in_set [of "get_model t s" e ds] models_ok_get [OF inv(1), of t] by (simp add: listeners_def)
  then have "sub_vm d < length (view_models s)" "map_of (subscribe_ids (view_models s ! sub_vm d)) (sub_id d) = Some t"
    using inv(2) by (auto simp: subs_ok_def)
  then show ?thesis
    using inv(3) by (auto simp: ids_ok_def)
qed

lemma SubscribeEvent_ok:
  assumes "mvvm_inv s" "SubscribeEvent t e a f s = (i, s')"
  shows "i = s_suscribe_id s + 1" "models_ok s'" "s_suscribe_id s' = i" "view_models s' = view_models s" "views s' = views s"
    "mvvm_calls s' = mvvm_calls s"
    "listeners t' e' s' = listeners t' e' s @ (if t' = t \<and> e' = e then [\<lparr>sub_vm = a, sub_func = f, sub_id = i\<rparr>] else [])"
proof -
  have ok: "models_ok s"
    using assms(1) by (simp add: mvvm_inv_def)
  let ?m = "get_model t s" and ?d = "\<lparr>sub_vm = a, sub_func = f, sub_id = s_suscribe_id s + 1\<rparr>"
  let ?m1 = "if map_of ?m e = None then map_put e [] ?m else ?m"
  let ?l = "case map_of ?m e of Some l \<Rightarrow> l | None \<Rightarrow> []"
  let ?m2 = "map_put e (?l @ [?d]) ?m1"
  note m = models_ok_get [OF ok, of t]
  have m1: "sorted_map ?m1" "map_of ?m1 e = Some ?l" "all_subs ?m1 = all_subs ?m"
    using m by (auto simp: all_subs_put_new split: option.split)
  have s': "i = s_suscribe_id s + 1" "s' = set_model t ?m2 (s\<lparr>s_suscribe_id := s_suscribe_id s + 1\<rparr>)"
    using assms(2) m1(2) by (auto simp: SubscribeEvent_def Let_def)
  then show "i = s_suscribe_id s + 1" "s_suscribe_id s' = i" "view_models s' = view_models s" "views s' = views s"
    "mvvm_calls s' = mvvm_calls s"
    by (simp_all add: set_model_def)
  obtain xs ys where xy: "all_subs ?m = xs @ ys" "all_subs ?m2 = xs @ ?d # ys"
    using all_subs_put_append [OF m1(1,2), of ?d] m1(3) by auto
  have "s_suscribe_id s + 1 \<notin> sub_id ` set (all_subs ?m)"
    using sub_id_le [OF assms(1)] by fastforce
  then have "distinct (map sub_id (all_subs ?m2))"
    using m unfolding xy by auto
  moreover have ok': "models_ok (s\<lparr>s_suscribe_id := x\<rparr>)" for x
    using ok by (simp add: models_ok_def)
  ultimately show "models_ok s'"
    unfolding s' using m1(1) by (intro models_ok_set_model) simp_all
  have "map_of ?m2 e' = (if e' = e then Some (?l @ [?d]) else map_of ?m e')"
    using m1(1) m by simp
  then show "listeners t' e' s' = listeners t' e' s @ (if t' = t \<and> e' = e then [\<lparr>sub_vm = a, sub_func = f, sub_id = i\<rparr>] else [])"
    unfolding s' listeners_set_model [OF ok'] by (simp add: listeners_def get_model_def)
qed

lemma SUBSCRIE_EVENT_ok:
  assumes "mvvm_inv s" "a < length (view_models s)" "alive (view_models s ! a)"
  shows "let s' = SUBSCRIE_EVENT a t (e, f) s in mvvm_inv s' \<and> length (view_models s') = length (view_models s) \<and>
    alive (view_models s' ! a) \<and> views s' = views s"
proof -
  obtain i s1 where s1: "SubscribeEvent t e a f s = (i, s1)"
    by fastforce
  note m = SubscribeEvent_ok [OF assms(1) s1]
  have inv: "subs_ok s" "ids_ok s" "views_ok s"
    using assms(1) by (simp_all add: mvvm_inv_def)
  let ?s = "upd_vm a (\<lambda>v. v\<lparr>subscribe_ids := map_put i t (subscribe_ids v)\<rparr>) s1"
  have vm: "view_models ?s ! b =
      (if a = b then (view_models s ! b)\<lparr>subscribe_ids := map_put i t (subscribe_ids (view_models s ! b))\<rparr> else view_models s ! b)"
    if "b < length (view_models s)" for b
    using that m(4) by (simp add: nth_upd_vm)
  have ids: "map_of (subscribe_ids (view_models ?s ! b)) = (if a = b then (map_of (subscribe_ids (view_models s ! b)))(i \<mapsto> t)
      else map_of (subscribe_ids (view_models s ! b)))"
    "sorted_map (subscribe_ids (view_models ?s ! b))" "alive (view_models ?s ! b) = alive (view_models s ! b)"
    if "b < length (view_models s)" for b
    using that inv(2) by (auto simp: vm ids_ok_def)
  have fresh: "map_of (subscribe_ids (view_models s ! b)) i = None" if "b < length (view_models s)" for b
    using that inv(2) m(1) by (fastforce simp: ids_ok_def)
  have len: "length (view_models ?s) = length (view_models s)" and less: "s_suscribe_id s < i"
    using m(1,4) by simp_all
  have "ids_ok ?s"
    unfolding ids_ok_def len
  proof (intro allI impI conjI)
    fix b
    assume b: "b < length (view_models s)"
    then show "sorted_map (subscribe_ids (view_models ?s ! b))"
      by (rule ids)
    fix j u
    assume j: "map_of (subscribe_ids (view_models ?s ! b)) j = Some u"
    show "j \<le> s_suscribe_id ?s"
      using j ids_okD(1) [OF inv(2) b, of j u] m(3) less by (auto simp: ids [OF b] split: if_splits)
    fix c
    assume c: "c < length (view_models s)" "map_of (subscribe_ids (view_models ?s ! c)) j \<noteq> None"
    show "b = c"
      using j c(2) fresh [OF b] fresh [OF c(1)] ids_okD(2) [OF inv(2) b, of j u c] c(1)
      by (auto simp: ids [OF b] ids [OF c(1)] split: if_splits)
  qed
  moreover have "subs_ok ?s"
    unfolding subs_ok_def len
  proof (intro allI conjI ballI)
    fix t' e'
    have old: "sub_vm d < length (view_models s) \<and> alive (view_models s ! sub_vm d) \<and>
        map_of (subscribe_ids (view_models s ! sub_vm d)) (sub_id d) = Some t'" if "d \<in> set (listeners t' e' s)" for d
      using that inv(1) by (auto simp: subs_ok_def)
    have "sub_id d < i" if "d \<in> set (listeners t' e' s)" for d
      using old [OF that] inv(2) m(1) by (fastforce simp: ids_ok_def)
    then show "sorted_wrt (<) (map sub_id (listeners t' e' ?s))"
      using inv(1) m(7) by (auto simp: subs_ok_def sorted_wrt_append)
    fix d assume "d \<in> set (listeners t' e' ?s)"
    then consider "d \<in> set (listeners t' e' s)" | "d = \<lparr>sub_vm = a, sub_func = f, sub_id = i\<rparr>" "t' = t"
      using m(7) by (auto split: if_splits)
    then show "sub_vm d < length (view_models s)" "alive (view_models ?s ! sub_vm d)"
      "map_of (subscribe_ids (view_models ?s ! sub_vm d)) (sub_id d) = Some t'"
      using old [of d] fresh [of "sub_vm d"] assms(2,3) by (cases; auto simp: ids)+
  qed
  moreover have "views_ok ?s"
    using inv(3) m(5) unfolding views_ok_def len by (auto simp: ids)
  ultimately show ?thesis
    using m(2,5) ids(3) [OF assms(2)] assms(3) len
    by (simp add: SUBSCRIE_EVENT_def s1 mvvm_inv_def)
qed

text \<open>Whom an event calls, as view models and functions; whether there is a model of a type.\<close>

definition callees :: "int \<Rightarrow> int \<Rightarrow> 'f mvvm \<Rightarrow> (nat \<times> 'f) list" where
  "callees t e s = map (\<lambda>d. (sub_vm d, sub_func d)) (listeners t e s)"

definition has_model :: "int \<Rightarrow> 'f mvvm \<Rightarrow> bool" where
  "has_model t s \<longleftrightarrow> map_of (models s) t \<noteq> None \<or> map_of (model_builder s) t \<noteq> None"

text \<open>What the subscriptions of a view model leave as it is.\<close>

definition subscribing :: "nat \<Rightarrow> 'f mvvm \<Rightarrow> 'f mvvm \<Rightarrow> bool" where
  "subscribing a s s' \<longleftrightarrow> mvvm_inv s' \<and> length (view_models s') = length (view_models s) \<and> a < length (view_models s) \<and>
    alive (view_models s' ! a) \<and> views s' = views s \<and> mvvm_calls s' = mvvm_calls s \<and> (\<forall>t. has_model t s' = has_model t s)"

lemma subscribing_trans: "subscribing a s s1 \<Longrightarrow> subscribing a s1 s2 \<Longrightarrow> subscribing a s s2"
  by (simp add: subscribing_def)

lemma subscribing_refl: "subscribing a s s1 \<Longrightarrow> subscribing a s1 s1"
  by (simp add: subscribing_def)

lemma upd_vm_builder [simp]: "model_builder (upd_vm a f s) = model_builder s"
  by (simp add: upd_vm_def)

lemma has_model_set_model: "sorted_map (models s) \<Longrightarrow> has_model t' (set_model t m s) = (t' = t \<or> has_model t' s)"
  by (auto simp: has_model_def set_model_def)

lemma SubscribeEvent_has_model:
  assumes "models_ok s" "has_model t s" "SubscribeEvent t e a f s = (i, s')"
  shows "has_model t' s' = has_model t' s"
proof -
  have "sorted_map (models (s\<lparr>s_suscribe_id := i\<rparr>))" "has_model u (s\<lparr>s_suscribe_id := i\<rparr>) = has_model u s" for u i
    using assms(1) by (simp_all add: models_ok_def has_model_def)
  then show ?thesis
    using assms(2,3) by (auto simp: SubscribeEvent_def Let_def has_model_set_model)
qed

lemma SUBSCRIE_EVENT_step:
  assumes "subscribing a s s" "has_model t s"
  shows "subscribing a s (SUBSCRIE_EVENT a t (e, f) s)"
    "callees t' e' (SUBSCRIE_EVENT a t (e, f) s) = callees t' e' s @ (if t' = t \<and> e' = e then [(a, f)] else [])"
proof -
  have inv: "mvvm_inv s" "a < length (view_models s)" "alive (view_models s ! a)" "models_ok s"
    using assms(1) by (simp_all add: subscribing_def mvvm_inv_def)
  obtain i s1 where s1: "SubscribeEvent t e a f s = (i, s1)"
    by fastforce
  note m = SubscribeEvent_ok [OF inv(1) s1]
  show "callees t' e' (SUBSCRIE_EVENT a t (e, f) s) = callees t' e' s @ (if t' = t \<and> e' = e then [(a, f)] else [])"
    using m(7) [of t' e'] by (simp add: SUBSCRIE_EVENT_def s1 callees_def)
  have "has_model t' (SUBSCRIE_EVENT a t (e, f) s) = has_model t' s" "mvvm_calls (SUBSCRIE_EVENT a t (e, f) s) = mvvm_calls s" for t'
    using SubscribeEvent_has_model [OF inv(4) assms(2) s1] m(6) by (simp_all add: SUBSCRIE_EVENT_def s1 has_model_def)
  then show "subscribing a s (SUBSCRIE_EVENT a t (e, f) s)"
    using SUBSCRIE_EVENT_ok [OF inv(1-3), of t e f] inv(2) by (simp add: subscribing_def Let_def)
qed

lemma SUBSCRIE_EVENTs_step:
  assumes "subscribing a s s" "has_model t s"
  shows "subscribing a s (fold (SUBSCRIE_EVENT a t) subs s) \<and> callees t' e' (fold (SUBSCRIE_EVENT a t) subs s) =
    callees t' e' s @ (if t' = t then map (\<lambda>x. (a, snd x)) (filter (\<lambda>x. fst x = e') subs) else [])"
  using assms
proof (induction subs arbitrary: s)
  case (Cons x subs)
  obtain e f where x: "x = (e, f)"
    by fastforce
  note st = SUBSCRIE_EVENT_step [OF Cons.prems, where e = e and f = f]
  have "has_model t (SUBSCRIE_EVENT a t x s)"
    using st(1) Cons.prems(2) x by (simp add: subscribing_def)
  then show ?case
    using Cons.IH [of "SUBSCRIE_EVENT a t x s"] st subscribing_refl [OF st(1)] x
    by (auto intro: subscribing_trans)
qed (simp add: subscribing_def)

lemma ModelOf_step:
  assumes "subscribing a s s" "ModelOf t s = (found, s')"
  shows "subscribing a s s'" "callees t' e s' = callees t' e s" "found = has_model t s"
proof -
  have inv: "mvvm_inv s"
    using assms(1) by (simp add: subscribing_def)
  then have ok: "models_ok s"
    by (simp add: mvvm_inv_def)
  note m = ModelOf_ok [OF ok assms(2)]
  show "callees t' e s' = callees t' e s"
    using m(2) by (simp add: callees_def)
  show "found = has_model t s"
    using assms(2) by (auto simp: ModelOf_def has_model_def split: option.splits)
  have "has_model t' s' = has_model t' s" for t'
    using assms(2) ok by (auto simp: ModelOf_def has_model_def models_ok_def split: option.splits if_splits)
  moreover have "mvvm_inv s'"
    using inv m(1-5) by (simp add: mvvm_inv_def subs_ok_def ids_ok_def views_ok_def)
  ultimately show "subscribing a s s'"
    using assms(1) m(3-6) by (simp add: subscribing_def)
qed

text \<open>The functions that the blocks of \<open>OnAttach\<close> subscribe to an event, for the types that have a model.\<close>

definition attached :: "nat \<Rightarrow> int \<Rightarrow> int \<Rightarrow> (int \<times> (int \<times> 'f) list) list \<Rightarrow> (nat \<times> 'f) list" where
  "attached a t e blocks = map (\<lambda>x. (a, snd x)) (filter (\<lambda>x. fst x = e) (concat (map snd (filter (\<lambda>b. fst b = t) blocks))))"

lemma subscribe_block_step:
  assumes "subscribing a s s"
  shows "subscribing a s (subscribe_block a b s)"
    "callees t e (subscribe_block a b s) = callees t e s @ (if has_model t s then attached a t e [b] else [])"
proof -
  obtain t' subs where b: "b = (t', subs)"
    by fastforce
  obtain found s1 where s1: "ModelOf t' s = (found, s1)"
    by fastforce
  note m = ModelOf_step [OF assms s1]
  have s: "subscribe_block a b s = (if has_model t' s then fold (SUBSCRIE_EVENT a t') subs s1 else s1)"
    using m(3) by (simp add: subscribe_block_def b s1)
  have hm: "has_model t' s \<Longrightarrow> has_model t' s1"
    using m(1) by (simp add: subscribing_def)
  note f = SUBSCRIE_EVENTs_step [OF subscribing_refl [OF m(1)] hm, where subs = subs]
  show "subscribing a s (subscribe_block a b s)"
    using s f m(1) by (auto intro: subscribing_trans)
  show "callees t e (subscribe_block a b s) = callees t e s @ (if has_model t s then attached a t e [b] else [])"
    using f [where t' = t and e' = e] m(2) unfolding s by (auto simp: b attached_def)
qed

lemma subscribe_blocks_step:
  assumes "subscribing a s s"
  shows "subscribing a s (fold (subscribe_block a) bs s) \<and>
    callees t e (fold (subscribe_block a) bs s) = callees t e s @ (if has_model t s then attached a t e bs else [])"
  using assms
proof (induction bs arbitrary: s)
  case (Cons b bs)
  note st = subscribe_block_step [OF Cons.prems, where b = b]
  have "has_model t (subscribe_block a b s) = has_model t s"
    using st(1) by (simp add: subscribing_def)
  then show ?case
    using Cons.IH [OF subscribing_refl [OF st(1)]] st by (auto simp: attached_def intro: subscribing_trans)
qed (simp add: attached_def)

lemma NotifyBind_step:
  assumes "subscribing a s s"
  shows "subscribing a s (NotifyBind OnAttach w a s)"
    "callees t e (NotifyBind OnAttach w a s) =
      callees t e s @ (if has_model t s then attached a t e (OnAttach (viewmode_type (view_models s ! a))) else [])"
proof -
  let ?s = "upd_vm a (\<lambda>v. v\<lparr>vm_context := Some w\<rparr>) s"
  have "subscribing a s ?s"
    using assms upd_vm_inv [of s "\<lambda>v. v\<lparr>vm_context := Some w\<rparr>" a] by (simp add: subscribing_def nth_upd_vm has_model_def)
  then show "subscribing a s (NotifyBind OnAttach w a s)"
    "callees t e (NotifyBind OnAttach w a s) =
      callees t e s @ (if has_model t s then attached a t e (OnAttach (viewmode_type (view_models s ! a))) else [])"
    using subscribe_blocks_step [OF subscribing_refl, of a s ?s] unfolding NotifyBind_def
    by (auto simp: callees_def has_model_def intro: subscribing_trans)
qed

subsection \<open>Destroying\<close>

lemma ViewModel_delete_ok:
  assumes "mvvm_inv s" "a < length (view_models s)" "\<And>w. map_of (views s) w \<noteq> Some a"
  shows "mvvm_inv (ViewModel_delete a s)" "views (ViewModel_delete a s) = views s"
    "length (view_models (ViewModel_delete a s)) = length (view_models s)"
proof -
  let ?u = "UnSubscrieAllEvent a s" and ?s = "ViewModel_delete a s"
  note u = UnSubscrieAllEvent_ok [OF assms(1,2)]
  have inv: "models_ok ?u" "subs_ok ?u" "ids_ok ?u" "views_ok ?u"
    using u(1) by (simp_all add: mvvm_inv_def)
  have vm: "subscribe_ids (view_models ?s ! b) = subscribe_ids (view_models ?u ! b)"
    "b \<noteq> a \<Longrightarrow> alive (view_models ?s ! b) = alive (view_models ?u ! b)" if "b < length (view_models s)" for b
    using that u(3) by (simp_all add: ViewModel_delete_def nth_upd_vm)
  show vs: "views ?s = views s" and len: "length (view_models ?s) = length (view_models s)"
    using u(3,5) by (simp_all add: ViewModel_delete_def)
  have id: "s_suscribe_id ?s = s_suscribe_id ?u" and ls: "listeners t e ?s = listeners t e ?u" for t e
    by (simp_all add: ViewModel_delete_def)
  have "ids_ok ?s"
    using inv(3) by (simp add: ids_ok_def len u(3) id vm(1))
  moreover have "views_ok ?s"
    using inv(4) assms(3) unfolding views_ok_def len u(3) vs u(5) by (metis vm(2))
  moreover have "subs_ok ?s"
    using inv(2) unfolding subs_ok_def len u(3) ls u(2) by (auto simp: vm)
  ultimately show "mvvm_inv ?s"
    using inv(1) by (simp add: mvvm_inv_def ViewModel_delete_def)
qed

subsection \<open>Operations\<close>

lemma mvvm_inv_calls [simp]: "mvvm_inv (s\<lparr>mvvm_calls := c\<rparr>) = mvvm_inv s"
  by (simp add: mvvm_inv_def models_ok_def subs_ok_def ids_ok_def views_ok_def listeners_def get_model_def)

lemma mvvm_inv_builders [simp]:
  "mvvm_inv (s\<lparr>model_builder := b\<rparr>) = mvvm_inv s" "mvvm_inv (s\<lparr>vm_builder := c\<rparr>) = mvvm_inv s"
  by (simp_all add: mvvm_inv_def models_ok_def subs_ok_def ids_ok_def views_ok_def listeners_def get_model_def)

lemma call_delegates_all:
  "\<forall>d \<in> set ds. sub_vm d < length (view_models s) \<and> alive (view_models s ! sub_vm d) \<Longrightarrow>
    call_delegates e v ds s = Inr (s\<lparr>mvvm_calls := mvvm_calls s @ map (\<lambda>d. Delegate_call (sub_vm d) (sub_func d) e v) ds\<rparr>)"
  by (induction ds arbitrary: s) (simp_all add: call_vm_def)

lemma Model_FireEvent_calls:
  assumes "mvvm_inv s"
  shows "Model_FireEvent t e v s = Inr (s\<lparr>mvvm_calls := mvvm_calls s @ map (\<lambda>(a, f). Delegate_call a f e v) (callees t e s)\<rparr>)"
proof -
  have "Model_FireEvent t e v s = call_delegates e v (listeners t e s) s"
    by (simp add: Model_FireEvent_def listeners_def split: option.split)
  moreover have "\<forall>d \<in> set (listeners t e s). sub_vm d < length (view_models s) \<and> alive (view_models s ! sub_vm d)"
    using assms by (simp add: mvvm_inv_def subs_ok_def)
  ultimately show ?thesis
    by (simp add: call_delegates_all callees_def comp_def)
qed

lemma views_okD:
  assumes "mvvm_inv s" "map_of (views s) w = Some a"
  shows "a < length (view_models s)" "alive (view_models s ! a)" "map_of (views s) w' = Some a \<Longrightarrow> w' = w"
  using assms unfolding mvvm_inv_def views_ok_def by blast+

lemma views_put_inv:
  assumes "mvvm_inv s" "a < length (view_models s)" "alive (view_models s ! a)" "\<And>w. map_of (views s) w \<noteq> Some a"
  shows "mvvm_inv (s\<lparr>views := map_put w a (views s)\<rparr>)"
proof -
  have "views_ok (s\<lparr>views := map_put w a (views s)\<rparr>)"
    using assms by (simp add: mvvm_inv_def views_ok_def) metis
  then show ?thesis
    using assms(1) by (simp add: mvvm_inv_def models_ok_def subs_ok_def ids_ok_def listeners_def get_model_def)
qed

lemma views_erase_inv:
  assumes "mvvm_inv s"
  shows "mvvm_inv (s\<lparr>views := map_erase w (views s)\<rparr>)"
proof -
  have "views_ok (s\<lparr>views := map_erase w (views s)\<rparr>)"
    using assms by (simp add: mvvm_inv_def views_ok_def)
  then show ?thesis
    using assms(1) by (simp add: mvvm_inv_def models_ok_def subs_ok_def ids_ok_def listeners_def get_model_def)
qed

lemma Create_ok:
  assumes "mvvm_inv s" "Create t s = (Some a, s')"
  shows "mvvm_inv s'" "a < length (view_models s')" "alive (view_models s' ! a)" "map_of (views s') w \<noteq> Some a" "views s' = views s"
proof -
  let ?n = "length (view_models s)"
  obtain v where s': "s' = s\<lparr>view_models := view_models s @ [v]\<rparr>" "a = ?n" "alive v" "subscribe_ids v = []"
    using assms(2) by (auto simp: Create_def split: option.splits)
  then show "a < length (view_models s')" "alive (view_models s' ! a)" "views s' = views s"
    by simp_all
  show "map_of (views s') w \<noteq> Some a"
    using views_okD(1) [OF assms(1), of w a] s' by auto
  have inv: "models_ok s" "subs_ok s" "ids_ok s" "views_ok s"
    using assms(1) by (simp_all add: mvvm_inv_def)
  have old: "view_models s' ! b = view_models s ! b" "b < length (view_models s')" if "b < ?n" for b
    using that s' by (simp_all add: nth_append)
  have ids: "map_of (subscribe_ids (view_models s' ! b)) i = Some u \<longleftrightarrow>
      b < ?n \<and> map_of (subscribe_ids (view_models s ! b)) i = Some u" if "b < length (view_models s')" for b i u
    using that s' by (auto simp: nth_append less_Suc_eq)
  have ls: "listeners t e s' = listeners t e s" for t e
    by (simp add: s' listeners_def get_model_def)
  have "models_ok s'"
    using inv(1) by (simp add: s' models_ok_def)
  moreover have "subs_ok s'"
    using inv(2) unfolding subs_ok_def ls by (auto simp: old)
  moreover have "views_ok s'"
    using inv(4) s' unfolding views_ok_def by (auto simp: nth_append less_SucI)
  moreover have "ids_ok s'"
    unfolding ids_ok_def
  proof (intro allI impI conjI)
    fix b assume b: "b < length (view_models s')"
    show "sorted_map (subscribe_ids (view_models s' ! b))"
      using b inv(3) s' by (auto simp: ids_ok_def nth_append less_Suc_eq)
    fix i u assume i: "map_of (subscribe_ids (view_models s' ! b)) i = Some u"
    then show "i \<le> s_suscribe_id s'"
      using ids [OF b] ids_okD(1) [OF inv(3)] s' by auto
    fix c assume c: "c < length (view_models s')" "map_of (subscribe_ids (view_models s' ! c)) i \<noteq> None"
    then show "b = c"
      using i ids [OF b] ids [OF c(1)] ids_okD(2) [OF inv(3), of b i u c] by auto
  qed
  ultimately show "mvvm_inv s'"
    by (simp add: mvvm_inv_def)
qed

lemma CreateVM_inv:
  assumes "mvvm_inv s" "CreateVM w t s = Inr s'"
  shows "mvvm_inv s'"
proof -
  obtain a s1 where s1: "Create t s = (Some a, s1)"
    using assms(2) by (cases "Create t s"; cases "fst (Create t s)") (auto simp: CreateVM_def Let_def)
  note c = Create_ok [OF assms(1) s1]
  let ?s = "s1\<lparr>views := map_put w a (views s1)\<rparr>"
  let ?d = "case map_of (views s) w of Some b \<Rightarrow> ViewModel_delete b ?s | None \<Rightarrow> ?s"
  have inv: "mvvm_inv ?s"
    by (rule views_put_inv [OF c(1-3) c(4)])
  have "mvvm_inv ?d"
  proof (cases "map_of (views s) w")
    case (Some b)
    have "b \<noteq> a" "map_of (views s1) w' = Some b \<Longrightarrow> w' = w" for w'
      using c(4) [of w] Some c(5) views_okD(3) [OF c(1), of w b] by auto
    moreover have "sorted_map (views s1)"
      using c(1) by (simp add: mvvm_inv_def views_ok_def)
    ultimately have "map_of (views ?s) w' \<noteq> Some b" for w'
      by auto
    moreover have "b < length (view_models ?s)"
      using Some c(5) views_okD(1) [OF c(1), of w b] by simp
    ultimately show ?thesis
      using inv Some by (simp add: ViewModel_delete_ok)
  qed (use inv in simp)
  moreover have "s' = BindEvent a (BindPropertyChanged a ?d)"
    using assms(2) s1 by (cases "map_of (views s) w") (simp_all add: CreateVM_def Let_def)
  ultimately show ?thesis
    by (simp add: BindEvent_def BindPropertyChanged_def upd_vm_inv)
qed

lemma BaseView_delete_inv:
  assumes "mvvm_inv s"
  shows "mvvm_inv (BaseView_delete w s)"
proof (cases "map_of (views s) w")
  case (Some a)
  let ?s = "s\<lparr>views := map_erase w (views s)\<rparr>"
  have "map_of (views ?s) w' \<noteq> Some a" for w'
    using views_okD(3) [OF assms Some, of w'] by auto
  then show ?thesis
    using ViewModel_delete_ok(1) [OF views_erase_inv [OF assms], of a w] views_okD(1) [OF assms Some] Some
    by (simp add: BaseView_delete_def)
qed (simp add: BaseView_delete_def assms)

lemma subscribing_views: "mvvm_inv s \<Longrightarrow> map_of (views s) w = Some a \<Longrightarrow> subscribing a s s"
  by (simp add: subscribing_def views_okD)

lemma NotifyUnBind_ok:
  assumes "subscribing a s s"
  shows "mvvm_inv (NotifyUnBind a s)" "callees t e (NotifyUnBind a s) = filter (\<lambda>x. fst x \<noteq> a) (callees t e s)"
    "\<not> property_changed_delegate (view_models (NotifyUnBind a s) ! a)" "\<not> event_fired_delegate (view_models (NotifyUnBind a s) ! a)"
proof -
  let ?s = "upd_vm a (\<lambda>v. v\<lparr>property_changed_delegate := False, event_fired_delegate := False\<rparr>) s"
  have a: "mvvm_inv ?s" "a < length (view_models ?s)"
    using assms by (simp_all add: subscribing_def upd_vm_inv)
  note u = UnSubscrieAllEvent_ok [OF a]
  show "mvvm_inv (NotifyUnBind a s)" "callees t e (NotifyUnBind a s) = filter (\<lambda>x. fst x \<noteq> a) (callees t e s)"
    using u(1,2) by (simp_all add: NotifyUnBind_def callees_def filter_map comp_def)
  show "\<not> property_changed_delegate (view_models (NotifyUnBind a s) ! a)" "\<not> event_fired_delegate (view_models (NotifyUnBind a s) ! a)"
    using u(4) [OF a(2)] a(2) by (simp_all add: NotifyUnBind_def nth_upd_vm)
qed

lemma mvvm_exec_inv:
  assumes "mvvm_inv s"
  shows "mvvm_exec OnAttach op s = Inr s' \<Longrightarrow> mvvm_inv s'" "mvvm_exec OnAttach op s \<noteq> Inl Dangling"
proof -
  have bind: "mvvm_inv (NotifyBind OnAttach w a s)" "mvvm_inv (NotifyUnBind a s)" if "map_of (views s) w = Some a" for w a
    using NotifyBind_step(1) [OF subscribing_views [OF assms that], of OnAttach w]
      NotifyUnBind_ok(1) [OF subscribing_views [OF assms that]] by (simp_all add: subscribing_def)
  show "mvvm_exec OnAttach op s = Inr s' \<Longrightarrow> mvvm_inv s'"
    using assms bind CreateVM_inv BaseView_delete_inv
    by (cases op) (auto simp: RegisterModel_def RegisterViewModel_def BindVM_def UnBindVM_def Model_FireEvent_calls SetProperty_def
        VM_FireEvent_def split: option.splits)
  show "mvvm_exec OnAttach op s \<noteq> Inl Dangling"
    using assms by (cases op) (auto simp: CreateVM_def Let_def BindVM_def UnBindVM_def Model_FireEvent_calls split: option.splits prod.splits)
qed

lemma mvvm_reach_inv: "mvvm_reach OnAttach s \<Longrightarrow> mvvm_inv s"
  by (induction rule: mvvm_reach.induct) (auto simp: mvvm_inv_start intro: mvvm_exec_inv(1))

subsection \<open>Where the subscriptions come from\<close>

definition subs_from :: "(int \<Rightarrow> (int \<times> (int \<times> 'f) list) list) \<Rightarrow> 'f mvvm \<Rightarrow> bool" where
  "subs_from OnAttach s \<longleftrightarrow> (\<forall>t e. \<forall>(a, f) \<in> set (callees t e s). \<exists>cls. (a, f) \<in> set (attached a t e (OnAttach cls)))"

lemma callees_cong [simp]:
  "callees t e (s\<lparr>mvvm_calls := c\<rparr>) = callees t e s" "callees t e (s\<lparr>model_builder := b\<rparr>) = callees t e s"
  "callees t e (s\<lparr>vm_builder := bs\<rparr>) = callees t e s" "callees t e (s\<lparr>views := vs\<rparr>) = callees t e s"
  "callees t e (s\<lparr>view_models := vms\<rparr>) = callees t e s" "callees t e (upd_vm a g s) = callees t e s"
  by (simp_all add: callees_def listeners_def get_model_def upd_vm_def)

lemma subs_from_mono:
  "subs_from OnAttach s \<Longrightarrow> (\<And>t e. set (callees t e s') \<subseteq> set (callees t e s)) \<Longrightarrow> subs_from OnAttach s'"
  unfolding subs_from_def by blast

lemma ViewModel_delete_callees:
  assumes "mvvm_inv s" "a < length (view_models s)"
  shows "set (callees t e (ViewModel_delete a s)) \<subseteq> set (callees t e s)"
  using UnSubscrieAllEvent_ok(2) [OF assms] by (auto simp: ViewModel_delete_def) (auto simp: callees_def)

lemma CreateVM_callees:
  assumes "mvvm_inv s" "CreateVM w t' s = Inr s'"
  shows "set (callees t e s') \<subseteq> set (callees t e s)"
proof -
  obtain a s1 where s1: "Create t' s = (Some a, s1)"
    using assms(2) by (cases "Create t' s"; cases "fst (Create t' s)") (auto simp: CreateVM_def Let_def)
  note c = Create_ok [OF assms(1) s1]
  have e: "callees t e s1 = callees t e s"
    using s1 by (auto simp: Create_def split: option.splits)
  show ?thesis
  proof (cases "map_of (views s) w")
    case None
    then show ?thesis
      using assms(2) s1 e by (auto simp: CreateVM_def Let_def BindEvent_def BindPropertyChanged_def)
  next
    case (Some b)
    have "b < length (view_models s1)"
      using Some c(5) views_okD(1) [OF c(1), of w b] by simp
    then show ?thesis
      using assms(2) s1 e Some ViewModel_delete_callees [OF views_put_inv [OF c(1-3) c(4)], of b w t e]
      by (auto simp: CreateVM_def Let_def BindEvent_def BindPropertyChanged_def)
  qed
qed

lemma BaseView_delete_callees:
  "mvvm_inv s \<Longrightarrow> set (callees t e (BaseView_delete w s)) \<subseteq> set (callees t e s)"
  using ViewModel_delete_callees [OF views_erase_inv, of s _ w t e]
  by (auto simp: BaseView_delete_def views_okD split: option.splits)

lemma subs_from_bind:
  assumes "mvvm_inv s" "subs_from OnAttach s" "map_of (views s) w = Some a"
  shows "subs_from OnAttach (NotifyBind OnAttach w a s)"
proof -
  have "set (callees t e (NotifyBind OnAttach w a s)) \<subseteq> set (callees t e s) \<union>
      set (attached a t e (OnAttach (viewmode_type (view_models s ! a))))" for t e
    using NotifyBind_step(2) [OF subscribing_views [OF assms(1,3)], of t e OnAttach w] by auto
  moreover have "x \<in> set (attached a t e bs) \<Longrightarrow> fst x = a" for x t e and bs :: "(int \<times> (int \<times> 'a) list) list"
    by (auto simp: attached_def)
  ultimately show ?thesis
    using assms(2) unfolding subs_from_def by (fastforce simp: case_prod_beta)
qed

lemma mvvm_exec_subs_from:
  assumes "mvvm_inv s" "subs_from OnAttach s" "mvvm_exec OnAttach op s = Inr s'"
  shows "subs_from OnAttach s'"
proof -
  have un: "set (callees t e (NotifyUnBind a s)) \<subseteq> set (callees t e s)" if "map_of (views s) w = Some a" for t e w a
    using NotifyUnBind_ok(2) [OF subscribing_views [OF assms(1) that]] by auto
  have "set (callees t e s') \<subseteq> set (callees t e s)" if "\<And>w. op \<noteq> Op_BindVM w" for t e
    using assms(3) that
    by (cases op) (auto simp: assms(1) RegisterModel_def RegisterViewModel_def UnBindVM_def Model_FireEvent_calls SetProperty_def
        VM_FireEvent_def split: option.splits if_splits
        intro: un [THEN subsetD] CreateVM_callees [OF assms(1), THEN subsetD] BaseView_delete_callees [OF assms(1), THEN subsetD])
  moreover have "subs_from OnAttach s'" if "op = Op_BindVM w" for w
    using assms that subs_from_bind by (auto simp: BindVM_def split: option.splits)
  ultimately show ?thesis
    using subs_from_mono [OF assms(2)] by blast
qed

lemma mvvm_reach_subs_from: "mvvm_reach OnAttach s \<Longrightarrow> subs_from OnAttach s"
proof (induction rule: mvvm_reach.induct)
  case mvvm_init
  show ?case
    by (simp add: subs_from_def mvvm_start_def callees_def listeners_def get_model_def)
qed (blast intro: mvvm_exec_subs_from mvvm_reach_inv)

section \<open>Delivery\<close>


text \<open>A view model of type 17 subscribes the function \<open>True\<close> to event 26 of the model of type 9.\<close>

definition sample_attach :: "int \<Rightarrow> (int \<times> (int \<times> bool) list) list" where
  "sample_attach t = (if t = 17 then [(9, [(26, True)])] else [])"

definition sample_view :: "bool mvvm" where
  "sample_view = mvvm_start\<lparr>model_builder := [(9, ())], vm_builder := [(17, 17)], views := [(0, 0)],
    view_models := [\<lparr>viewmode_type = 17, subscribe_ids = [], property_changed_delegate = True, event_fired_delegate = True,
      vm_context = None, alive = True\<rparr>]\<rparr>"

definition sample_bound :: "bool mvvm" where
  "sample_bound = sample_view\<lparr>models := [(9, [(26, [\<lparr>sub_vm = 0, sub_func = True, sub_id = 1\<rparr>])])], s_suscribe_id := 1,
    view_models := [\<lparr>viewmode_type = 17, subscribe_ids = [(1, 9)], property_changed_delegate = True, event_fired_delegate = True,
      vm_context = Some 0, alive = True\<rparr>]\<rparr>"

lemma reach_sample_view: "mvvm_reach sample_attach sample_view"
proof -
  have "mvvm_reach sample_attach (RegisterModel 9 (RegisterViewModel 17 17 mvvm_start))"
    by (rule mvvm_next [OF mvvm_next [OF mvvm_init]]) (rule mvvm_exec.simps)+
  then show ?thesis
    by (rule mvvm_next [where op = "Op_CreateVM 0 17"])
      (simp add: CreateVM_def Create_def RegisterModel_def RegisterViewModel_def mvvm_start_def BindEvent_def BindPropertyChanged_def
        upd_vm_def sample_view_def)
qed

lemma BindVM_sample: "BindVM sample_attach 0 sample_view = Inr sample_bound"
  by (simp add: sample_view_def sample_bound_def BindVM_def NotifyBind_def sample_attach_def subscribe_block_def SUBSCRIE_EVENT_def
      SubscribeEvent_def ModelOf_def get_model_def set_model_def upd_vm_def mvvm_start_def)

lemma reach_sample_bound: "mvvm_reach sample_attach sample_bound"
  by (rule mvvm_next [OF reach_sample_view, where op = "Op_BindVM 0"]) (simp add: BindVM_sample)


text \<open>C35.  Binding the view model of a view adds to the functions an event calls those that its \<open>OnAttach\<close>
  subscribes, after the ones that are there, for every type that has a model.  Unbinding it removes all of its
  functions and no others, and from then on it tells its view neither properties nor events.\<close>

theorem mvvm_bind_unbind:
  assumes "mvvm_reach OnAttach s" "map_of (views s) w = Some a"
  shows "(\<exists>s'. BindVM OnAttach w s = Inr s' \<and> callees t e s' =
      callees t e s @ (if has_model t s then attached a t e (OnAttach (viewmode_type (view_models s ! a))) else [])) \<and>
    (\<exists>s'. UnBindVM w s = Inr s' \<and> callees t e s' = filter (\<lambda>x. fst x \<noteq> a) (callees t e s) \<and>
      SetProperty a p v s' = s' \<and> VM_FireEvent a p v s' = s')"
proof -
  have sub: "subscribing a s s"
    using mvvm_reach_inv [OF assms(1)] assms(2) by (rule subscribing_views)
  show ?thesis
    using NotifyBind_step(2) [OF sub, of t e OnAttach w] NotifyUnBind_ok(2-) [OF sub] assms(2)
    by (simp add: BindVM_def UnBindVM_def SetProperty_def VM_FireEvent_def)
qed

theorem mvvm_bind_unbind_witness:
  "(\<exists>s'. BindVM sample_attach 0 sample_bound = Inr s' \<and> callees 9 26 s' = [(0, True), (0, True)]) \<and>
   (\<exists>s'. UnBindVM 0 sample_bound = Inr s' \<and> callees 9 26 s' = [] \<and> SetProperty 0 31 (ParamInt32 1) s' = s')"
proof -
  have "callees 9 26 sample_bound = [(0, True)]" "map_of (views sample_bound) 0 = Some 0" "has_model 9 sample_bound"
    "viewmode_type (view_models sample_bound ! 0) = 17"
    by (simp_all add: callees_def listeners_def get_model_def has_model_def sample_bound_def sample_view_def mvvm_start_def)
  then show ?thesis
    using mvvm_bind_unbind [OF reach_sample_bound, of 0 0 9 26 31 "ParamInt32 1"] by (auto simp: attached_def sample_attach_def)
qed

end
