(* ===== verification/AppLogic.thy ===== *)
theory AppLogic
  imports MvvmSpec
begin

text \<open>
  The classes of \<open>src/app/logic\<close> on the framework of theory \<open>Mvvm\<close>: the model and the view model of the main
  window, and their registration.  The values of the enumerations are line numbers of \<open>logic_define.h\<close>.
\<close>

definition kModelMain :: int where "kModelMain = 9"
definition kViewModelMain :: int where "kViewModelMain = 17"
definition kEventLogin :: int where "kEventLogin = 26"
definition kEventLogout :: int where "kEventLogout = 27"

lemmas app_ids = kModelMain_def kViewModelMain_def kEventLogin_def kEventLogout_def

text \<open>The functions of the view model that are subscribed to events.\<close>

datatype main_func = OnLoginComplete

definition Application_Init :: "main_func mvvm \<Rightarrow> main_func mvvm" where
  "Application_Init s = RegisterModel kModelMain (RegisterViewModel kViewModelMain kViewModelMain s)"

section \<open>The model\<close>

definition MainModel_HandleLogin :: "message \<Rightarrow> main_func mvvm \<Rightarrow> mvvm_fault + main_func mvvm" where
  "MainModel_HandleLogin v s = Model_FireEvent kModelMain kEventLogin (ParamString ''login sucess'') s"

definition MainModel_HandleLogout :: "message \<Rightarrow> main_func mvvm \<Rightarrow> mvvm_fault + main_func mvvm" where
  "MainModel_HandleLogout v s = Model_FireEvent kModelMain kEventLogout (ParamInt32 1) s"

definition MainModel_HandleEvent :: "int \<Rightarrow> message \<Rightarrow> main_func mvvm \<Rightarrow> mvvm_fault + main_func mvvm" where
  "MainModel_HandleEvent event v s =
    (if event = kEventLogin then MainModel_HandleLogin v s
     else if event = kEventLogout then MainModel_HandleLogout v s
     else Inr s)"

text \<open>\<open>Model::Call\<close> on the model of type \<open>kModelMain\<close>.\<close>

definition Model_Call :: "int \<Rightarrow> message \<Rightarrow> main_func mvvm \<Rightarrow> mvvm_fault + main_func mvvm" where
  "Model_Call event v s = MainModel_HandleEvent event v s"

section \<open>The view model\<close>

definition MainViewModel_OnAttach :: "(int \<times> (int \<times> main_func) list) list" where
  "MainViewModel_OnAttach = [(kModelMain, [(kEventLogin, OnLoginComplete)])]"

text \<open>\<open>OnAttach\<close> of the class of a view model.\<close>

definition app_attach :: "int \<Rightarrow> (int \<times> (int \<times> main_func) list) list" where
  "app_attach cls = (if cls = kViewModelMain then MainViewModel_OnAttach else [])"

definition MainViewModel_HandleLogin :: "message \<Rightarrow> main_func mvvm \<Rightarrow> mvvm_fault + main_func mvvm" where
  "MainViewModel_HandleLogin v s =
    (let (model, s) = ModelOf kModelMain s in if model then Model_Call kEventLogin v s else Inr s)"

definition MainViewModel_HandleLogout :: "message \<Rightarrow> main_func mvvm \<Rightarrow> mvvm_fault + main_func mvvm" where
  "MainViewModel_HandleLogout v s =
    (let (model, s) = ModelOf kModelMain s in if model then Model_Call kEventLogout v s else Inr s)"

definition MainViewModel_OnEventFired :: "int \<Rightarrow> message \<Rightarrow> main_func mvvm \<Rightarrow> mvvm_fault + main_func mvvm" where
  "MainViewModel_OnEventFired event v s =
    (if event = kEventLogin then MainViewModel_HandleLogin v s
     else if event = kEventLogout then MainViewModel_HandleLogout v s
     else Inr s)"

text \<open>\<open>HandleEvent\<close> of the base class, called by the view \<open>w\<close> on its view model.\<close>

definition ViewModel_HandleEvent :: "nat \<Rightarrow> int \<Rightarrow> message \<Rightarrow> main_func mvvm \<Rightarrow> mvvm_fault + main_func mvvm" where
  "ViewModel_HandleEvent w event v s =
    (case map_of (views s) w of
       None \<Rightarrow> Inl Null_pointer
     | Some a \<Rightarrow> if viewmode_type (view_models s ! a) = kViewModelMain then MainViewModel_OnEventFired event v s else Inr s)"

section \<open>The functions for Java\<close>

text \<open>The native functions of \<open>src/mvvm/native-lib.ipp\<close> on the view at address \<open>w\<close>: the Java object of an activity keeps the
  address, creates and binds the view model, and at the end unbinds it and deletes the view.\<close>

definition NativeCreateViewModel :: "nat \<Rightarrow> int \<Rightarrow> main_func mvvm \<Rightarrow> mvvm_fault + main_func mvvm" where
  "NativeCreateViewModel w t s = CreateVM w t s"

definition NativeBindViewModel :: "nat \<Rightarrow> main_func mvvm \<Rightarrow> mvvm_fault + main_func mvvm" where
  "NativeBindViewModel w s = BindVM app_attach w s"

definition NativeUnbindViewModel :: "nat \<Rightarrow> main_func mvvm \<Rightarrow> mvvm_fault + main_func mvvm" where
  "NativeUnbindViewModel w s = (case UnBindVM w s of Inl f \<Rightarrow> Inl f | Inr s \<Rightarrow> Inr (BaseView_delete w s))"

lemma native_unbind:
  assumes "mvvm_reach app_attach s" "map_of (views s) w = Some a"
  shows "\<exists>s'. NativeUnbindViewModel w s = Inr s' \<and> mvvm_reach app_attach s' \<and> (\<forall>t e f. (a, f) \<notin> set (callees t e s'))"
proof -
  let ?s = "NotifyUnBind a s"
  have inv: "mvvm_inv s"
    using assms(1) by (rule mvvm_reach_inv)
  note u = NotifyUnBind_ok [OF subscribing_views [OF inv assms(2)]]
  have "UnBindVM w s = Inr ?s"
    using assms(2) by (simp add: UnBindVM_def)
  then have "NativeUnbindViewModel w s = Inr (BaseView_delete w ?s)" "mvvm_reach app_attach ?s"
    using mvvm_next [OF assms(1), of "Op_UnBindVM w" ?s] by (simp_all add: NativeUnbindViewModel_def)
  moreover from this(2) have "mvvm_reach app_attach (BaseView_delete w ?s)"
    by (rule mvvm_next [of _ _ "Op_delete w"]) simp
  moreover have "(a, f) \<notin> set (callees t e (BaseView_delete w ?s))" for t e f
    using BaseView_delete_callees [OF u(1), of t e w] u(2) [of t e] by auto
  ultimately show ?thesis
    by blast
qed

section \<open>Who hears of what\<close>

lemma app_attached: "x \<in> set (attached a t e (app_attach cls)) \<Longrightarrow> t = kModelMain \<and> e = kEventLogin \<and> x = (a, OnLoginComplete)"
  by (auto simp: attached_def app_attach_def MainViewModel_OnAttach_def split: if_splits)

lemma app_callees:
  assumes "mvvm_reach app_attach s" "(a, f) \<in> set (callees t e s)"
  shows "t = kModelMain \<and> e = kEventLogin \<and> alive (view_models s ! a)"
proof -
  have "subs_from app_attach s" "subs_ok s"
    using mvvm_reach_subs_from [OF assms(1)] mvvm_reach_inv [OF assms(1)] by (simp_all add: mvvm_inv_def)
  then show ?thesis
    using assms(2) app_attached [of "(a, f)" a t e] by (fastforce simp: subs_from_def subs_ok_def callees_def)
qed

lemma Model_FireEvent_ModelOf:
  assumes "mvvm_inv s" "ModelOf t s = (found, s')"
  shows "Model_FireEvent t e v s' = Inr (s'\<lparr>mvvm_calls := mvvm_calls s @ map (\<lambda>(a, f). Delegate_call a f e v) (callees t e s)\<rparr>)"
proof -
  have ok: "models_ok s"
    using assms(1) by (simp add: mvvm_inv_def)
  note m = ModelOf_ok [OF ok assms(2)]
  have "mvvm_inv s'"
    using assms(1) m(1-5) by (simp add: mvvm_inv_def subs_ok_def ids_ok_def views_ok_def)
  then show ?thesis
    using m(2,6) by (simp add: Model_FireEvent_calls callees_def)
qed

text \<open>C36.  A login that a main view hands to its view model passes through the main model and is announced as
  ``login sucess'' once to every subscription of every bound main view model, in order, each of them alive; a logout
  and any other event is announced to nobody, because no view model subscribes to it.\<close>

theorem app_event_delivery:
  assumes "mvvm_reach app_attach s" "has_model kModelMain s" "map_of (views s) w = Some a"
    "viewmode_type (view_models s ! a) = kViewModelMain"
  shows "\<exists>s'. ViewModel_HandleEvent w event v s = Inr s' \<and> mvvm_calls s' = mvvm_calls s @
      (if event = kEventLogin
       then map (\<lambda>(b, _). Delegate_call b OnLoginComplete kEventLogin (ParamString ''login sucess'')) (callees kModelMain kEventLogin s)
       else []) \<and>
    (\<forall>(b, _) \<in> set (callees kModelMain kEventLogin s). alive (view_models s ! b))"
proof -
  obtain found s1 where s1: "ModelOf kModelMain s = (found, s1)"
    by fastforce
  have inv: "mvvm_inv s"
    using assms(1) by (rule mvvm_reach_inv)
  have found: "found"
    using s1 assms(2) by (auto simp: ModelOf_def has_model_def split: option.splits)
  have "callees kModelMain kEventLogout s = []"
    using app_callees [OF assms(1), of "fst x" "snd x" kModelMain kEventLogout for x] kEventLogin_def kEventLogout_def
    by (cases "callees kModelMain kEventLogout s") auto
  moreover have "\<forall>(b, _) \<in> set (callees kModelMain kEventLogin s). alive (view_models s ! b)"
    using app_callees [OF assms(1)] by blast
  moreover have "(\<lambda>(b, f). Delegate_call b f kEventLogin u) = (\<lambda>(b, _). Delegate_call b OnLoginComplete kEventLogin u)" for u
    using main_func.exhaust by (intro ext) (auto split: prod.split)
  ultimately show ?thesis
    using assms(3,4) s1 found Model_FireEvent_ModelOf [OF inv s1] ModelOf_ok(6) [OF _ s1] inv
    by (auto simp: ViewModel_HandleEvent_def MainViewModel_OnEventFired_def MainViewModel_HandleLogin_def MainViewModel_HandleLogout_def
        Model_Call_def MainModel_HandleEvent_def MainModel_HandleLogin_def MainModel_HandleLogout_def mvvm_inv_def)
qed

definition app_bound :: "main_func mvvm" where
  "app_bound = mvvm_start\<lparr>model_builder := [(kModelMain, ())], vm_builder := [(kViewModelMain, kViewModelMain)], views := [(0, 0)],
    models := [(kModelMain, [(kEventLogin, [\<lparr>sub_vm = 0, sub_func = OnLoginComplete, sub_id = 1\<rparr>])])], s_suscribe_id := 1,
    view_models := [\<lparr>viewmode_type = kViewModelMain, subscribe_ids = [(1, kModelMain)], property_changed_delegate = True,
      event_fired_delegate = True, vm_context = Some 0, alive = True\<rparr>]\<rparr>"

lemma reach_app_bound: "mvvm_reach app_attach app_bound"
proof -
  have "mvvm_reach app_attach (Application_Init mvvm_start)"
    unfolding Application_Init_def by (rule mvvm_next [OF mvvm_next [OF mvvm_init]]) (rule mvvm_exec.simps)+
  then have "mvvm_reach app_attach (app_bound\<lparr>models := [], s_suscribe_id := 0,
      view_models := [\<lparr>viewmode_type = kViewModelMain, subscribe_ids = [], property_changed_delegate = True,
        event_fired_delegate = True, vm_context = None, alive = True\<rparr>]\<rparr>)"
    by (rule mvvm_next [where op = "Op_CreateVM 0 kViewModelMain"])
      (simp add: Application_Init_def CreateVM_def Create_def RegisterModel_def RegisterViewModel_def mvvm_start_def BindEvent_def
        BindPropertyChanged_def upd_vm_def app_bound_def)
  then show ?thesis
    by (rule mvvm_next [where op = "Op_BindVM 0"])
      (simp add: app_bound_def BindVM_def NotifyBind_def app_attach_def MainViewModel_OnAttach_def subscribe_block_def SUBSCRIE_EVENT_def
      SubscribeEvent_def ModelOf_def get_model_def set_model_def upd_vm_def mvvm_start_def)
qed

theorem app_event_delivery_witness:
  "\<exists>s'. ViewModel_HandleEvent 0 kEventLogin (ParamBool True) app_bound = Inr s' \<and>
    mvvm_calls s' = [Delegate_call 0 OnLoginComplete kEventLogin (ParamString ''login sucess'')]"
  using app_event_delivery [OF reach_app_bound, of 0 0 kEventLogin "ParamBool True"]
  by (simp add: app_bound_def mvvm_start_def callees_def listeners_def get_model_def has_model_def)

end
