(* ===== verification/Dialog.thy ===== *)
theory Dialog
  imports AppLogic
begin

text \<open>
  The dialog of \<open>src/app/ui\<close> on the application logic: the two edit controls with the members they are exchanged with, the
  notifications of the view model, and the handlers of the buttons.  What the framework of the windows does with menus, icons
  and painting is left out.
\<close>

definition kPropertyUserName :: int where "kPropertyUserName = 31"
definition kPropertyPasswd :: int where "kPropertyPasswd = 32"

section \<open>The dialog\<close>

text \<open>A wide string, and the dialog with the texts of its controls.\<close>

type_synonym wtext = "16 word list"

record CMFCMVVMDlg =
  dlg_username :: wtext
  dlg_value :: wtext
  edit_username :: wtext
  edit_passwd :: wtext

definition CMFCMVVMDlg_new :: CMFCMVVMDlg where
  "CMFCMVVMDlg_new = \<lparr>dlg_username = [], dlg_value = [], edit_username = [], edit_passwd = []\<rparr>"

text \<open>\<open>UpdateData\<close> runs \<open>DoDataExchange\<close>, with \<open>True\<close> from the controls to the members.\<close>

definition DoDataExchange :: "bool \<Rightarrow> CMFCMVVMDlg \<Rightarrow> CMFCMVVMDlg" where
  "DoDataExchange save d =
    (if save then d\<lparr>dlg_username := edit_username d, dlg_value := edit_passwd d\<rparr>
     else d\<lparr>edit_username := dlg_username d, edit_passwd := dlg_value d\<rparr>)"

text \<open>A message is cast to the class that is expected; with a message of another class the behaviour is undefined.\<close>

datatype dlg_fault = Bad_cast | Mvvm_fault mvvm_fault

definition OnUserNameChange :: "(string \<Rightarrow> wtext) \<Rightarrow> message \<Rightarrow> CMFCMVVMDlg \<Rightarrow> dlg_fault + CMFCMVVMDlg" where
  "OnUserNameChange to_unicode v d =
    (case v of ParamString s \<Rightarrow> Inr (DoDataExchange False (d\<lparr>dlg_username := to_unicode s\<rparr>)) | _ \<Rightarrow> Inl Bad_cast)"

definition login_succeeded :: wtext where
  "login_succeeded = [0x767B, 0x5F55, 0x6210, 0x529F]"

definition login_failed :: wtext where
  "login_failed = [0x767B, 0x5F55, 0x5931, 0x8D25]"

definition OnPasswdChange :: "message \<Rightarrow> CMFCMVVMDlg \<Rightarrow> dlg_fault + CMFCMVVMDlg" where
  "OnPasswdChange v d =
    (case v of
       ParamInt32 i \<Rightarrow> Inr (DoDataExchange False (d\<lparr>dlg_value := (if i = 0 then login_succeeded else login_failed)\<rparr>))
     | _ \<Rightarrow> Inl Bad_cast)"

definition dlg_OnPropertyChanged :: "(string \<Rightarrow> wtext) \<Rightarrow> int \<Rightarrow> message \<Rightarrow> CMFCMVVMDlg \<Rightarrow> dlg_fault + CMFCMVVMDlg" where
  "dlg_OnPropertyChanged to_unicode p v d =
    (if p = kPropertyUserName then OnUserNameChange to_unicode v d
     else if p = kPropertyPasswd then OnPasswdChange v d
     else Inr d)"

definition OnLogin :: "message \<Rightarrow> CMFCMVVMDlg \<Rightarrow> CMFCMVVMDlg" where
  "OnLogin v d = d"

definition OnLogout :: "message \<Rightarrow> CMFCMVVMDlg \<Rightarrow> CMFCMVVMDlg" where
  "OnLogout v d = d"

definition dlg_OnEventFired :: "int \<Rightarrow> message \<Rightarrow> CMFCMVVMDlg \<Rightarrow> CMFCMVVMDlg" where
  "dlg_OnEventFired e v d = (if e = kEventLogin then OnLogin v d else if e = kEventLogout then OnLogout v d else d)"

section \<open>Sessions\<close>

text \<open>The body of \<open>MainViewModel::OnLoginComplete\<close> is empty; the other calls are those of the view.\<close>

fun dlg_call :: "(string \<Rightarrow> wtext) \<Rightarrow> main_func mvvm_call \<Rightarrow> CMFCMVVMDlg \<Rightarrow> dlg_fault + CMFCMVVMDlg" where
  "dlg_call to_unicode (Delegate_call a OnLoginComplete e v) d = Inr d"
| "dlg_call to_unicode (OnPropertyChanged a p v) d = dlg_OnPropertyChanged to_unicode p v d"
| "dlg_call to_unicode (OnEventFired a e v) d = Inr (dlg_OnEventFired e v d)"

fun dlg_calls :: "(string \<Rightarrow> wtext) \<Rightarrow> main_func mvvm_call list \<Rightarrow> CMFCMVVMDlg \<Rightarrow> dlg_fault + CMFCMVVMDlg" where
  "dlg_calls to_unicode [] d = Inr d"
| "dlg_calls to_unicode (c # cs) d = (case dlg_call to_unicode c d of Inl f \<Rightarrow> Inl f | Inr d \<Rightarrow> dlg_calls to_unicode cs d)"

text \<open>The end of \<open>OnInitDialog\<close>.\<close>

definition OnInitDialog :: "nat \<Rightarrow> main_func mvvm \<Rightarrow> mvvm_fault + main_func mvvm" where
  "OnInitDialog w s = (case CreateVM w kViewModelMain s of Inl f \<Rightarrow> Inl f | Inr s \<Rightarrow> BindVM app_attach w s)"

text \<open>A button hands its event to the view model with the null pointer, here \<open>nothing\<close>, as the message.\<close>

definition OnBnClicked ::
  "(string \<Rightarrow> wtext) \<Rightarrow> message \<Rightarrow> nat \<Rightarrow> int \<Rightarrow> CMFCMVVMDlg \<times> main_func mvvm \<Rightarrow> dlg_fault + CMFCMVVMDlg \<times> main_func mvvm" where
  "OnBnClicked to_unicode nothing w event x =
    (case ViewModel_HandleEvent w event nothing (snd x) of
       Inl f \<Rightarrow> Inl (Mvvm_fault f)
     | Inr s \<Rightarrow>
         (case dlg_calls to_unicode (drop (length (mvvm_calls (snd x))) (mvvm_calls s)) (fst x) of
            Inl f \<Rightarrow> Inl f
          | Inr d \<Rightarrow> Inr (d, s)))"

text \<open>What the user does.  An edit of the name updates the members, an edit of the password does not.\<close>

datatype user_input = Click_login | Click_logout | Type_username wtext | Type_passwd wtext

definition OnEnChangeEditUsername :: "CMFCMVVMDlg \<Rightarrow> CMFCMVVMDlg" where
  "OnEnChangeEditUsername d = DoDataExchange True d"

definition OnEnChangeEditPasswd :: "CMFCMVVMDlg \<Rightarrow> CMFCMVVMDlg" where
  "OnEnChangeEditPasswd d = d"

fun dlg_input ::
  "(string \<Rightarrow> wtext) \<Rightarrow> message \<Rightarrow> nat \<Rightarrow> user_input \<Rightarrow> CMFCMVVMDlg \<times> main_func mvvm \<Rightarrow> dlg_fault + CMFCMVVMDlg \<times> main_func mvvm" where
  "dlg_input to_unicode nothing w Click_login x = OnBnClicked to_unicode nothing w kEventLogin x"
| "dlg_input to_unicode nothing w Click_logout x = OnBnClicked to_unicode nothing w kEventLogout x"
| "dlg_input to_unicode nothing w (Type_username t) x = Inr (OnEnChangeEditUsername (fst x\<lparr>edit_username := t\<rparr>), snd x)"
| "dlg_input to_unicode nothing w (Type_passwd t) x = Inr (OnEnChangeEditPasswd (fst x\<lparr>edit_passwd := t\<rparr>), snd x)"

fun dlg_session ::
  "(string \<Rightarrow> wtext) \<Rightarrow> message \<Rightarrow> nat \<Rightarrow> user_input list \<Rightarrow> CMFCMVVMDlg \<times> main_func mvvm \<Rightarrow> dlg_fault + CMFCMVVMDlg \<times> main_func mvvm" where
  "dlg_session to_unicode nothing w [] x = Inr x"
| "dlg_session to_unicode nothing w (i # is) x =
    (case dlg_input to_unicode nothing w i x of Inl f \<Rightarrow> Inl f | Inr x \<Rightarrow> dlg_session to_unicode nothing w is x)"

section \<open>What a session does\<close>

text \<open>The announcements of the logins, and what the user has typed last.\<close>

definition login_calls :: "user_input list \<Rightarrow> main_func mvvm_call list" where
  "login_calls is = map (\<lambda>_. Delegate_call 0 OnLoginComplete kEventLogin (ParamString ''login sucess'')) (filter (\<lambda>i. i = Click_login) is)"

fun typed :: "user_input list \<Rightarrow> wtext \<times> wtext \<Rightarrow> wtext \<times> wtext" where
  "typed [] t = t"
| "typed (Type_username n # is) t = typed is (n, snd t)"
| "typed (Type_passwd p # is) t = typed is (fst t, p)"
| "typed (_ # is) t = typed is t"

lemma dlg_calls_delegates: "dlg_calls to_unicode (map (\<lambda>b. Delegate_call (a b) OnLoginComplete e v) bs) d = Inr d"
  by (induction bs) simp_all

text \<open>The state after the start, with the calls that have been made.\<close>

definition dlg_ready :: "main_func mvvm_call list \<Rightarrow> main_func mvvm" where
  "dlg_ready cs = app_bound\<lparr>mvvm_calls := cs\<rparr>"

lemma dlg_start: "OnInitDialog 0 (Application_Init mvvm_start) = Inr (dlg_ready [])"
  by (simp add: OnInitDialog_def Application_Init_def CreateVM_def Create_def RegisterModel_def RegisterViewModel_def mvvm_start_def
      BindEvent_def BindPropertyChanged_def upd_vm_def app_bound_def BindVM_def NotifyBind_def app_attach_def MainViewModel_OnAttach_def
      subscribe_block_def SUBSCRIE_EVENT_def SubscribeEvent_def ModelOf_def get_model_def set_model_def dlg_ready_def)

lemma dlg_login: "ViewModel_HandleEvent 0 kEventLogin v (dlg_ready cs) =
    Inr (dlg_ready (cs @ [Delegate_call 0 OnLoginComplete kEventLogin (ParamString ''login sucess'')]))"
  by (simp add: ViewModel_HandleEvent_def MainViewModel_OnEventFired_def MainViewModel_HandleLogin_def ModelOf_def dlg_ready_def app_bound_def
      mvvm_start_def Model_Call_def MainModel_HandleEvent_def MainModel_HandleLogin_def Model_FireEvent_def get_model_def call_vm_def)

lemma dlg_logout: "ViewModel_HandleEvent 0 kEventLogout v (dlg_ready cs) = Inr (dlg_ready cs)"
  by (simp add: ViewModel_HandleEvent_def MainViewModel_OnEventFired_def MainViewModel_HandleLogout_def ModelOf_def dlg_ready_def app_bound_def
      mvvm_start_def Model_Call_def MainModel_HandleEvent_def MainModel_HandleLogout_def Model_FireEvent_def get_model_def app_ids)

lemma mvvm_calls_dlg_ready [simp]: "mvvm_calls (dlg_ready cs) = cs"
  by (simp add: dlg_ready_def)

lemma dlg_session_ready:
  "dlg_username d = edit_username d \<Longrightarrow> \<exists>d'. dlg_session to_unicode nothing 0 is (d, dlg_ready cs) = Inr (d', dlg_ready (cs @ login_calls is)) \<and>
    (edit_username d', edit_passwd d') = typed is (edit_username d, edit_passwd d) \<and> dlg_username d' = edit_username d'"
proof (induction "is" arbitrary: d cs)
  case Nil
  then show ?case
    by (simp add: login_calls_def)
next
  case (Cons i "is")
  show ?case
  proof (cases i)
    case Click_login
    then show ?thesis
      using Cons.IH [OF Cons.prems, of "cs @ login_calls [i]"] by (simp add: OnBnClicked_def dlg_login login_calls_def)
  next
    case Click_logout
    then show ?thesis
      using Cons.IH [OF Cons.prems, of cs] by (simp add: OnBnClicked_def dlg_logout login_calls_def)
  next
    case (Type_username t)
    then show ?thesis
      using Cons.IH [of "OnEnChangeEditUsername (d\<lparr>edit_username := t\<rparr>)" cs]
      by (simp add: OnEnChangeEditUsername_def DoDataExchange_def login_calls_def)
  next
    case (Type_passwd t)
    then show ?thesis
      using Cons.IH [of "OnEnChangeEditPasswd (d\<lparr>edit_passwd := t\<rparr>)" cs] Cons.prems by (simp add: OnEnChangeEditPasswd_def login_calls_def)
  qed
qed

text \<open>C37.  A session of the dialog.  After the start of the application, whatever the user types and clicks and in whatever order, nothing fails; every click on the
  login button is announced to the view model of the dialog once, and a click on the logout button to nobody; the
  dialog holds the name as it is shown, and its controls show what the user has typed last, so that the outcome of a login is
  never shown.\<close>

theorem dialog_session:
  "\<exists>s d s'. OnInitDialog 0 (Application_Init mvvm_start) = Inr s \<and> dlg_session to_unicode nothing 0 is (CMFCMVVMDlg_new, s) = Inr (d, s') \<and>
    mvvm_calls s' = login_calls is \<and> (edit_username d, edit_passwd d) = typed is ([], []) \<and> dlg_username d = edit_username d"
  using dlg_session_ready [of CMFCMVVMDlg_new to_unicode nothing "is" "[]"] dlg_start by (auto simp: CMFCMVVMDlg_new_def)

text \<open>The member for the password is stale: it holds what the control showed when the name was edited last.\<close>

lemma dialog_passwd_stale:
  "\<exists>d s'. dlg_session to_unicode nothing 0 [Type_username n, Type_passwd p] (CMFCMVVMDlg_new, s) = Inr (d, s') \<and> edit_passwd d = p \<and> dlg_value d = []"
  by (simp add: CMFCMVVMDlg_new_def OnEnChangeEditUsername_def OnEnChangeEditPasswd_def DoDataExchange_def)

text \<open>If the view model did announce the result, the dialog would show it, in the control for the password.\<close>

lemma dialog_shows_result:
  "\<exists>d'. dlg_calls to_unicode [OnPropertyChanged a kPropertyUserName (ParamString n), OnPropertyChanged a kPropertyPasswd (ParamInt32 i)] d = Inr d' \<and>
    edit_username d' = to_unicode n \<and> edit_passwd d' = (if i = 0 then login_succeeded else login_failed)"
  by (simp add: dlg_OnPropertyChanged_def OnUserNameChange_def OnPasswdChange_def DoDataExchange_def kPropertyUserName_def kPropertyPasswd_def)

end
