(* ===== verification/JniEnv.thy ===== *)
theory JniEnv
  imports "HOL-Library.State_Monad" "HOL-Library.Multiset" "HOL-Library.List_Lexorder" "HOL-Library.Char_ord" StdMap
begin

text \<open>
  The view that \<open>src/base/jni_util\<close> has of the Java virtual machine.  The machine is a parameter: a function
  that answers each call of the interface with a reply, which may depend on all calls before it.  The state
  is the trace of the calls and their replies, and what the code itself keeps.  From a trace follow, by the rules of the
  interface, the local references that are live, whether an exception is pending, and whether a function
  was called that must not be called then.
\<close>

section \<open>Calls and replies\<close>

text \<open>References, method and field identifiers and pointers are numbers, 0 is \<open>NULL\<close>.  The first argument of the calls for
  methods and fields tells whether they are static; the character is that of the type.\<close>

datatype jvalue = Jzero | Jref nat | Jnum char int

datatype (plugins only: code) jni_call =
    ExceptionOccurred | ExceptionCheck | ExceptionClear | ExceptionDescribe | ThrowNew nat string | FatalError string
  | FindClass string | GetObjectClass nat | GetMethodID bool nat string string | GetFieldID bool nat string string
  | CallMethod bool char nat nat "jvalue list" | NewObject nat nat "nat list"
  | GetField bool char nat nat | SetField char nat nat jvalue
  | NewGlobalRef nat | DeleteGlobalRef nat | NewLocalRef nat | DeleteLocalRef nat | EnsureLocalCapacity nat
  | GetStringUTFChars nat | ReleaseStringUTFChars nat nat | GetStringLength nat | GetStringUTFRegion nat int int
  | GetStringChars nat | ReleaseStringChars nat nat | NewString "int list" | NewStringUTF string
  | NewByteArray int | SetByteArrayRegion nat string | GetArrayLength nat | GetByteArrayElements nat | ReleaseByteArrayElements nat nat
  | PushLocalFrame int | PopLocalFrame

text \<open>A reply: a reference, a number, the bytes behind a pointer, and whether the call raised an exception.\<close>

record reply =
  ref :: nat
  num :: int
  bytes :: string
  raised :: bool

type_synonym jni_trace = "(jni_call \<times> reply) list"
type_synonym jni_env = "jni_trace \<Rightarrow> jni_call \<Rightarrow> reply"

section \<open>The rules of the interface\<close>

text \<open>The calls that return a new local reference.\<close>

definition returns_local :: "jni_call \<Rightarrow> bool" where
  "returns_local c = (case c of
      ExceptionOccurred \<Rightarrow> True
    | FindClass n \<Rightarrow> True
    | GetObjectClass h \<Rightarrow> True
    | CallMethod st k h m args \<Rightarrow> (k = CHR ''L'')
    | NewObject c m args \<Rightarrow> True
    | GetField st k h f \<Rightarrow> (k = CHR ''L'')
    | NewLocalRef h \<Rightarrow> True
    | NewString s \<Rightarrow> True
    | NewStringUTF s \<Rightarrow> True
    | NewByteArray n \<Rightarrow> True
    | _ \<Rightarrow> False)"

text \<open>The local references of each frame, the innermost first.\<close>

fun delete_local :: "nat \<Rightarrow> nat multiset list \<Rightarrow> nat multiset list" where
  "delete_local h [] = []"
| "delete_local h (L # Ls) = (if h \<in># L then (L - {#h#}) # Ls else L # delete_local h Ls)"

fun add_local :: "nat \<Rightarrow> nat multiset list \<Rightarrow> nat multiset list" where
  "add_local h [] = []"
| "add_local h (L # Ls) = add_mset h L # Ls"

definition locals_after :: "jni_call \<Rightarrow> reply \<Rightarrow> nat multiset list \<Rightarrow> nat multiset list" where
  "locals_after c r L =
    (case c of
       DeleteLocalRef h \<Rightarrow> delete_local h L
     | PushLocalFrame n \<Rightarrow> if num r = 0 then {#} # L else L
     | PopLocalFrame \<Rightarrow> tl L
     | _ \<Rightarrow> if returns_local c \<and> ref r \<noteq> 0 then add_local (ref r) L else L)"

definition pending_after :: "jni_call \<Rightarrow> reply \<Rightarrow> bool \<Rightarrow> bool" where
  "pending_after c r p = (raised r \<or> p \<and> c \<noteq> ExceptionClear \<and> c \<noteq> ExceptionDescribe)"

text \<open>The calls that are allowed while an exception is pending.\<close>

definition exception_safe :: "jni_call \<Rightarrow> bool" where
  "exception_safe c = (case c of
      ExceptionOccurred \<Rightarrow> True
    | ExceptionCheck \<Rightarrow> True
    | ExceptionClear \<Rightarrow> True
    | ExceptionDescribe \<Rightarrow> True
    | DeleteLocalRef h \<Rightarrow> True
    | DeleteGlobalRef h \<Rightarrow> True
    | ReleaseStringUTFChars h p \<Rightarrow> True
    | ReleaseStringChars h p \<Rightarrow> True
    | ReleaseByteArrayElements h p \<Rightarrow> True
    | PushLocalFrame n \<Rightarrow> True
    | PopLocalFrame \<Rightarrow> True
    | _ \<Rightarrow> False)"

definition pend :: "jni_trace \<Rightarrow> bool" where
  "pend tr = fold (\<lambda>(c, r). pending_after c r) tr False"

definition live :: "jni_trace \<Rightarrow> nat multiset list" where
  "live tr = fold (\<lambda>(c, r). locals_after c r) tr [{#}]"

definition misused :: "jni_trace \<Rightarrow> bool" where
  "misused tr \<longleftrightarrow> (\<exists>i < length tr. pend (take i tr) \<and> \<not> exception_safe (fst (tr ! i)))"

text \<open>What the interface says of the reply to a call: which calls raise exceptions, and that they return \<open>NULL\<close> then.\<close>

definition reply_ok :: "jni_call \<Rightarrow> reply \<Rightarrow> bool \<Rightarrow> bool" where
  "reply_ok c r p = (case c of
      ExceptionOccurred \<Rightarrow> ((ref r \<noteq> 0) = p \<and> \<not> raised r)
    | ExceptionCheck \<Rightarrow> ((num r \<noteq> 0) = p \<and> \<not> raised r)
    | ThrowNew h m \<Rightarrow> raised r
    | FindClass n \<Rightarrow> ((ref r = 0) = raised r)
    | GetObjectClass h \<Rightarrow> (ref r \<noteq> 0 \<and> \<not> raised r)
    | GetMethodID st c n s \<Rightarrow> ((ref r = 0) = raised r)
    | GetFieldID st c n s \<Rightarrow> ((ref r = 0) = raised r)
    | CallMethod st k h m args \<Rightarrow> (raised r \<longrightarrow> ref r = 0)
    | NewObject c m args \<Rightarrow> ((ref r = 0) = raised r)
    | NewString s \<Rightarrow> ((ref r = 0) = raised r)
    | NewStringUTF s \<Rightarrow> ((ref r = 0) = raised r)
    | NewByteArray n \<Rightarrow> ((ref r = 0) = raised r)
    | GetStringUTFChars h \<Rightarrow> ((ref r = 0) = raised r)
    | EnsureLocalCapacity n \<Rightarrow> ((num r \<noteq> 0) = raised r)
    | PushLocalFrame n \<Rightarrow> ((num r \<noteq> 0) = raised r)
    | _ \<Rightarrow> (\<not> raised r))"

definition env_ok :: "jni_env \<Rightarrow> bool" where
  "env_ok env \<longleftrightarrow> (\<forall>tr c. reply_ok c (env tr c) (pend tr))"

section \<open>The state of the code\<close>

datatype halt = Overrun | Fatal string

text \<open>\<open>JniMethodInfo\<close> and its order.\<close>

record JniMethodInfo =
  classname :: string
  methodname :: string
  methodsig :: string

record jni =
  trace :: jni_trace
  class_map :: "(string \<times> nat) list"
  class_name_set :: "(string \<times> unit) list"
  static_method_set :: "JniMethodInfo list"
  method_set :: "JniMethodInfo list"
  halted :: "halt option"

text \<open>A call.  Nothing happens any more after a fatal error or a write out of a buffer.\<close>

definition no_reply :: reply where
  "no_reply = \<lparr>ref = 0, num = 0, bytes = [], raised = False\<rparr>"

definition jcall :: "jni_env \<Rightarrow> jni_call \<Rightarrow> (jni, reply) state" where
  "jcall env c = State (\<lambda>s.
    if halted s \<noteq> None then (no_reply, s)
    else let r = env (trace s) c in (r, s\<lparr>trace := trace s @ [(c, r)]\<rparr>))"

definition stop :: "halt \<Rightarrow> (jni, unit) state" where
  "stop h = State (\<lambda>s. ((), s\<lparr>halted := (if halted s = None then Some h else halted s)\<rparr>))"

section \<open>Reasoning about the code\<close>

text \<open>The weakest condition under which the code ends with a condition.\<close>

definition wp :: "('s, 'a) state \<Rightarrow> ('a \<Rightarrow> 's \<Rightarrow> bool) \<Rightarrow> 's \<Rightarrow> bool" where
  "wp m Q s = (case run_state m s of (x, s') \<Rightarrow> Q x s')"

named_theorems wp_intro

lemma wp_bind [wp_intro]: "wp m (\<lambda>x. wp (f x) Q) s \<Longrightarrow> wp (State_Monad.bind m f) Q s"
  by (simp add: wp_def State_Monad.bind_def split: prod.splits)

lemma wp_return [wp_intro]: "Q x s \<Longrightarrow> wp (State_Monad.return x) Q s"
  by (simp add: wp_def State_Monad.return_def)

lemma wp_if [wp_intro]: "(b \<Longrightarrow> wp m Q s) \<Longrightarrow> (\<not> b \<Longrightarrow> wp n Q s) \<Longrightarrow> wp (if b then m else n) Q s"
  by simp

lemma wp_let [wp_intro]: "wp (f v) Q s \<Longrightarrow> wp (let x = v in f x) Q s"
  by simp

lemma wp_mono: "wp m Q s \<Longrightarrow> (\<And>x s'. Q x s' \<Longrightarrow> R x s') \<Longrightarrow> wp m R s"
  by (auto simp: wp_def split: prod.splits)

text \<open>The observations of a state.\<close>

definition pending :: "jni \<Rightarrow> bool" where
  "pending s = pend (trace s)"

definition locals :: "jni \<Rightarrow> nat multiset list" where
  "locals s = live (trace s)"

definition legal :: "jni \<Rightarrow> bool" where
  "legal s \<longleftrightarrow> \<not> misused (trace s)"

lemma pend_snoc: "pend (tr @ [(c, r)]) = pending_after c r (pend tr)"
  by (simp add: pend_def)

lemma live_snoc: "live (tr @ [(c, r)]) = locals_after c r (live tr)"
  by (simp add: live_def)

lemma misused_snoc: "misused (tr @ [(c, r)]) \<longleftrightarrow> misused tr \<or> pend tr \<and> \<not> exception_safe c"
proof -
  have "(\<exists>i < Suc n. P i) \<longleftrightarrow> (\<exists>i < n. P i) \<or> P n" for P and n :: nat
    using less_Suc_eq by auto
  moreover have "pend (take i (tr @ [(c, r)])) = pend (take i tr)" "(tr @ [(c, r)]) ! i = tr ! i" if "i < length tr" for i
    using that by (simp_all add: nth_append)
  ultimately show ?thesis
    by (simp add: misused_def cong: conj_cong)
qed

text \<open>One call, seen through the observations.\<close>

lemma wp_jcall:
  assumes "env_ok env" "halted s = None"
    and "\<And>r s'. reply_ok c r (pending s) \<Longrightarrow> r = env (trace s) c \<Longrightarrow>
      pending s' = pending_after c r (pending s) \<Longrightarrow> locals s' = locals_after c r (locals s) \<Longrightarrow>
      legal s' = (legal s \<and> (pending s \<longrightarrow> exception_safe c)) \<Longrightarrow> halted s' = None \<Longrightarrow> class_map s' = class_map s \<Longrightarrow> Q r s'"
  shows "wp (jcall env c) Q s"
proof -
  let ?r = "env (trace s) c" and ?s = "s\<lparr>trace := trace s @ [(c, env (trace s) c)]\<rparr>"
  have "reply_ok c ?r (pending s)"
    using assms(1) by (simp add: env_ok_def pending_def)
  then have "Q ?r ?s"
    by (rule assms(3)) (auto simp: pending_def locals_def legal_def pend_snoc live_snoc misused_snoc assms(2))
  then show ?thesis
    by (simp add: wp_def jcall_def assms(2) Let_def)
qed

end
