(* ===== verification/VarCache.thy ===== *)
theory VarCache
  imports JniEnv
begin

text \<open>
  \<open>VarCache\<close> of \<open>src/base/jni_util/var_cache.cc\<close>: the cache of global references to classes, the lookup of methods and
  fields, and the sets of classes and methods that are loaded at the start.  The code is compiled without the
  caches of methods and fields (\<open>USE_JNI_METHOD_CACHE\<close>, \<open>USE_JNI_FIELD_CACHE\<close>), and the assertions are empty macros.
\<close>

section \<open>Classes\<close>

definition get_class_map :: "(jni, (string \<times> nat) list) state" where
  "get_class_map = State (\<lambda>s. (class_map s, s))"

definition put_class_map :: "(string \<times> nat) list \<Rightarrow> (jni, unit) state" where
  "put_class_map m = State (\<lambda>s. ((), s\<lparr>class_map := m\<rparr>))"

text \<open>\<open>snprintf\<close> into a buffer of \<open>n\<close> bytes.\<close>

definition snprintf :: "nat \<Rightarrow> string \<Rightarrow> string" where
  "snprintf n text = take (n - 1) text"

text \<open>The code after a lookup that failed: the exception is replaced by \<open>UnsatisfiedLinkError\<close>.\<close>

definition throw_link_error :: "jni_env \<Rightarrow> string \<Rightarrow> (jni, unit) state" where
  "throw_link_error env msg = do {
     e \<leftarrow> jcall env ExceptionOccurred;
     if ref e \<noteq> 0 then do {
       _ \<leftarrow> jcall env ExceptionClear;
       c \<leftarrow> jcall env (FindClass ''java/lang/UnsatisfiedLinkError'');
       _ \<leftarrow> jcall env (ThrowNew (ref c) (snprintf 512 msg));
       State_Monad.return ()
     } else State_Monad.return ()
   }"

definition GetClass :: "jni_env \<Rightarrow> string \<Rightarrow> (jni, nat) state" where
  "GetClass env class_path = do {
     e \<leftarrow> jcall env ExceptionOccurred;
     if ref e \<noteq> 0 then State_Monad.return 0
     else do {
       m \<leftarrow> get_class_map;
       if map_of m class_path \<noteq> None then State_Monad.return (the (map_of m class_path))
       else do {
         clz \<leftarrow> jcall env (FindClass class_path);
         if ref clz = 0 then do {
           _ \<leftarrow> throw_link_error env (''classPath:'' @ class_path);
           State_Monad.return 0
         } else do {
           g \<leftarrow> jcall env (NewGlobalRef (ref clz));
           _ \<leftarrow> jcall env (DeleteLocalRef (ref clz));
           _ \<leftarrow> put_class_map (map_put class_path (ref g) m);
           State_Monad.return (ref g)
         }
       }
     }
   }"

definition CacheClass :: "string \<Rightarrow> nat \<Rightarrow> (jni, unit) state" where
  "CacheClass class_path clz = do {
     m \<leftarrow> get_class_map;
     if clz = 0 \<or> map_of m class_path \<noteq> None then State_Monad.return ()
     else put_class_map (map_put class_path clz m)
   }"

text \<open>\<open>ScopeJEnv\<close> of \<open>scope_jenv.cc\<close>.  Whether the thread has an environment already, and the results of \<open>GetEnv\<close> and
  \<open>AttachCurrentThread\<close>, are arguments; a new environment is kept for the thread.\<close>

record ScopeJEnv =
  has_env :: bool
  we_attach :: bool
  status :: int
  clear_frame :: bool

definition ScopeJEnv_attach :: "bool \<Rightarrow> int \<Rightarrow> int \<Rightarrow> bool \<Rightarrow> ScopeJEnv \<times> bool" where
  "ScopeJEnv_attach specific get_env attach clear =
    (if specific then (\<lparr>has_env = True, we_attach = False, status = 0, clear_frame = clear\<rparr>, specific)
     else if get_env = 0 then (\<lparr>has_env = True, we_attach = False, status = get_env, clear_frame = clear\<rparr>, specific)
     else if attach = 0 then (\<lparr>has_env = True, we_attach = True, status = attach, clear_frame = clear\<rparr>, True)
     else (\<lparr>has_env = False, we_attach = False, status = attach, clear_frame = clear\<rparr>, specific))"

definition ScopeJEnv_frame :: "jni_env \<Rightarrow> ScopeJEnv \<Rightarrow> int \<Rightarrow> (jni, unit) state" where
  "ScopeJEnv_frame env sc capacity =
    (if has_env sc \<and> clear_frame sc then do {_ \<leftarrow> jcall env (PushLocalFrame capacity); State_Monad.return ()}
     else State_Monad.return ())"

definition ScopeJEnv_delete :: "jni_env \<Rightarrow> ScopeJEnv \<Rightarrow> (jni, unit) state" where
  "ScopeJEnv_delete env sc =
    (if has_env sc \<and> clear_frame sc then do {_ \<leftarrow> jcall env PopLocalFrame; State_Monad.return ()}
     else State_Monad.return ())"

text \<open>The destructor, called by \<open>Release\<close>, deletes the references of the cache.\<close>

primrec delete_globals :: "jni_env \<Rightarrow> (string \<times> nat) list \<Rightarrow> (jni, unit) state" where
  "delete_globals env [] = State_Monad.return ()"
| "delete_globals env (x # m) = do {_ \<leftarrow> jcall env (DeleteGlobalRef (snd x)); delete_globals env m}"

definition VarCache_Release :: "jni_env \<Rightarrow> ScopeJEnv \<Rightarrow> (jni, unit) state" where
  "VarCache_Release env sc = do {
     _ \<leftarrow> ScopeJEnv_frame env sc 16;
     m \<leftarrow> get_class_map;
     _ \<leftarrow> delete_globals env m;
     _ \<leftarrow> ScopeJEnv_delete env sc;
     put_class_map []
   }"

section \<open>Methods and fields\<close>

definition GetStaticMethodId :: "jni_env \<Rightarrow> nat \<Rightarrow> string \<Rightarrow> string \<Rightarrow> (jni, nat) state" where
  "GetStaticMethodId env clz name sig = do {
     e \<leftarrow> jcall env ExceptionOccurred;
     if ref e \<noteq> 0 \<or> clz = 0 then State_Monad.return 0
     else do {
       mid \<leftarrow> jcall env (GetMethodID True clz name sig);
       _ \<leftarrow> throw_link_error env (''method:'' @ name @ '', sig:'' @ sig);
       State_Monad.return (ref mid)
     }
   }"

definition GetStaticMethodId_path :: "jni_env \<Rightarrow> string \<Rightarrow> string \<Rightarrow> string \<Rightarrow> (jni, nat) state" where
  "GetStaticMethodId_path env class_path name sig = do {
     clz \<leftarrow> GetClass env class_path;
     GetStaticMethodId env clz name sig
   }"

definition GetMethodId :: "jni_env \<Rightarrow> nat \<Rightarrow> string \<Rightarrow> string \<Rightarrow> (jni, nat) state" where
  "GetMethodId env clz name sig = do {
     e \<leftarrow> jcall env ExceptionOccurred;
     if ref e \<noteq> 0 \<or> clz = 0 then State_Monad.return 0
     else do {
       mid \<leftarrow> jcall env (GetMethodID False clz name sig);
       _ \<leftarrow> throw_link_error env (''method:'' @ name @ '', sig:'' @ sig);
       State_Monad.return (ref mid)
     }
   }"

definition GetMethodId_path :: "jni_env \<Rightarrow> string \<Rightarrow> string \<Rightarrow> string \<Rightarrow> (jni, nat) state" where
  "GetMethodId_path env class_path name sig = do {
     clz \<leftarrow> GetClass env class_path;
     GetMethodId env clz name sig
   }"

definition GetStaticFieldId :: "jni_env \<Rightarrow> nat \<Rightarrow> string \<Rightarrow> string \<Rightarrow> (jni, nat) state" where
  "GetStaticFieldId env clz name sig = do {
     e \<leftarrow> jcall env ExceptionOccurred;
     if ref e \<noteq> 0 \<or> clz = 0 then State_Monad.return 0
     else do {
       fid \<leftarrow> jcall env (GetFieldID True clz name sig);
       _ \<leftarrow> throw_link_error env (''static field:'' @ name @ '', sig:'' @ sig);
       State_Monad.return (ref fid)
     }
   }"

definition GetStaticFieldId_path :: "jni_env \<Rightarrow> string \<Rightarrow> string \<Rightarrow> string \<Rightarrow> (jni, nat) state" where
  "GetStaticFieldId_path env class_path name sig = do {
     clz \<leftarrow> GetClass env class_path;
     if clz = 0 then State_Monad.return 0 else GetStaticFieldId env clz name sig
   }"

definition GetFieldId :: "jni_env \<Rightarrow> nat \<Rightarrow> string \<Rightarrow> string \<Rightarrow> (jni, nat) state" where
  "GetFieldId env clz name sig = do {
     e \<leftarrow> jcall env ExceptionOccurred;
     if ref e \<noteq> 0 \<or> clz = 0 then State_Monad.return 0
     else do {
       fid \<leftarrow> jcall env (GetFieldID False clz name sig);
       _ \<leftarrow> throw_link_error env (''field:'' @ name @ '', sig:'' @ sig);
       State_Monad.return (ref fid)
     }
   }"

definition GetFieldId_path :: "jni_env \<Rightarrow> string \<Rightarrow> string \<Rightarrow> string \<Rightarrow> (jni, nat) state" where
  "GetFieldId_path env class_path name sig = do {
     clz \<leftarrow> GetClass env class_path;
     GetFieldId env clz name sig
   }"

section \<open>What is loaded at the start\<close>

definition AddClass :: "string \<Rightarrow> jni \<Rightarrow> bool \<times> jni" where
  "AddClass class_path s =
    (map_of (class_name_set s) class_path = None, s\<lparr>class_name_set := map_put class_path () (class_name_set s)\<rparr>)"

primrec load_classes :: "jni_env \<Rightarrow> (string \<times> unit) list \<Rightarrow> (jni, bool) state" where
  "load_classes env [] = State_Monad.return True"
| "load_classes env (x # names) = do {
     clz \<leftarrow> GetClass env (fst x);
     if clz = 0 then State_Monad.return False else load_classes env names
   }"

definition LoadClass :: "jni_env \<Rightarrow> (jni, bool) state" where
  "LoadClass env = do {
     names \<leftarrow> State (\<lambda>s. (class_name_set s, s));
     ok \<leftarrow> load_classes env names;
     _ \<leftarrow> State (\<lambda>s. ((), s\<lparr>class_name_set := []\<rparr>));
     State_Monad.return ok
   }"

text \<open>The order of \<open>JniMethodInfo\<close>, and the set that is kept in it.\<close>

definition info_lt :: "JniMethodInfo \<Rightarrow> JniMethodInfo \<Rightarrow> bool" where
  "info_lt a b =
    (if classname a < classname b then True
     else if classname a = classname b \<and> methodname a < methodname b then True
     else classname a = classname b \<and> methodname a = methodname b \<and> methodsig a < methodsig b)"

fun info_insert :: "JniMethodInfo \<Rightarrow> JniMethodInfo list \<Rightarrow> bool \<times> JniMethodInfo list" where
  "info_insert x [] = (True, [x])"
| "info_insert x (y # ys) =
    (if info_lt x y then (True, x # y # ys)
     else if info_lt y x then (case info_insert x ys of (b, zs) \<Rightarrow> (b, y # zs))
     else (False, y # ys))"

lemma info_lt_total: "info_lt a b \<or> a = b \<or> info_lt b a"
  by (cases a; cases b) (auto simp: info_lt_def)

lemma info_lt_irrefl: "\<not> info_lt a a"
  by (simp add: info_lt_def)

text \<open>The three comparisons are the lexicographic order.\<close>

definition lex3 :: "'a::order \<Rightarrow> 'b::order \<Rightarrow> 'c::order \<Rightarrow> 'a \<Rightarrow> 'b \<Rightarrow> 'c \<Rightarrow> bool" where
  "lex3 a b c a' b' c' \<longleftrightarrow> a < a' \<or> a = a' \<and> (b < b' \<or> b = b' \<and> c < c')"

lemma lex3_trans: "lex3 a b c a' b' c' \<Longrightarrow> lex3 a' b' c' a'' b'' c'' \<Longrightarrow> lex3 a b c a'' b'' c''"
  by (auto simp: lex3_def)

lemma info_lt_lex3: "info_lt a b = lex3 (classname a) (methodname a) (methodsig a) (classname b) (methodname b) (methodsig b)"
  unfolding info_lt_def lex3_def by (cases "classname a < classname b"; cases "methodname a < methodname b"; simp; blast)

lemma info_lt_trans: "info_lt a b \<Longrightarrow> info_lt b c \<Longrightarrow> info_lt a c"
  unfolding info_lt_lex3 by (rule lex3_trans)

text \<open>\<open>insert\<close> keeps the order, and tells whether the method is new.\<close>

lemma info_insert_ok:
  "sorted_wrt info_lt xs \<Longrightarrow> info_insert x xs = (b, ys) \<Longrightarrow>
    sorted_wrt info_lt ys \<and> set ys = insert x (set xs) \<and> (b \<longleftrightarrow> x \<notin> set xs)"
proof (induction x xs arbitrary: b ys rule: info_insert.induct)
  case (2 x y xs)
  show ?case
  proof (cases "info_lt x y")
    case True
    have z: "info_lt x z" if "z \<in> set (y # xs)" for z
      using True that 2(2) by (auto intro: info_lt_trans)
    then have "x \<notin> set (y # xs)"
      using info_lt_irrefl by blast
    then show ?thesis
      using True 2(2,3) z by auto
  next
    case False
    then consider "x = y" | "info_lt y x"
      using info_lt_total by blast
    then show ?thesis
    proof cases
      case 1
      then show ?thesis
        using 2(2,3) info_lt_irrefl by auto
    next
      case 2
      obtain c zs where zs: "info_insert x xs = (c, zs)"
        by fastforce
      have "x \<noteq> y"
        using False 2 info_lt_irrefl by blast
      then show ?thesis
        using "2.IH" [OF False 2 _ zs] "2.prems" zs False 2 by auto
    qed
  qed
qed simp

definition AddStaticMethod :: "string \<Rightarrow> string \<Rightarrow> string \<Rightarrow> jni \<Rightarrow> bool \<times> jni" where
  "AddStaticMethod c m sig s =
    (case info_insert \<lparr>classname = c, methodname = m, methodsig = sig\<rparr> (static_method_set s) of
       (b, xs) \<Rightarrow> (b, s\<lparr>static_method_set := xs\<rparr>))"

definition AddMethod :: "string \<Rightarrow> string \<Rightarrow> string \<Rightarrow> jni \<Rightarrow> bool \<times> jni" where
  "AddMethod c m sig s =
    (case info_insert \<lparr>classname = c, methodname = m, methodsig = sig\<rparr> (method_set s) of
       (b, xs) \<Rightarrow> (b, s\<lparr>method_set := xs\<rparr>))"

primrec load_static_methods :: "jni_env \<Rightarrow> JniMethodInfo list \<Rightarrow> (jni, bool) state" where
  "load_static_methods env [] = State_Monad.return True"
| "load_static_methods env (x # xs) = do {
     mid \<leftarrow> GetStaticMethodId_path env (classname x) (methodname x) (methodsig x);
     if mid = 0 then State_Monad.return False else load_static_methods env xs
   }"

definition LoadStaticMethod :: "jni_env \<Rightarrow> (jni, bool) state" where
  "LoadStaticMethod env = do {xs \<leftarrow> State (\<lambda>s. (static_method_set s, s)); load_static_methods env xs}"

primrec load_methods :: "jni_env \<Rightarrow> JniMethodInfo list \<Rightarrow> (jni, bool) state" where
  "load_methods env [] = State_Monad.return True"
| "load_methods env (x # xs) = do {
     mid \<leftarrow> GetMethodId_path env (classname x) (methodname x) (methodsig x);
     if mid = 0 then State_Monad.return False else load_methods env xs
   }"

definition LoadMethod :: "jni_env \<Rightarrow> (jni, bool) state" where
  "LoadMethod env = do {xs \<leftarrow> State (\<lambda>s. (method_set s, s)); load_methods env xs}"

end
