(* ===== verification/JniUtil.thy ===== *)
theory JniUtil
  imports VarCache
begin

text \<open>
  The helpers of \<open>src/base/jni_util/comm_function.cc\<close> and \<open>scoped_jstring.cc\<close>, and their use in
  \<open>src/mvvm/jni/ActivityView.cc\<close> and \<open>src/mvvm/native-lib.ipp\<close>.  The arguments of a Java method are a list of values.
\<close>

section \<open>Exceptions\<close>

definition getExceptionSummary :: "jni_env \<Rightarrow> nat \<Rightarrow> nat \<Rightarrow> (jni, string) state" where
  "getExceptionSummary env exception bufLen = do {
     exceptionClazz \<leftarrow> jcall env (GetObjectClass exception);
     classClazz \<leftarrow> jcall env (GetObjectClass (ref exceptionClazz));
     classGetName \<leftarrow> jcall env (GetMethodID False (ref classClazz) ''getName'' ''()Ljava/lang/String;'');
     classNameStr \<leftarrow> jcall env (CallMethod False CHR ''L'' (ref exceptionClazz) (ref classGetName) []);
     res \<leftarrow> (if ref classNameStr \<noteq> 0 then do {
         classNameChars \<leftarrow> jcall env (GetStringUTFChars (ref classNameStr));
         res \<leftarrow> (if ref classNameChars \<noteq> 0 then do {
             getMessage \<leftarrow> jcall env (GetMethodID False (ref exceptionClazz) ''getMessage'' ''()Ljava/lang/String;'');
             messageStr \<leftarrow> jcall env (CallMethod False CHR ''L'' exception (ref getMessage) []);
             buf \<leftarrow> (if ref messageStr \<noteq> 0 then do {
                 messageChars \<leftarrow> jcall env (GetStringUTFChars (ref messageStr));
                 buf \<leftarrow> (if ref messageChars \<noteq> 0 then do {
                     _ \<leftarrow> jcall env (ReleaseStringUTFChars (ref messageStr) (ref messageChars));
                     State_Monad.return (snprintf bufLen (bytes classNameChars @ '': '' @ bytes messageChars))
                   } else do {
                     _ \<leftarrow> jcall env ExceptionClear;
                     State_Monad.return (snprintf bufLen (bytes classNameChars @ '': <error getting message>''))
                   });
                 _ \<leftarrow> jcall env (DeleteLocalRef (ref messageStr));
                 State_Monad.return buf
               } else State_Monad.return (take (bufLen - 1) (bytes classNameChars)));
             _ \<leftarrow> jcall env (ReleaseStringUTFChars (ref classNameStr) (ref classNameChars));
             State_Monad.return (Some buf)
           } else State_Monad.return None);
         _ \<leftarrow> jcall env (DeleteLocalRef (ref classNameStr));
         State_Monad.return res
       } else State_Monad.return None);
     _ \<leftarrow> jcall env (DeleteLocalRef (ref classClazz));
     _ \<leftarrow> jcall env (DeleteLocalRef (ref exceptionClazz));
     if res = None then do {
       _ \<leftarrow> jcall env ExceptionClear;
       State_Monad.return (snprintf bufLen ''<error getting class name>'')
     } else State_Monad.return (the res)
   }"

text \<open>The length of the message counts its UTF-16 units; \<open>GetStringUTFRegion\<close> writes their UTF-8 encoding into the
  buffer.\<close>

definition printStackTrace :: "jni_env \<Rightarrow> nat \<Rightarrow> nat \<Rightarrow> (jni, string) state" where
  "printStackTrace env exception bufLen = do {
     stringWriterClazz \<leftarrow> jcall env (FindClass ''java/io/StringWriter'');
     res \<leftarrow> (if ref stringWriterClazz \<noteq> 0 then do {
         stringWriterCtor \<leftarrow> jcall env (GetMethodID False (ref stringWriterClazz) ''<init>'' ''()V'');
         toString \<leftarrow> jcall env (GetMethodID False (ref stringWriterClazz) ''toString'' ''()Ljava/lang/String;'');
         printWriterClazz \<leftarrow> jcall env (FindClass ''java/io/PrintWriter'');
         res \<leftarrow> (if ref printWriterClazz \<noteq> 0 then do {
             printWriterCtor \<leftarrow> jcall env (GetMethodID False (ref printWriterClazz) ''<init>'' ''(Ljava/io/Writer;)V'');
             stringWriterObj \<leftarrow> jcall env (NewObject (ref stringWriterClazz) (ref stringWriterCtor) []);
             res \<leftarrow> (if ref stringWriterObj \<noteq> 0 then do {
                 printWriterObj \<leftarrow> jcall env (NewObject (ref printWriterClazz) (ref printWriterCtor) [ref stringWriterObj]);
                 res \<leftarrow> (if ref printWriterObj \<noteq> 0 then do {
                     exceptionClazz \<leftarrow> jcall env (GetObjectClass exception);
                     printMethod \<leftarrow> jcall env (GetMethodID False (ref exceptionClazz) ''printStackTrace'' ''(Ljava/io/PrintWriter;)V'');
                     _ \<leftarrow> jcall env (CallMethod False CHR ''V'' exception (ref printMethod) [Jref (ref printWriterObj)]);
                     check \<leftarrow> jcall env ExceptionCheck;
                     res \<leftarrow> (if num check = 0 then do {
                         messageStr \<leftarrow> jcall env (CallMethod False CHR ''L'' (ref stringWriterObj) (ref toString) []);
                         if ref messageStr \<noteq> 0 then do {
                           length0 \<leftarrow> jcall env (GetStringLength (ref messageStr));
                           let messageStrLength = (if int bufLen \<le> num length0 then int bufLen - 1 else num length0);
                           region \<leftarrow> jcall env (GetStringUTFRegion (ref messageStr) 0 messageStrLength);
                           _ \<leftarrow> (if bufLen < length (bytes region) then stop Overrun else State_Monad.return ());
                           _ \<leftarrow> jcall env (DeleteLocalRef (ref messageStr));
                           State_Monad.return (Some (takeWhile (\<lambda>c. c \<noteq> CHR 0x00) (take (nat messageStrLength) (bytes region))))
                         } else State_Monad.return None
                       } else State_Monad.return None);
                     _ \<leftarrow> jcall env (DeleteLocalRef (ref exceptionClazz));
                     _ \<leftarrow> jcall env (DeleteLocalRef (ref printWriterObj));
                     State_Monad.return res
                   } else State_Monad.return None);
                 _ \<leftarrow> jcall env (DeleteLocalRef (ref stringWriterObj));
                 State_Monad.return res
               } else State_Monad.return None);
             _ \<leftarrow> jcall env (DeleteLocalRef (ref printWriterClazz));
             State_Monad.return res
           } else State_Monad.return None);
         _ \<leftarrow> jcall env (DeleteLocalRef (ref stringWriterClazz));
         State_Monad.return res
       } else State_Monad.return None);
     if res = None then do {
       _ \<leftarrow> jcall env ExceptionClear;
       getExceptionSummary env exception bufLen
     } else State_Monad.return (the res)
   }"

text \<open>The text of the exception, which is written to the log, or \<open>None\<close>.\<close>

definition jniLogException :: "jni_env \<Rightarrow> (jni, string option) state" where
  "jniLogException env = do {
     exception \<leftarrow> jcall env ExceptionOccurred;
     if ref exception = 0 then State_Monad.return None
     else do {
       _ \<leftarrow> jcall env ExceptionDescribe;
       _ \<leftarrow> jcall env ExceptionClear;
       szbuffer \<leftarrow> printStackTrace env (ref exception) 1024;
       State_Monad.return (Some szbuffer)
     }
   }"

section \<open>Methods\<close>

text \<open>The character behind the parenthesis of a descriptor; the scan runs out of the descriptor if there is none.\<close>

definition return_type :: "string \<Rightarrow> char option" where
  "return_type descriptor =
    (case dropWhile (\<lambda>c. c \<noteq> CHR '')'') descriptor of
       [] \<Rightarrow> None
     | [_] \<Rightarrow> Some (CHR 0x00)
     | _ # k # _ \<Rightarrow> Some k)"

definition call_by_type :: "jni_env \<Rightarrow> bool \<Rightarrow> nat \<Rightarrow> nat \<Rightarrow> jvalue list \<Rightarrow> string \<Rightarrow> string \<Rightarrow> (jni, jvalue) state" where
  "call_by_type env st h mid args descriptor msg =
    (case return_type descriptor of
       None \<Rightarrow> do {_ \<leftarrow> stop Overrun; State_Monad.return Jzero}
     | Some k \<Rightarrow>
         if k = CHR ''V'' then do {_ \<leftarrow> jcall env (CallMethod st CHR ''V'' h mid args); State_Monad.return Jzero}
         else if k = CHR ''['' \<or> k = CHR ''L'' then do {r \<leftarrow> jcall env (CallMethod st CHR ''L'' h mid args); State_Monad.return (Jref (ref r))}
         else if k \<in> set ''ZBCSIJFD'' then do {r \<leftarrow> jcall env (CallMethod st k h mid args); State_Monad.return (Jnum k (num r))}
         else do {_ \<leftarrow> jcall env (FatalError msg); _ \<leftarrow> stop (Fatal msg); State_Monad.return Jzero})"

definition CallMethodByName :: "jni_env \<Rightarrow> nat \<Rightarrow> string \<Rightarrow> string \<Rightarrow> jvalue list \<Rightarrow> (jni, jvalue) state" where
  "CallMethodByName env obj name descriptor args = do {
     cap \<leftarrow> jcall env (EnsureLocalCapacity 2);
     if num cap = 0 then do {
       clazz \<leftarrow> jcall env (GetObjectClass obj);
       mid \<leftarrow> GetMethodId env (ref clazz) name descriptor;
       result \<leftarrow> (if mid \<noteq> 0 then do {
           result \<leftarrow> call_by_type env False obj mid args descriptor ''illegal descriptor'';
           _ \<leftarrow> jniLogException env;
           State_Monad.return result
         } else State_Monad.return Jzero);
       _ \<leftarrow> jcall env (DeleteLocalRef (ref clazz));
       State_Monad.return result
     } else State_Monad.return Jzero
   }"

definition JNU_CallMethodByName :: "jni_env \<Rightarrow> nat \<Rightarrow> string \<Rightarrow> string \<Rightarrow> jvalue list \<Rightarrow> (jni, jvalue) state" where
  "JNU_CallMethodByName env obj name descriptor args = CallMethodByName env obj name descriptor args"

definition CallStaticMethodByName :: "jni_env \<Rightarrow> nat \<Rightarrow> string \<Rightarrow> string \<Rightarrow> jvalue list \<Rightarrow> (jni, jvalue) state" where
  "CallStaticMethodByName env clazz name descriptor args = do {
     mid \<leftarrow> GetStaticMethodId env clazz name descriptor;
     if mid \<noteq> 0 then do {
       result \<leftarrow> call_by_type env True clazz mid args descriptor ''illegal _descriptor'';
       _ \<leftarrow> jniLogException env;
       State_Monad.return result
     } else State_Monad.return Jzero
   }"

text \<open>The function for the path of a class, and those for a \<open>JniMethodInfo\<close>.\<close>

definition JNU_CallStaticMethodByName :: "jni_env \<Rightarrow> string \<Rightarrow> string \<Rightarrow> string \<Rightarrow> jvalue list \<Rightarrow> (jni, jvalue) state" where
  "JNU_CallStaticMethodByName env class_path name descriptor args = do {
     clazz \<leftarrow> GetClass env class_path;
     CallStaticMethodByName env clazz name descriptor args
   }"

definition JNU_CallStaticMethodByMethodInfo :: "jni_env \<Rightarrow> JniMethodInfo \<Rightarrow> jvalue list \<Rightarrow> (jni, jvalue) state" where
  "JNU_CallStaticMethodByMethodInfo env info args = do {
     clazz \<leftarrow> GetClass env (classname info);
     CallStaticMethodByName env clazz (methodname info) (methodsig info) args
   }"

definition JNU_CallMethodByMethodInfo :: "jni_env \<Rightarrow> nat \<Rightarrow> JniMethodInfo \<Rightarrow> jvalue list \<Rightarrow> (jni, jvalue) state" where
  "JNU_CallMethodByMethodInfo env obj info args = CallMethodByName env obj (methodname info) (methodsig info) args"

section \<open>Fields\<close>

definition sig_type :: "string \<Rightarrow> char" where
  "sig_type sig = (case sig of [] \<Rightarrow> CHR 0x00 | k # _ \<Rightarrow> k)"

definition get_by_type :: "jni_env \<Rightarrow> bool \<Rightarrow> nat \<Rightarrow> nat \<Rightarrow> string \<Rightarrow> (jni, jvalue) state" where
  "get_by_type env st h fid sig =
    (if sig_type sig = CHR ''['' \<or> sig_type sig = CHR ''L''
     then do {r \<leftarrow> jcall env (GetField st CHR ''L'' h fid); State_Monad.return (Jref (ref r))}
     else if sig_type sig \<in> set ''ZBCSIJFD''
     then do {r \<leftarrow> jcall env (GetField st (sig_type sig) h fid); State_Monad.return (Jnum (sig_type sig) (num r))}
     else do {_ \<leftarrow> jcall env (FatalError ''illegal _descriptor''); _ \<leftarrow> stop (Fatal ''illegal _descriptor''); State_Monad.return Jzero})"

definition JNU_GetStaticField :: "jni_env \<Rightarrow> nat \<Rightarrow> string \<Rightarrow> string \<Rightarrow> (jni, jvalue) state" where
  "JNU_GetStaticField env clazz name sig = do {
     fid \<leftarrow> GetStaticFieldId env clazz name sig;
     if fid = 0 then State_Monad.return Jzero
     else do {
       result \<leftarrow> get_by_type env True clazz fid sig;
       _ \<leftarrow> jniLogException env;
       State_Monad.return result
     }
   }"

definition JNU_SetField :: "jni_env \<Rightarrow> nat \<Rightarrow> string \<Rightarrow> string \<Rightarrow> jvalue \<Rightarrow> (jni, unit) state" where
  "JNU_SetField env obj name sig v = do {
     e \<leftarrow> jcall env ExceptionOccurred;
     if ref e \<noteq> 0 then State_Monad.return ()
     else do {
       clazz \<leftarrow> jcall env (GetObjectClass obj);
       fid \<leftarrow> GetFieldId env (ref clazz) name sig;
       _ \<leftarrow> jcall env (DeleteLocalRef (ref clazz));
       if fid = 0 then State_Monad.return ()
       else do {
         _ \<leftarrow> (if sig_type sig = CHR ''['' \<or> sig_type sig = CHR ''L''
              then do {_ \<leftarrow> jcall env (SetField CHR ''L'' obj fid v); State_Monad.return ()}
              else if sig_type sig \<in> set ''ZBCSIJFD''
              then do {_ \<leftarrow> jcall env (SetField (sig_type sig) obj fid v); State_Monad.return ()}
              else do {_ \<leftarrow> jcall env (FatalError ''illegal _descriptor''); stop (Fatal ''illegal _descriptor'')});
         _ \<leftarrow> jniLogException env;
         State_Monad.return ()
       }
     }
   }"

definition JNU_GetField :: "jni_env \<Rightarrow> nat \<Rightarrow> string \<Rightarrow> string \<Rightarrow> (jni, jvalue) state" where
  "JNU_GetField env obj name sig = do {
     e \<leftarrow> jcall env ExceptionOccurred;
     if ref e \<noteq> 0 then State_Monad.return Jzero
     else do {
       clazz \<leftarrow> jcall env (GetObjectClass obj);
       fid \<leftarrow> GetFieldId env (ref clazz) name sig;
       _ \<leftarrow> jcall env (DeleteLocalRef (ref clazz));
       if fid = 0 then State_Monad.return Jzero
       else do {
         result \<leftarrow> get_by_type env False obj fid sig;
         _ \<leftarrow> jniLogException env;
         State_Monad.return result
       }
     }
   }"

section \<open>Strings and byte arrays\<close>

text \<open>The length is reduced to 32 bits and read as a signed number.\<close>

definition to_jsize :: "nat \<Rightarrow> int" where
  "to_jsize n = (let k = int n mod 2 ^ 32 in if k < 2 ^ 31 then k else k - 2 ^ 32)"

definition JNU_Buffer2JbyteArray :: "jni_env \<Rightarrow> string \<Rightarrow> (jni, nat) state" where
  "JNU_Buffer2JbyteArray env buffer = do {
     arr \<leftarrow> jcall env (NewByteArray (to_jsize (length buffer)));
     _ \<leftarrow> jcall env (SetByteArrayRegion (ref arr) buffer);
     State_Monad.return (ref arr)
   }"

definition JNU_FreeJbyteArray :: "jni_env \<Rightarrow> nat \<Rightarrow> (jni, unit) state" where
  "JNU_FreeJbyteArray env arr = do {_ \<leftarrow> jcall env (DeleteLocalRef arr); State_Monad.return ()}"

definition JNU_Jstring2Wchar :: "jni_env \<Rightarrow> nat \<Rightarrow> (jni, nat) state" where
  "JNU_Jstring2Wchar env jstr =
    (if jstr = 0 then State_Monad.return 0 else do {r \<leftarrow> jcall env (GetStringChars jstr); State_Monad.return (ref r)})"

definition JNU_FreeWchar :: "jni_env \<Rightarrow> nat \<Rightarrow> nat \<Rightarrow> (jni, unit) state" where
  "JNU_FreeWchar env jstr p = do {_ \<leftarrow> jcall env (ReleaseStringChars jstr p); State_Monad.return ()}"

definition JNU_Wstring2Jstring :: "jni_env \<Rightarrow> int list \<Rightarrow> (jni, nat) state" where
  "JNU_Wstring2Jstring env wstr = do {r \<leftarrow> jcall env (NewString wstr); State_Monad.return (ref r)}"

text \<open>A C string, or \<open>NULL\<close>, as a Java string.\<close>

definition JNU_Chars2Jstring :: "jni_env \<Rightarrow> string option \<Rightarrow> (jni, nat) state" where
  "JNU_Chars2Jstring env pat = do {
     str_class \<leftarrow> GetClass env ''java/lang/String'';
     ctorID \<leftarrow> GetMethodId env str_class ''<init>'' ''([BLjava/lang/String;)V'';
     let content = (case pat of Some p \<Rightarrow> p | None \<Rightarrow> [CHR 0x00]);
     arr \<leftarrow> jcall env (NewByteArray (to_jsize (length content)));
     _ \<leftarrow> jcall env (SetByteArrayRegion (ref arr) content);
     encoding \<leftarrow> jcall env (NewStringUTF ''utf-8'');
     jstr \<leftarrow> jcall env (NewObject str_class ctorID [ref arr, ref encoding]);
     _ \<leftarrow> jcall env (DeleteLocalRef (ref arr));
     _ \<leftarrow> jcall env (DeleteLocalRef (ref encoding));
     State_Monad.return (ref jstr)
   }"

definition JNU_FreeJstring :: "jni_env \<Rightarrow> nat \<Rightarrow> (jni, unit) state" where
  "JNU_FreeJstring env jstr = do {_ \<leftarrow> jcall env (DeleteLocalRef jstr); State_Monad.return ()}"

definition JNU_JbyteArray2Buffer :: "jni_env \<Rightarrow> nat \<Rightarrow> (jni, string) state" where
  "JNU_JbyteArray2Buffer env arr =
    (if arr = 0 then State_Monad.return []
     else do {
       alen \<leftarrow> jcall env (GetArrayLength arr);
       ba \<leftarrow> jcall env (GetByteArrayElements arr);
       _ \<leftarrow> jcall env (ReleaseByteArrayElements arr (ref ba));
       State_Monad.return (take (nat (num alen)) (bytes ba))
     })"

subsection \<open>\<open>ScopedJstring\<close>\<close>

record ScopedJstring =
  sj_jstr :: nat
  sj_char :: "string option"
  sj_ptr :: nat
  jstr2char :: bool

definition ScopedJstring_of_jstr :: "jni_env \<Rightarrow> nat \<Rightarrow> (jni, ScopedJstring) state" where
  "ScopedJstring_of_jstr env jstr = do {
     l \<leftarrow> jcall env (NewLocalRef jstr);
     let sj = \<lparr>sj_jstr = ref l, sj_char = None, sj_ptr = 0, jstr2char = True\<rparr>;
     if ref l = 0 then State_Monad.return sj
     else do {
       e \<leftarrow> jcall env ExceptionOccurred;
       if ref e \<noteq> 0 then State_Monad.return sj
       else do {
         c \<leftarrow> jcall env (GetStringUTFChars (ref l));
         State_Monad.return (sj\<lparr>sj_char := (if ref c = 0 then None else Some (bytes c)), sj_ptr := ref c\<rparr>)
       }
     }
   }"

definition ScopedJstring_of_char :: "jni_env \<Rightarrow> string option \<Rightarrow> (jni, ScopedJstring) state" where
  "ScopedJstring_of_char env cs =
    (let sj = \<lparr>sj_jstr = 0, sj_char = cs, sj_ptr = 0, jstr2char = False\<rparr>
     in if cs = None then State_Monad.return sj
        else do {
          e \<leftarrow> jcall env ExceptionOccurred;
          if ref e \<noteq> 0 then State_Monad.return sj
          else do {
            strClass \<leftarrow> jcall env (FindClass ''java/lang/String'');
            ctorID \<leftarrow> jcall env (GetMethodID False (ref strClass) ''<init>'' ''([BLjava/lang/String;)V'');
            arr \<leftarrow> jcall env (NewByteArray (to_jsize (length (the cs))));
            _ \<leftarrow> jcall env (SetByteArrayRegion (ref arr) (the cs));
            encoding \<leftarrow> jcall env (NewStringUTF ''utf-8'');
            jstr \<leftarrow> jcall env (NewObject (ref strClass) (ref ctorID) [ref arr, ref encoding]);
            _ \<leftarrow> jcall env (DeleteLocalRef (ref arr));
            _ \<leftarrow> jcall env (DeleteLocalRef (ref encoding));
            _ \<leftarrow> jcall env (DeleteLocalRef (ref strClass));
            State_Monad.return (sj\<lparr>sj_jstr := ref jstr\<rparr>)
          }
        })"

definition ScopedJstring_delete :: "jni_env \<Rightarrow> ScopedJstring \<Rightarrow> (jni, unit) state" where
  "ScopedJstring_delete env sj =
    (if sj_jstr sj = 0 \<or> sj_char sj = None then State_Monad.return ()
     else do {
       e \<leftarrow> jcall env ExceptionOccurred;
       if ref e \<noteq> 0 then State_Monad.return ()
       else do {
         _ \<leftarrow> (if jstr2char sj then do {_ \<leftarrow> jcall env (ReleaseStringUTFChars (sj_jstr sj) (sj_ptr sj)); State_Monad.return ()}
              else State_Monad.return ());
         _ \<leftarrow> jcall env (DeleteLocalRef (sj_jstr sj));
         State_Monad.return ()
       }
     })"

definition ScopedJstring_GetChar :: "jni_env \<Rightarrow> ScopedJstring \<Rightarrow> (jni, string option) state" where
  "ScopedJstring_GetChar env sj = do {
     e \<leftarrow> jcall env ExceptionOccurred;
     State_Monad.return (if ref e \<noteq> 0 then None else sj_char sj)
   }"

definition ScopedJstring_SafeGetChar :: "jni_env \<Rightarrow> ScopedJstring \<Rightarrow> (jni, string) state" where
  "ScopedJstring_SafeGetChar env sj = do {
     c \<leftarrow> ScopedJstring_GetChar env sj;
     State_Monad.return (case c of None \<Rightarrow> [] | Some cs \<Rightarrow> cs)
   }"

definition ScopedJstring_GetJstr :: "jni_env \<Rightarrow> ScopedJstring \<Rightarrow> (jni, nat) state" where
  "ScopedJstring_GetJstr env sj = do {
     e \<leftarrow> jcall env ExceptionOccurred;
     State_Monad.return (if ref e \<noteq> 0 then 0 else sj_jstr sj)
   }"

section \<open>The view of an activity\<close>

definition KC2Java :: string where "KC2Java = ''com/mvvm/MVVMHelp''"

definition NotifyEventFired_info :: JniMethodInfo where
  "NotifyEventFired_info = \<lparr>classname = KC2Java, methodname = ''NotifyEventFired'', methodsig = ''(JI[B)V''\<rparr>"

definition NotifyPropertyChanged_info :: JniMethodInfo where
  "NotifyPropertyChanged_info = \<lparr>classname = KC2Java, methodname = ''NotifyPropertyChanged'', methodsig = ''(JI[B)V''\<rparr>"

text \<open>Both notifications, with the environment of the thread; without one the code follows an empty pointer.\<close>

definition notify_java :: "jni_env \<Rightarrow> ScopeJEnv \<Rightarrow> JniMethodInfo \<Rightarrow> int \<Rightarrow> int \<Rightarrow> string \<Rightarrow> (jni, unit) state" where
  "notify_java env sc info inst i buffer =
    (if \<not> has_env sc then stop Overrun
     else do {
       _ \<leftarrow> ScopeJEnv_frame env sc 16;
       j_value \<leftarrow> JNU_Buffer2JbyteArray env buffer;
       _ \<leftarrow> JNU_CallStaticMethodByMethodInfo env info [Jnum CHR ''J'' inst, Jnum CHR ''I'' i, Jref j_value];
       _ \<leftarrow> JNU_FreeJbyteArray env j_value;
       ScopeJEnv_delete env sc
     })"

definition NotifyEventFired :: "jni_env \<Rightarrow> ScopeJEnv \<Rightarrow> int \<Rightarrow> int \<Rightarrow> string \<Rightarrow> (jni, unit) state" where
  "NotifyEventFired env sc inst event_id value_bytes = notify_java env sc NotifyEventFired_info inst event_id value_bytes"

definition NotifyPropertyChanged :: "jni_env \<Rightarrow> ScopeJEnv \<Rightarrow> int \<Rightarrow> int \<Rightarrow> string \<Rightarrow> (jni, unit) state" where
  "NotifyPropertyChanged env sc inst property_id new_buffer = notify_java env sc NotifyPropertyChanged_info inst property_id new_buffer"

text \<open>The message is serialized by its class; an empty pointer gives an empty buffer.\<close>

definition ActivityView_OnPropertyChanged :: "jni_env \<Rightarrow> ScopeJEnv \<Rightarrow> int \<Rightarrow> int \<Rightarrow> string option \<Rightarrow> (jni, unit) state" where
  "ActivityView_OnPropertyChanged env sc this p serialized =
    NotifyPropertyChanged env sc this p (case serialized of None \<Rightarrow> [] | Some b \<Rightarrow> b)"

definition ActivityView_OnEventFired :: "jni_env \<Rightarrow> ScopeJEnv \<Rightarrow> int \<Rightarrow> int \<Rightarrow> string option \<Rightarrow> (jni, unit) state" where
  "ActivityView_OnEventFired env sc this e serialized =
    NotifyEventFired env sc this e (case serialized of None \<Rightarrow> [] | Some b \<Rightarrow> b)"

text \<open>\<open>JNI_OnLoad\<close>, with the result of \<open>pthread_key_create\<close>, and without the functions that other libraries register.\<close>

definition JNI_OnLoad :: "jni_env \<Rightarrow> int \<Rightarrow> ScopeJEnv \<Rightarrow> (jni, int) state" where
  "JNI_OnLoad env key_create sc =
    (if key_create \<noteq> 0 then State_Monad.return (-1)
     else if \<not> has_env sc then do {_ \<leftarrow> stop Overrun; State_Monad.return 0}
     else do {
       _ \<leftarrow> ScopeJEnv_frame env sc 16;
       _ \<leftarrow> LoadClass env;
       _ \<leftarrow> LoadStaticMethod env;
       _ \<leftarrow> LoadMethod env;
       _ \<leftarrow> ScopeJEnv_delete env sc;
       State_Monad.return 0x00010006
     })"

end
