(* ===== verification/JniSpec.thy ===== *)
theory JniSpec
  imports JniUtil
begin

text \<open>
  What the helpers for Java do with local references and exceptions, for every virtual machine that follows the rules
  of its interface.
\<close>

section \<open>Virtual machines\<close>

text \<open>The methods of the Java library that the code looks up.\<close>

definition java_methods :: "(string \<times> string) list" where
  "java_methods =
    [(''getName'', ''()Ljava/lang/String;''), (''getMessage'', ''()Ljava/lang/String;''), (''<init>'', ''()V''),
     (''toString'', ''()Ljava/lang/String;''), (''<init>'', ''(Ljava/io/Writer;)V''), (''printStackTrace'', ''(Ljava/io/PrintWriter;)V'')]"

text \<open>Besides the rules of the interface: the library is complete, there is memory for arrays and frames, and the stack traces
  are ASCII, so that \<open>n\<close> units are \<open>n\<close> bytes.\<close>

definition java_reply :: "jni_call \<Rightarrow> reply \<Rightarrow> bool \<Rightarrow> bool" where
  "java_reply c r p \<longleftrightarrow> reply_ok c r p \<and> (case c of
      FindClass n \<Rightarrow> n = ''java/lang/UnsatisfiedLinkError'' \<longrightarrow> ref r \<noteq> 0
    | GetMethodID st h n sig \<Rightarrow> \<not> st \<and> (n, sig) \<in> set java_methods \<longrightarrow> ref r \<noteq> 0
    | NewByteArray n \<Rightarrow> ref r \<noteq> 0
    | PushLocalFrame n \<Rightarrow> num r = 0
    | GetStringUTFRegion h i n \<Rightarrow> int (length (bytes r)) \<le> max 0 n
    | _ \<Rightarrow> True)"

definition java_ok :: "jni_env \<Rightarrow> bool" where
  "java_ok env \<longleftrightarrow> (\<forall>tr c. java_reply c (env tr c) (pend tr))"

section \<open>Rules for the calls\<close>

text \<open>The code runs, has called nothing it must not call, an exception is pending or not, the frames of local references and
  the cache.\<close>

definition running :: "bool \<Rightarrow> nat multiset list \<Rightarrow> (string \<times> nat) list \<Rightarrow> jni \<Rightarrow> bool" where
  "running p F M s \<longleftrightarrow> halted s = None \<and> legal s \<and> pending s = p \<and> locals s = F \<and> class_map s = M"

lemma wp_call:
  assumes "java_ok env" "running p F M s" "p \<longrightarrow> exception_safe c"
    and "\<And>r s'. java_reply c r p \<Longrightarrow> running (pending_after c r p) (locals_after c r F) M s' \<Longrightarrow> Q r s'"
  shows "wp (jcall env c) Q s"
proof (rule wp_jcall)
  show "env_ok env"
    using assms(1) by (simp add: java_ok_def env_ok_def java_reply_def)
  show "halted s = None"
    using assms(2) by (simp add: running_def)
  fix r s'
  assume "r = env (trace s) c" "pending s' = pending_after c r (pending s)" "locals s' = locals_after c r (locals s)"
    "legal s' = (legal s \<and> (pending s \<longrightarrow> exception_safe c))" "halted s' = None" "class_map s' = class_map s"
  then show "Q r s'"
    using assms(1-3) by (intro assms(4)) (auto simp: running_def java_ok_def pending_def)
qed

lemmas call_rules = java_reply_def reply_ok_def pending_after_def locals_after_def returns_local_def exception_safe_def

lemma wp_ExceptionOccurred:
  assumes "java_ok env" "running p F M s"
    and "\<And>r s'. (ref r \<noteq> 0) = p \<Longrightarrow> running p (if p then add_local (ref r) F else F) M s' \<Longrightarrow> Q r s'"
  shows "wp (jcall env ExceptionOccurred) Q s"
  using assms(1,2) by (rule wp_call) (auto simp: call_rules intro!: assms(3))

lemma wp_ExceptionCheck:
  assumes "java_ok env" "running p F M s" "\<And>r s'. (num r \<noteq> 0) = p \<Longrightarrow> running p F M s' \<Longrightarrow> Q r s'"
  shows "wp (jcall env ExceptionCheck) Q s"
  using assms(1,2) by (rule wp_call) (auto simp: call_rules intro!: assms(3))

lemma wp_ExceptionClear:
  assumes "java_ok env" "running p F M s" "\<And>r s'. running False F M s' \<Longrightarrow> Q r s'"
  shows "wp (jcall env ExceptionClear) Q s" "wp (jcall env ExceptionDescribe) Q s"
  using assms(1,2) by (rule wp_call; auto simp: call_rules intro!: assms(3))+

lemma wp_DeleteLocalRef:
  assumes "java_ok env" "running p F M s" "\<And>r s'. running p (delete_local h F) M s' \<Longrightarrow> Q r s'"
  shows "wp (jcall env (DeleteLocalRef h)) Q s"
  using assms(1,2) by (rule wp_call) (auto simp: call_rules intro!: assms(3))

lemma wp_release:
  assumes "java_ok env" "running p F M s" "\<And>r s'. running p F M s' \<Longrightarrow> Q r s'"
  shows "wp (jcall env (ReleaseStringUTFChars h q)) Q s" "wp (jcall env (DeleteGlobalRef h)) Q s"
  using assms(1,2) by (rule wp_call; auto simp: call_rules intro!: assms(3))+

lemma wp_frames:
  assumes "java_ok env" "running p F M s"
  shows "(\<And>r s'. running p ({#} # F) M s' \<Longrightarrow> Q r s') \<Longrightarrow> wp (jcall env (PushLocalFrame n)) Q s"
    "(\<And>r s'. running p (tl F) M s' \<Longrightarrow> Q r s') \<Longrightarrow> wp (jcall env PopLocalFrame) Q s"
  using assms by (auto intro!: wp_call [OF assms] simp: call_rules)

text \<open>Calls that return a new reference and raise an exception if they fail, or only may raise one.\<close>

lemma wp_new_ref:
  assumes "java_ok env" "running False F M s"
    and "\<And>r s'. ref r \<noteq> 0 \<Longrightarrow> running False (add_local (ref r) F) M s' \<Longrightarrow> Q r s'" "\<And>r s'. ref r = 0 \<Longrightarrow> running True F M s' \<Longrightarrow> Q r s'"
  shows "wp (jcall env (FindClass n)) Q s" "wp (jcall env (NewObject c m args)) Q s" "wp (jcall env (NewStringUTF str)) Q s"
  using assms(1,2) by (rule wp_call; auto simp: call_rules intro: assms(3,4))+

lemma wp_get_ref:
  assumes "java_ok env" "running False F M s" "\<And>r s'. ref r \<noteq> 0 \<Longrightarrow> running False (add_local (ref r) F) M s' \<Longrightarrow> Q r s'"
  shows "wp (jcall env (GetObjectClass h)) Q s" "wp (jcall env (FindClass ''java/lang/UnsatisfiedLinkError'')) Q s"
    "wp (jcall env (NewByteArray n)) Q s"
  using assms(1,2) by (rule wp_call; auto simp: call_rules intro!: assms(3))+

lemma wp_java_method:
  assumes "java_ok env" "running False F M s" "(n, sig) \<in> set java_methods" "\<And>r s'. ref r \<noteq> 0 \<Longrightarrow> running False F M s' \<Longrightarrow> Q r s'"
  shows "wp (jcall env (GetMethodID False c n sig)) Q s"
  using assms(1,2) by (rule wp_call) (use assms(3) in \<open>auto simp: call_rules intro!: assms(4)\<close>)

lemma wp_lookup:
  assumes "java_ok env" "running False F M s"
    and "\<And>r s'. ref r \<noteq> 0 \<Longrightarrow> running False F M s' \<Longrightarrow> Q r s'" "\<And>r s'. ref r = 0 \<Longrightarrow> running True F M s' \<Longrightarrow> Q r s'"
  shows "wp (jcall env (GetMethodID st c n sig)) Q s" "wp (jcall env (GetFieldID st c n sig)) Q s"
    "wp (jcall env (GetStringUTFChars h)) Q s"
  using assms(1,2) by (rule wp_call; auto simp: call_rules intro: assms(3,4))+

lemma wp_CallObject:
  assumes "java_ok env" "running False F M s"
    and "\<And>r s'. ref r \<noteq> 0 \<Longrightarrow> running False (add_local (ref r) F) M s' \<Longrightarrow> Q r s'" "\<And>r s' p. ref r = 0 \<Longrightarrow> running p F M s' \<Longrightarrow> Q r s'"
  shows "wp (jcall env (CallMethod st CHR ''L'' h m args)) Q s"
  using assms(1,2)
proof (rule wp_call)
  fix r s'
  assume "java_reply (CallMethod st CHR ''L'' h m args) r False"
    "running (pending_after (CallMethod st CHR ''L'' h m args) r False) (locals_after (CallMethod st CHR ''L'' h m args) r F) M s'"
  then show "Q r s'"
    using assms(3,4) by (cases "ref r = 0") (auto simp: call_rules)
qed simp

lemma wp_CallOther:
  assumes "java_ok env" "running False F M s" "k \<noteq> CHR ''L''" "\<And>r s' p. running p F M s' \<Longrightarrow> Q r s'"
  shows "wp (jcall env (CallMethod st k h m args)) Q s"
  using assms(1,2) by (rule wp_call) (use assms(3) in \<open>auto simp: call_rules intro!: assms(4)\<close>)

lemma wp_plain:
  assumes "java_ok env" "running False F M s" "\<And>r s'. running False F M s' \<Longrightarrow> Q r s'"
  shows "wp (jcall env (GetStringLength h)) Q s" "wp (jcall env (NewGlobalRef h)) Q s" "wp (jcall env (SetByteArrayRegion h b)) Q s"
    "wp (jcall env (SetField k h f v)) Q s"
  using assms(1,2) by (rule wp_call; auto simp: call_rules intro!: assms(3))+

lemma wp_region:
  assumes "java_ok env" "running False F M s" "\<And>r s'. int (length (bytes r)) \<le> max 0 n \<Longrightarrow> running False F M s' \<Longrightarrow> Q r s'"
  shows "wp (jcall env (GetStringUTFRegion h i n)) Q s"
  using assms(1,2) by (rule wp_call) (auto simp: call_rules intro!: assms(3))

lemma wp_ThrowNew:
  assumes "java_ok env" "running False F M s" "\<And>r s'. running True F M s' \<Longrightarrow> Q r s'"
  shows "wp (jcall env (ThrowNew h m)) Q s"
  using assms(1,2) by (rule wp_call) (auto simp: call_rules intro!: assms(3))

lemma wp_capacity:
  assumes "java_ok env" "running False F M s"
    and "\<And>r s'. num r = 0 \<Longrightarrow> running False F M s' \<Longrightarrow> Q r s'" "\<And>r s'. num r \<noteq> 0 \<Longrightarrow> running True F M s' \<Longrightarrow> Q r s'"
  shows "wp (jcall env (EnsureLocalCapacity n)) Q s"
  using assms(1,2) by (rule wp_call) (auto simp: call_rules intro: assms(3,4))

lemmas wp_calls = wp_ExceptionOccurred wp_ExceptionCheck wp_ExceptionClear wp_DeleteLocalRef wp_release wp_frames wp_get_ref wp_new_ref
  wp_lookup wp_CallObject wp_CallOther wp_plain wp_region wp_ThrowNew wp_capacity

section \<open>The logging of exceptions\<close>

lemma wp_getExceptionSummary:
  assumes "java_ok env" "running False (L # Ls) M s" "\<And>x s' p. running p (L # Ls) M s' \<Longrightarrow> Q x s'"
  shows "wp (getExceptionSummary env e n) Q s"
proof -
  have leaf: "running p F M s' \<Longrightarrow> F = L # Ls \<Longrightarrow> Q x s'" for x s' p F
    using assms(3) by simp
  show ?thesis
    unfolding getExceptionSummary_def using assms(2)
    by - (rule wp_intro | (erule wp_java_method [OF assms(1)], simp add: java_methods_def) | erule wp_calls [OF assms(1)] | (erule leaf, simp) | simp)+
qed

lemma wp_printStackTrace:
  assumes "java_ok env" "running False (L # Ls) M s" "0 < n" "\<And>x s' p. running p (L # Ls) M s' \<Longrightarrow> Q x s'"
  shows "wp (printStackTrace env e n) Q s"
proof -
  have leaf: "running p F M s' \<Longrightarrow> F = L # Ls \<Longrightarrow> Q x s'" for x s' p F
    using assms(4) by simp
  have summary: "running p F M s' \<Longrightarrow> p = False \<Longrightarrow> F = L # Ls \<Longrightarrow> wp (getExceptionSummary env e n) Q s'" for s' p F
    using assms(4) by (simp add: wp_getExceptionSummary [OF assms(1)])
  have fits: "int k \<le> max 0 (if int n \<le> l then int n - 1 else l) \<Longrightarrow> n < k \<Longrightarrow> P" for k l P
    using assms(3) by (auto simp: max_def split: if_splits)
  show ?thesis
    unfolding printStackTrace_def using assms(2)
    by - (rule wp_intro | (erule wp_java_method [OF assms(1)], simp add: java_methods_def) | erule wp_calls [OF assms(1)] | (erule leaf, simp) | (erule summary; simp) | (erule fits, assumption)
      | simp)+
qed

text \<open>The reference to the exception is never deleted.\<close>

lemma wp_jniLogException:
  assumes "java_ok env" "running p (L # Ls) M s"
    and "\<And>x s'. \<not> p \<Longrightarrow> running False (L # Ls) M s' \<Longrightarrow> Q x s'" "\<And>x s' e q. p \<Longrightarrow> running q (add_mset e L # Ls) M s' \<Longrightarrow> Q x s'"
  shows "wp (jniLogException env) Q s"
proof (cases p)
  case True
  then show ?thesis
    unfolding jniLogException_def using assms(2,4)
    by - (rule wp_intro | (erule wp_java_method [OF assms(1)], simp add: java_methods_def) | erule wp_calls [OF assms(1)] | rule wp_printStackTrace [OF assms(1)] | simp)+
next
  case False
  then show ?thesis
    unfolding jniLogException_def using assms(2,3)
    by - (rule wp_intro | (erule wp_java_method [OF assms(1)], simp add: java_methods_def) | erule wp_calls [OF assms(1)] | simp)+
qed

section \<open>Lookups\<close>

lemma wp_get_class_map: "running p F M s \<Longrightarrow> (running p F M s \<Longrightarrow> Q M s) \<Longrightarrow> wp get_class_map Q s"
  by (simp add: wp_def get_class_map_def running_def)

lemma wp_put_class_map: "running p F M s \<Longrightarrow> (\<And>s'. running p F m s' \<Longrightarrow> Q () s') \<Longrightarrow> wp (put_class_map m) Q s"
  by (simp add: wp_def put_class_map_def running_def pending_def locals_def legal_def)

text \<open>Nothing is deleted of the innermost frame, and nothing happens to the others.\<close>

definition grown :: "nat multiset \<Rightarrow> nat multiset list \<Rightarrow> nat multiset list \<Rightarrow> bool" where
  "grown L Ls F \<longleftrightarrow> (\<exists>L'. F = L' # Ls \<and> L \<subseteq># L')"

lemma grown_Cons [simp]: "grown L Ls (L' # Ls') \<longleftrightarrow> Ls' = Ls \<and> L \<subseteq># L'"
  by (auto simp: grown_def)

lemma subset_add_mset [simp]: "L \<subseteq># L' \<Longrightarrow> L \<subseteq># add_mset a L'"
  using subset_mset.order_trans [OF _ mset_subset_eq_add_right [of L' "{#a#}"]] by simp

lemma wp_throw_link_error:
  assumes "java_ok env" "running p (L # Ls) M s" "\<And>x s' F. grown L Ls F \<Longrightarrow> running p F M s' \<Longrightarrow> Q x s'"
  shows "wp (throw_link_error env msg) Q s"
proof -
  have leaf: "running q F M s' \<Longrightarrow> q = p \<Longrightarrow> grown L Ls F \<Longrightarrow> Q x s'" for q F s' x
    using assms(3) by simp
  show ?thesis
    unfolding throw_link_error_def using assms(2)
    by - (cases p; (rule wp_intro | erule wp_calls [OF assms(1)] | (erule leaf; simp) | simp)+)
qed

lemma wp_GetClass:
  assumes "java_ok env" "running p (L # Ls) M s" "\<And>x s' q F M'. grown L Ls F \<Longrightarrow> running q F M' s' \<Longrightarrow> Q x s'"
  shows "wp (GetClass env path) Q s"
proof -
  have link: "running q F M s' \<Longrightarrow> F = L # Ls \<Longrightarrow> (\<And>s'' F'. grown L Ls F' \<Longrightarrow> running q F' M s'' \<Longrightarrow> R () s'') \<Longrightarrow>
      wp (throw_link_error env msg) R s'" for q F s' R msg
    using wp_throw_link_error [OF assms(1), of q L Ls M s' R msg] by simp
  have leaf: "running q F M' s' \<Longrightarrow> grown L Ls F \<Longrightarrow> Q x s'" for q F M' s' x
    using assms(3) by simp
  show ?thesis
    unfolding GetClass_def using assms(2)
    by - (cases p; (rule wp_intro | erule wp_get_class_map | erule wp_put_class_map | erule wp_calls [OF assms(1)] | (erule link, simp)
        | (erule leaf, assumption) | (erule leaf, simp) | simp)+)
qed

lemma wp_lookups:
  assumes "java_ok env" "running p (L # Ls) M s" "\<And>x s' q F. grown L Ls F \<Longrightarrow> x \<noteq> 0 \<longrightarrow> \<not> q \<Longrightarrow> running q F M s' \<Longrightarrow> Q x s'"
  shows "wp (GetStaticMethodId env clz name sig) Q s" "wp (GetMethodId env clz name sig) Q s"
    "wp (GetStaticFieldId env clz name sig) Q s" "wp (GetFieldId env clz name sig) Q s"
proof -
  have link: "running q F M s' \<Longrightarrow> F = L # Ls \<Longrightarrow> (\<And>s'' F'. grown L Ls F' \<Longrightarrow> running q F' M s'' \<Longrightarrow> R () s'') \<Longrightarrow>
      wp (throw_link_error env msg) R s'" for q F s' R msg
    using wp_throw_link_error [OF assms(1), of q L Ls M s' R msg] by simp
  have leaf: "running q F M s' \<Longrightarrow> grown L Ls F \<Longrightarrow> x \<noteq> 0 \<longrightarrow> \<not> q \<Longrightarrow> Q x s'" for q F s' x
    using assms(3) by simp
  show "wp (GetStaticMethodId env clz name sig) Q s" "wp (GetMethodId env clz name sig) Q s"
    "wp (GetStaticFieldId env clz name sig) Q s" "wp (GetFieldId env clz name sig) Q s"
    unfolding GetStaticMethodId_def GetMethodId_def GetStaticFieldId_def GetFieldId_def using assms(2)
    by - (cases p; (rule wp_intro | erule wp_calls [OF assms(1)] | (erule link, simp)
        | (erule leaf; (assumption | simp)) | simp)+)+
qed

section \<open>Calls of Java methods\<close>

text \<open>The functions in a frame that has grown already.\<close>

lemma grown_trans: "grown L Ls (L' # Ls) \<Longrightarrow> grown L' Ls F \<Longrightarrow> grown L Ls F"
  unfolding grown_def using subset_mset.order_trans by blast

lemma wp_grown:
  assumes "java_ok env" "running p F M s" "grown L Ls F" "\<And>x s' q F' M'. grown L Ls F' \<Longrightarrow> running q F' M' s' \<Longrightarrow> Q x s'"
  shows "wp (GetClass env path) (\<lambda>x. Q x) s"
proof -
  obtain L' where L': "F = L' # Ls" "L \<subseteq># L'"
    using assms(3) by (auto simp: grown_def)
  show ?thesis
    by (rule wp_GetClass [OF assms(1) assms(2) [unfolded L'(1)]]) (use assms(3,4) L'(1) grown_trans in blast)
qed

lemma wp_grown_lookup:
  assumes "java_ok env" "running p F M s" "grown L Ls F" "\<And>x s' q F'. grown L Ls F' \<Longrightarrow> x \<noteq> 0 \<longrightarrow> \<not> q \<Longrightarrow> running q F' M s' \<Longrightarrow> Q x s'"
  shows "wp (GetStaticMethodId env clz name sig) Q s" "wp (GetMethodId env clz name sig) Q s"
    "wp (GetStaticFieldId env clz name sig) Q s" "wp (GetFieldId env clz name sig) Q s"
proof -
  obtain L' where L': "F = L' # Ls" "L \<subseteq># L'"
    using assms(3) by (auto simp: grown_def)
  have Q: "grown L' Ls F' \<Longrightarrow> x \<noteq> 0 \<longrightarrow> \<not> q \<Longrightarrow> running q F' M s' \<Longrightarrow> Q x s'" for x s' q F'
    using assms(3,4) L'(1) grown_trans by blast
  show "wp (GetStaticMethodId env clz name sig) Q s" "wp (GetMethodId env clz name sig) Q s"
    "wp (GetStaticFieldId env clz name sig) Q s" "wp (GetFieldId env clz name sig) Q s"
    by (rule wp_lookups [OF assms(1) assms(2) [unfolded L'(1)]]; erule Q; assumption)+
qed

lemma wp_grown_log:
  assumes "java_ok env" "running p F M s" "grown L Ls F" "\<And>x s' q F'. grown L Ls F' \<Longrightarrow> running q F' M s' \<Longrightarrow> Q x s'"
  shows "wp (jniLogException env) Q s"
proof -
  obtain L' where L': "F = L' # Ls" "L \<subseteq># L'"
    using assms(3) by (auto simp: grown_def)
  show ?thesis
    by (rule wp_jniLogException [OF assms(1) assms(2) [unfolded L'(1)]]; rule assms(4); (assumption | simp add: L'(2)))
qed

text \<open>A type that the switch knows.\<close>

definition known_type :: "string \<Rightarrow> bool" where
  "known_type descriptor = (case return_type descriptor of Some k \<Rightarrow> k \<in> set ''V[LZBCSIJFD'' | None \<Rightarrow> False)"

lemma wp_call_by_type:
  assumes "java_ok env" "running False F M s" "grown L Ls F" "known_type d"
    and "\<And>x s' q F'. grown L Ls F' \<Longrightarrow> running q F' M s' \<Longrightarrow> Q x s'"
  shows "wp (call_by_type env st h mid args d msg) Q s"
proof -
  obtain k where k: "return_type d = Some k" "k \<in> set ''V[LZBCSIJFD''"
    using assms(4) by (auto simp: known_type_def split: option.splits)
  have add: "grown L Ls (add_local x F)" for x
    using assms(3) by (auto simp: grown_def)
  have leaf: "running q F M s' \<Longrightarrow> Q x s'" "running q (add_local h F) M s' \<Longrightarrow> Q x s'" for q s' x h
    using assms(3,5) add by blast+
  have "k = CHR ''V'' \<or> k = CHR ''['' \<or> k = CHR ''L'' \<or> k \<noteq> CHR ''L'' \<and> k \<in> set ''ZBCSIJFD''"
    using k(2) by auto
  then show ?thesis
    unfolding call_by_type_def k(1) option.case using assms(2)
    by (elim disjE conjE)
      ((rule wp_intro | (erule wp_CallOther [OF assms(1)], (assumption | simp; fail)) | erule wp_CallObject [OF assms(1)] | erule leaf | simp)+)
qed

lemma wp_CallStaticMethodByName:
  assumes "java_ok env" "running p F M s" "grown L Ls F" "known_type d"
    and "\<And>x s' q F'. grown L Ls F' \<Longrightarrow> running q F' M s' \<Longrightarrow> Q x s'"
  shows "wp (CallStaticMethodByName env clz name d args) Q s"
  unfolding CallStaticMethodByName_def
proof (rule wp_bind, rule wp_grown_lookup [OF assms(1-3)], rule wp_if)
  fix x :: nat and s' q F'
  assume "grown L Ls F'" "x \<noteq> 0 \<longrightarrow> \<not> q" "running q F' M s'" "x \<noteq> 0"
  then have "running False F' M s'" "grown L Ls F'"
    by simp_all
  then show "wp (call_by_type env True clz x args d ''illegal _descriptor'' \<bind>
      (\<lambda>result. jniLogException env \<bind> (\<lambda>_. State_Monad.return result))) Q s'"
    by - (rule wp_intro wp_call_by_type [OF assms(1)] wp_grown_log [OF assms(1)] assms(4,5) | assumption)+
qed (rule wp_return assms(5) | assumption)+

text \<open>The operations on a view that Java owns, in a frame of their own.\<close>

lemma wp_notify_java:
  assumes "java_ok env" "running False F M s" "has_env sc" "clear_frame sc" "known_type (methodsig info)"
    and "\<And>s' q M'. running q F M' s' \<Longrightarrow> Q () s'"
  shows "wp (notify_java env sc info inst i buffer) Q s"
proof -
  have static: "wp (JNU_CallStaticMethodByMethodInfo env info args) R s'"
    if "running False (L # Ls) M s'" "\<And>x s'' q G M'. grown L Ls G \<Longrightarrow> running q G M' s'' \<Longrightarrow> R x s''" for args R s' L Ls
    unfolding JNU_CallStaticMethodByMethodInfo_def
    by (rule wp_bind, rule wp_GetClass [OF assms(1) that(1)], rule wp_CallStaticMethodByName [OF assms(1)]) (assumption | rule assms(5) that(2))+
  have free: "wp (JNU_FreeJbyteArray env h) (\<lambda>_. wp (ScopeJEnv_delete env sc) Q) s'"
    if g: "grown {#h#} F G" and r: "running q G M' s'" for q G M' s' h
  proof -
    obtain L' where "G = L' # F" "h \<in># L'"
      using g by (auto simp: grown_def)
    then have "running q' (tl (delete_local h G)) M' s'' \<Longrightarrow> Q () s''" for q' s''
      using assms(6) by simp
    note rules = wp_DeleteLocalRef [OF assms(1) r] wp_frames(2) [OF assms(1)] wp_bind wp_return this
    show ?thesis
      unfolding JNU_FreeJbyteArray_def ScopeJEnv_delete_def simp_thms if_True eqTrueI [OF assms(3)] eqTrueI [OF assms(4)]
      by (rule rules | assumption)+
  qed
  note rules = wp_bind wp_return wp_frames(1) [OF assms(1)] wp_get_ref(3) [OF assms(1)] wp_plain(3) [OF assms(1)] static
  show ?thesis
    unfolding notify_java_def ScopeJEnv_frame_def JNU_Buffer2JbyteArray_def simp_thms if_True if_False
      eqTrueI [OF assms(3)] eqTrueI [OF assms(4)]
    using assms(2)
    by - ((rule rules | assumption | simp only: add_local.simps; fail | erule free)+)
qed

lemma running_start: "halted s = None \<Longrightarrow> legal s \<Longrightarrow> running (pending s) (locals s) (class_map s) s"
  by (simp add: running_def)

lemma wp_snd: "wp m (\<lambda>_. P) s = P (snd (run_state m s))"
  by (simp add: wp_def split: prod.split)

text \<open>The frames of local references are as before, nothing was called that must not be called, no buffer overrun.\<close>

definition balanced :: "jni \<Rightarrow> jni \<Rightarrow> bool" where
  "balanced s s' \<longleftrightarrow> locals s' = locals s \<and> legal s' \<and> halted s' = None"


text \<open>A machine for the witnesses: every static method throws, and every other call succeeds.\<close>

definition sample_env :: jni_env where
  "sample_env tr c =
    \<lparr>ref = (case c of ExceptionOccurred \<Rightarrow> if pend tr then 7 else 0 | CallMethod st k h m args \<Rightarrow> if st then 0 else 5 | _ \<Rightarrow> 5),
     num = (case c of ExceptionCheck \<Rightarrow> if pend tr then 1 else 0 | _ \<Rightarrow> 0), bytes = [],
     raised = (case c of ThrowNew h m \<Rightarrow> True | CallMethod st k h m args \<Rightarrow> st | _ \<Rightarrow> False)\<rparr>"

lemma sample_env_ok: "java_ok sample_env"
proof -
  have "java_reply c (sample_env tr c) (pend tr)" for tr c
    by (cases c) (simp_all add: java_reply_def reply_ok_def sample_env_def)
  then show ?thesis
    by (simp add: java_ok_def)
qed

definition jni_start :: jni where
  "jni_start = \<lparr>trace = [], class_map = [], class_name_set = [], static_method_set = [], method_set = [], halted = None\<rparr>"

lemma jni_start_sel: "halted jni_start = None" "legal jni_start" "\<not> pending jni_start" "locals jni_start = [{#}]"
  by (simp_all add: jni_start_def legal_def pending_def locals_def misused_def pend_def live_def)


text \<open>The logging of an exception costs a local reference: \<open>jniLogException\<close> obtains a reference to the pending exception
  and never deletes it, while all other references it makes are deleted on every path.  Without an exception it
  does nothing.\<close>

lemma exception_log_leaks:
  assumes "java_ok env" "halted s = None" "legal s" "locals s = L # Ls"
  shows "\<exists>x s'. run_state (jniLogException env) s = (x, s') \<and> legal s' \<and> halted s' = None \<and>
    (if pending s then \<exists>e. locals s' = add_mset e L # Ls else locals s' = L # Ls)"
proof -
  have "running (pending s) (L # Ls) (class_map s) s"
    using running_start [OF assms(2,3)] assms(4) by simp
  then have "wp (jniLogException env) (\<lambda>x s'. legal s' \<and> halted s' = None \<and>
      (if pending s then \<exists>e. locals s' = add_mset e L # Ls else locals s' = L # Ls)) s"
    by (rule wp_jniLogException [OF assms(1)]) (auto simp: running_def)
  then show ?thesis
    by (cases "run_state (jniLogException env) s") (simp add: wp_def)
qed

text \<open>The length of the stack trace is that in UTF-16 units, but its UTF-8 bytes go into the buffer: a machine that follows the
  rules of the interface makes the code write out of it.\<close>

definition wide_env :: jni_env where
  "wide_env tr c = (case c of
      GetStringLength h \<Rightarrow> (sample_env tr c)\<lparr>num := 3\<rparr>
    | GetStringUTFRegion h i n \<Rightarrow> (sample_env tr c)\<lparr>bytes := replicate (3 * nat n) CHR ''x''\<rparr>
    | _ \<Rightarrow> sample_env tr c)"

lemma stack_trace_overflow: "env_ok wide_env \<and> halted (snd (run_state (printStackTrace wide_env 1 8) jni_start)) = Some Overrun"
proof -
  have "reply_ok c (wide_env tr c) (pend tr)" for tr c
    by (cases c) (simp_all add: reply_ok_def wide_env_def sample_env_def)
  moreover have "halted (snd (run_state (printStackTrace wide_env 1 8) jni_start)) = Some Overrun"
    by code_simp
  ultimately show ?thesis
    by (simp add: env_ok_def)
qed

section \<open>The cache of classes\<close>

text \<open>The cache of a state, after an operation of the interface.\<close>

lemma wp_jcall_cache: "(\<And>r s'. class_map s' = class_map s \<Longrightarrow> Q r s') \<Longrightarrow> wp (jcall env c) Q s"
  by (simp add: wp_def jcall_def Let_def)

lemma wp_cache:
  "Q (class_map s) s \<Longrightarrow> wp get_class_map Q s"
  "(\<And>s'. class_map s' = m \<Longrightarrow> Q' () s') \<Longrightarrow> wp (put_class_map m) Q' s"
  by (simp_all add: wp_def get_class_map_def put_class_map_def)

text \<open>The entries that are there stay, and a class that is found is entered.\<close>

definition cached :: "string \<Rightarrow> nat \<Rightarrow> (string \<times> nat) list \<Rightarrow> (string \<times> nat) list \<Rightarrow> bool" where
  "cached path x M M' \<longleftrightarrow> sorted_map M' \<and> map_of M \<subseteq>\<^sub>m map_of M' \<and> (x \<noteq> 0 \<longrightarrow> map_of M' path = Some x)"

lemma GetClass_cached:
  assumes "sorted_map (class_map s)"
  shows "wp (GetClass env path) (\<lambda>x s'. cached path x (class_map s) (class_map s')) s"
  unfolding GetClass_def throw_link_error_def
  by (rule wp_intro wp_jcall_cache wp_cache | (use assms in \<open>auto simp: cached_def map_le_def\<close>)[1])+

lemma load_classes_cached:
  "sorted_map (class_map s) \<Longrightarrow> wp (load_classes env names) (\<lambda>ok s'. sorted_map (class_map s') \<and> map_of (class_map s) \<subseteq>\<^sub>m map_of (class_map s') \<and>
    (ok \<longrightarrow> (\<forall>n \<in> fst ` set names. \<exists>x. x \<noteq> 0 \<and> map_of (class_map s') n = Some x))) s"
proof (induction names arbitrary: s)
  case Nil
  then show ?case
    by (simp add: wp_return)
next
  case (Cons x names)
  have step: "cached (fst x) c (class_map s) (class_map s') \<Longrightarrow> wp (if c = 0 then State_Monad.return False else load_classes env names)
      (\<lambda>ok s''. sorted_map (class_map s'') \<and> map_of (class_map s) \<subseteq>\<^sub>m map_of (class_map s'') \<and>
        (ok \<longrightarrow> (\<forall>n \<in> fst ` set (x # names). \<exists>x. x \<noteq> 0 \<and> map_of (class_map s'') n = Some x))) s'" for c s'
  proof (rule wp_if)
    assume c: "cached (fst x) c (class_map s) (class_map s')" "c \<noteq> 0"
    then have "map_of (class_map s) \<subseteq>\<^sub>m map_of (class_map s')" "map_of (class_map s') (fst x) = Some c" "sorted_map (class_map s')"
      by (simp_all add: cached_def)
    then show "wp (load_classes env names) (\<lambda>ok s''. sorted_map (class_map s'') \<and> map_of (class_map s) \<subseteq>\<^sub>m map_of (class_map s'') \<and>
        (ok \<longrightarrow> (\<forall>n \<in> fst ` set (x # names). \<exists>x. x \<noteq> 0 \<and> map_of (class_map s'') n = Some x))) s'"
      using c(2) by (intro wp_mono [OF Cons.IH]) (auto intro: map_le_trans simp: map_le_def dom_def)
  qed (auto simp: cached_def intro: wp_return)
  show ?case
    by (simp only: load_classes.simps, rule wp_bind, rule wp_mono [OF GetClass_cached [OF Cons.prems]], erule step)
qed

text \<open>C38.  If \<open>LoadClass\<close> succeeds, every registered class is cached, and \<open>GetClass\<close> gives the cached reference from then on,
  which is not empty, without asking the virtual machine for the class again.\<close>

theorem loaded_classes_cached:
  assumes "sorted_map (class_map s)" "run_state (LoadClass env) s = (True, s')" "n \<in> fst ` set (class_name_set s)"
    and "env_ok env" "halted s' = None" "\<not> pending s'"
  shows "\<exists>x. x \<noteq> 0 \<and> run_state (GetClass env n) s' = (x, s'\<lparr>trace := trace s' @ [(ExceptionOccurred, env (trace s') ExceptionOccurred)]\<rparr>)"
proof -
  obtain ok t where t: "run_state (load_classes env (class_name_set s)) s = (ok, t)"
    by fastforce
  then have "ok" "class_map s' = class_map t"
    using assms(2) by (auto simp: LoadClass_def State_Monad.bind_def State_Monad.return_def)
  then obtain x where x: "x \<noteq> 0" "map_of (class_map s') n = Some x"
    using load_classes_cached [OF assms(1), of env "class_name_set s"] t assms(3) by (auto simp: wp_def)
  have "reply_ok ExceptionOccurred (env (trace s') ExceptionOccurred) (pend (trace s'))"
    using assms(4) by (simp add: env_ok_def)
  then have "ref (env (trace s') ExceptionOccurred) = 0"
    using assms(6) by (simp add: reply_ok_def pending_def)
  then show ?thesis
    using x assms(5) by (simp add: GetClass_def State_Monad.bind_def State_Monad.return_def jcall_def get_class_map_def Let_def)
qed

definition registered :: jni where
  "registered = snd (AddClass KC2Java jni_start)"

theorem loaded_classes_cached_witness:
  "\<exists>x s'. x \<noteq> 0 \<and> run_state (LoadClass sample_env) registered = (True, s') \<and> fst (run_state (GetClass sample_env KC2Java) s') = x"
proof -
  have reg: "registered = jni_start\<lparr>class_name_set := [(KC2Java, ())]\<rparr>"
    by (simp add: registered_def AddClass_def jni_start_def)
  obtain s' where s': "run_state (LoadClass sample_env) registered = (True, s')"
    "halted s' = None" "\<not> pending s'"
    by (simp add: reg LoadClass_def GetClass_def State_Monad.bind_def State_Monad.return_def jcall_def get_class_map_def put_class_map_def Let_def
        jni_start_def sample_env_def pend_def pending_after_def pending_def)
  have "env_ok sample_env"
    using sample_env_ok by (simp add: java_ok_def env_ok_def java_reply_def)
  moreover have "sorted_map (class_map registered)" "KC2Java \<in> fst ` set (class_name_set registered)"
    by (simp_all add: reg jni_start_def)
  ultimately show ?thesis
    using loaded_classes_cached [OF _ s'(1) _ _ s'(2,3), of KC2Java] s'(1) by auto
qed

end
