(* ===== verification/Services.thy ===== *)
theory Services
  imports StdMap
begin

text \<open>
  Three small services: the callbacks at the end of the program (\<open>src/base/at_exit.cc\<close>), the semaphore
  (\<open>src/base/semaphore_util.cc\<close>) and the TCP server (\<open>src/base/net/tcp_server/tcp_server_impl.cc\<close>).
\<close>

section \<open>Callbacks at exit\<close>

text \<open>The stacks of the managers, the manager on top, and the callbacks that ran.\<close>

record 'c at_exit =
  stacks :: "(nat \<times> 'c list) list"
  g_top_manager :: "nat option"
  ran :: "'c list"

text \<open>A second manager is logged as fatal, and replaces the first.\<close>

definition AtExitManager_new :: "nat \<Rightarrow> 'c at_exit \<Rightarrow> 'c at_exit" where
  "AtExitManager_new m s = s\<lparr>stacks := map_put m [] (stacks s), g_top_manager := Some m\<rparr>"

definition stack_of :: "nat \<Rightarrow> 'c at_exit \<Rightarrow> 'c list" where
  "stack_of m s = (case map_of (stacks s) m of Some cs \<Rightarrow> cs | None \<Rightarrow> [])"

definition RegisterCallback :: "'c \<Rightarrow> 'c at_exit \<Rightarrow> 'c at_exit" where
  "RegisterCallback c s =
    (case g_top_manager s of
       None \<Rightarrow> s
     | Some m \<Rightarrow> s\<lparr>stacks := map_put m (c # stack_of m s) (stacks s)\<rparr>)"

text \<open>The loop over the tasks; a task may register callbacks.\<close>

fun run_tasks :: "('c \<Rightarrow> 'c list) \<Rightarrow> 'c list \<Rightarrow> 'c at_exit \<Rightarrow> 'c at_exit" where
  "run_tasks registers [] s = s"
| "run_tasks registers (t # tasks) s = run_tasks registers tasks (fold RegisterCallback (registers t) (s\<lparr>ran := ran s @ [t]\<rparr>))"

definition AtExitManager_delete :: "('c \<Rightarrow> 'c list) \<Rightarrow> nat \<Rightarrow> 'c at_exit \<Rightarrow> 'c at_exit" where
  "AtExitManager_delete registers m s =
    (let tasks = stack_of m s;
         s = run_tasks registers tasks (s\<lparr>stacks := map_put m [] (stacks s)\<rparr>)
     in s\<lparr>g_top_manager := None, stacks := map_erase m (stacks s)\<rparr>)"

lemma ran_RegisterCallback [simp]: "ran (RegisterCallback c s) = ran s"
  by (simp add: RegisterCallback_def split: option.split)

lemma ran_fold_RegisterCallback [simp]: "ran (fold RegisterCallback cs s) = ran s"
  by (induction cs arbitrary: s) simp_all

lemma ran_run_tasks [simp]: "ran (run_tasks registers tasks s) = ran s @ tasks"
  by (induction tasks arbitrary: s) simp_all

lemma stack_of_registered:
  "sorted_map (stacks s) \<Longrightarrow> g_top_manager s = Some m \<Longrightarrow> stack_of m (fold RegisterCallback cs s) = rev cs @ stack_of m s"
  by (induction cs arbitrary: s) (simp_all add: RegisterCallback_def stack_of_def)

text \<open>The callbacks run in the reverse of the order of their registration, each once; those that a callback registers while the
  manager is destroyed never run.\<close>

lemma at_exit_lifo:
  assumes "sorted_map (stacks s)"
  shows "ran (AtExitManager_delete registers m (fold RegisterCallback cs (AtExitManager_new m s))) = ran s @ rev cs"
  using assms stack_of_registered [of "AtExitManager_new m s" m cs]
  by (simp add: AtExitManager_delete_def Let_def AtExitManager_new_def stack_of_def)

section \<open>Semaphores\<close>

record semaphore =
  count :: int

definition Signal :: "semaphore \<Rightarrow> semaphore" where
  "Signal s = s\<lparr>count := count s + 1\<rparr>"

text \<open>\<open>None\<close> when the thread has to wait.  The predicate of the call with a time limit takes the unit itself; when the time is up it leaves
  the count as it is.\<close>

definition Wait :: "semaphore \<Rightarrow> semaphore option" where
  "Wait s = (if count s > 0 then Some (s\<lparr>count := count s - 1\<rparr>) else None)"

definition Wait_timeout :: "semaphore \<Rightarrow> bool \<times> semaphore" where
  "Wait_timeout s = (if count s > 0 then (True, s\<lparr>count := count s - 1\<rparr>) else (False, s))"

text \<open>The threads: their calls, in the order in which they get the mutex and go on.\<close>

inductive sem_run :: "nat \<Rightarrow> nat \<Rightarrow> semaphore \<Rightarrow> bool" where
  sem_new: "sem_run 0 0 \<lparr>count = 0\<rparr>"
| sem_signal: "sem_run n m s \<Longrightarrow> sem_run (Suc n) m (Signal s)"
| sem_wait: "sem_run n m s \<Longrightarrow> Wait s = Some s' \<Longrightarrow> sem_run n (Suc m) s'"
| sem_timed: "sem_run n m s \<Longrightarrow> Wait_timeout s = (True, s') \<Longrightarrow> sem_run n (Suc m) s'"
| sem_timed_out: "sem_run n m s \<Longrightarrow> Wait_timeout s = (False, s') \<Longrightarrow> sem_run n m s'"

text \<open>As many threads go on as there were signals, at most; a thread waits only when all signals are used.\<close>

lemma semaphore_count: "sem_run n m s \<Longrightarrow> count s = int n - int m \<and> m \<le> n \<and> (Wait s = None \<longleftrightarrow> m = n)"
proof (induction rule: sem_run.induct)
  case (sem_wait n m s s')
  then show ?case
    by (auto simp: Wait_def split: if_splits)
next
  case (sem_timed n m s s')
  then show ?case
    by (auto simp: Wait_def Wait_timeout_def split: if_splits)
next
  case (sem_timed_out n m s s')
  then show ?case
    by (auto simp: Wait_timeout_def split: if_splits)
qed (auto simp: Wait_def Signal_def)

section \<open>The TCP server\<close>

datatype server_call = OnListen int | OnNewConnection nat

record tcp_server =
  has_delegate :: bool
  accepting :: nat
  cleanups :: nat
  acceptor_open :: bool
  server_calls :: "server_call list"

definition TcpServerImpl_new :: tcp_server where
  "TcpServerImpl_new = \<lparr>has_delegate = True, accepting = 0, cleanups = 0, acceptor_open = True, server_calls = []\<rparr>"

definition StartListen :: "tcp_server \<Rightarrow> tcp_server" where
  "StartListen s = s\<lparr>accepting := accepting s + 1\<rparr>"

text \<open>The completion of an accept: an error, or the socket of a client.\<close>

definition NotifyClient :: "int + nat \<Rightarrow> tcp_server \<Rightarrow> tcp_server" where
  "NotifyClient r s =
    (if has_delegate s
     then s\<lparr>server_calls := server_calls s @ [case r of Inl ec \<Rightarrow> OnListen ec | Inr socket \<Rightarrow> OnNewConnection socket]\<rparr>
     else s)"

definition StopListen :: "tcp_server \<Rightarrow> tcp_server" where
  "StopListen s = s\<lparr>has_delegate := False, cleanups := cleanups s + 1\<rparr>"

definition Cleanup :: "tcp_server \<Rightarrow> tcp_server" where
  "Cleanup s = s\<lparr>acceptor_open := False\<rparr>"

inductive server_step :: "tcp_server \<Rightarrow> tcp_server \<Rightarrow> bool" where
  server_start: "server_step s (StartListen s)"
| server_accept: "accepting s > 0 \<Longrightarrow> server_step s (NotifyClient r (s\<lparr>accepting := accepting s - 1\<rparr>))"
| server_stop: "server_step s (StopListen s)"
| server_cleanup: "cleanups s > 0 \<Longrightarrow> server_step s (Cleanup (s\<lparr>cleanups := cleanups s - 1\<rparr>))"

text \<open>After \<open>StopListen\<close> the delegate is told nothing any more, although accepts may still complete.\<close>

lemma server_silent_step: "server_step s t \<Longrightarrow> \<not> has_delegate s \<Longrightarrow> \<not> has_delegate t \<and> server_calls t = server_calls s"
  by (induction rule: server_step.induct) (auto simp: StartListen_def NotifyClient_def StopListen_def Cleanup_def)

lemma server_silent: "server_step\<^sup>*\<^sup>* (StopListen s) t \<Longrightarrow> server_calls t = server_calls s"
proof -
  assume "server_step\<^sup>*\<^sup>* (StopListen s) t"
  then have "\<not> has_delegate t \<and> server_calls t = server_calls (StopListen s)"
    by (induction rule: rtranclp_induct) (auto simp: StopListen_def dest: server_silent_step)
  then show ?thesis
    by (simp add: StopListen_def)
qed

text \<open>Each call of \<open>StartListen\<close> accepts one client: the server does not go on by itself.\<close>

definition started :: "tcp_server \<Rightarrow> nat" where
  "started s = accepting s + length (server_calls s)"

inductive server_run :: "nat \<Rightarrow> tcp_server \<Rightarrow> bool" where
  run_new: "server_run 0 TcpServerImpl_new"
| run_start: "server_run n s \<Longrightarrow> server_run (Suc n) (StartListen s)"
| run_other: "server_run n s \<Longrightarrow> server_step s t \<Longrightarrow> t \<noteq> StartListen s \<Longrightarrow> server_run n t"

lemma server_clients: "server_run n s \<Longrightarrow> started s \<le> n"
proof (induction rule: server_run.induct)
  case (run_other n s t)
  from run_other(2) show ?case
    using run_other(3,4)
    by (cases rule: server_step.cases)
      (auto simp: started_def StartListen_def NotifyClient_def StopListen_def Cleanup_def)
qed (simp_all add: started_def TcpServerImpl_new_def StartListen_def)

end
