(* ===== verification/Cpp2Java.thy ===== *)
theory Cpp2Java
  imports StringUtil Decimal
begin

text \<open>
  The tool of \<open>src/tool/cpp2java/main.cc\<close>, which turns the enumerations of a header such as \<open>src/app/logic/logic_define.h\<close> into
  Java constants.  The value of a constant is the number of its line, because the headers initialise
  their enumerations with \<open>__LINE__\<close>.  The model is the loop over the text of the input file and the text
  that it writes.
\<close>

record cpp2java =
  line_count :: nat
  current_keyword :: string
  java_file :: string

definition NAMESPACE_KEYWORD :: string where "NAMESPACE_KEYWORD = ''namespace''"
definition ENUM_KEYWORD :: string where "ENUM_KEYWORD = ''enum''"

definition tab :: char where "tab = CHR 0x09"
definition newline :: char where "newline = CHR 0x0A"

definition java_constant :: "string \<Rightarrow> nat \<Rightarrow> string" where
  "java_constant name v = [tab, tab, tab] @ ''public static final int '' @ name @ '' = '' @ show_nat v @ '';'' @ [newline]"

text \<open>The body of the loop, for a line.  \<open>None\<close> is the access to \<open>split_strings[1]\<close> of a line that has one word only.\<close>

definition convert_line :: "(string \<Rightarrow> (char \<Rightarrow> bool) \<Rightarrow> string list) \<Rightarrow> string \<Rightarrow> cpp2java \<Rightarrow> cpp2java option" where
  "convert_line boost_split cpp_line st =
    (let st = st\<lparr>line_count := line_count st + 1\<rparr>;
         split_strings = Split boost_split cpp_line ('' ,'' @ [tab]) False
     in if length split_strings = 0 then Some st
        else let first_part = split_strings ! 0
             in if first_part = [] then Some st
                else if CHR ''}'' \<in> set first_part then
                  Some (st\<lparr>java_file := java_file st @ (if current_keyword st \<noteq> ENUM_KEYWORD then [tab] else [tab, tab]) @ ''}'' @ [newline],
                    current_keyword := []\<rparr>)
                else if first_part = NAMESPACE_KEYWORD \<or> first_part = ENUM_KEYWORD then
                  (if length split_strings < 2 then None
                   else Some (st\<lparr>java_file := java_file st @ (if first_part = NAMESPACE_KEYWORD then [tab] else [tab, tab]) @
                       ''public static class '' @ split_strings ! 1 @ ''{'' @ [newline],
                     current_keyword := first_part\<rparr>))
                else if current_keyword st = NAMESPACE_KEYWORD then Some st
                else if current_keyword st = ENUM_KEYWORD then
                  Some (st\<lparr>java_file := java_file st @ java_constant first_part (line_count st)\<rparr>)
                else Some st)"

fun convert_lines :: "(string \<Rightarrow> (char \<Rightarrow> bool) \<Rightarrow> string list) \<Rightarrow> string list \<Rightarrow> cpp2java \<Rightarrow> cpp2java option" where
  "convert_lines boost_split [] st = Some st"
| "convert_lines boost_split (l # ls) st =
    (case convert_line boost_split l st of None \<Rightarrow> None | Some st \<Rightarrow> convert_lines boost_split ls st)"

text \<open>The lines that \<open>getline\<close> gives until the end of the file; after a final end of line there is one more, which is empty.\<close>

fun getlines :: "string \<Rightarrow> string \<Rightarrow> string list" where
  "getlines acc [] = [acc]"
| "getlines acc (c # cs) = (if c = newline then acc # getlines [] cs else getlines (acc @ [c]) cs)"

definition cpp2java_main :: "(string \<Rightarrow> (char \<Rightarrow> bool) \<Rightarrow> string list) \<Rightarrow> string \<Rightarrow> string option" where
  "cpp2java_main boost_split cpp_file =
    map_option (\<lambda>st. java_file st @ ''}'' @ [newline])
      (convert_lines boost_split (getlines [] cpp_file)
        \<lparr>line_count = 0, current_keyword = [],
         java_file = ''package com.mvvm;'' @ [newline] @ ''public class LogicDefine {'' @ [newline]\<rparr>)"

section \<open>Enumerations\<close>

text \<open>The values that C++ gives to the enumerators that follow line \<open>n\<close>, one on each line, if the first one is
  initialised with its own \<open>__LINE__\<close>: each other is one more than the one before.\<close>

fun cpp_values :: "nat \<Rightarrow> string list \<Rightarrow> (string \<times> nat) list" where
  "cpp_values v [] = []"
| "cpp_values v (name # names) = (name, v) # cpp_values (v + 1) names"

definition enum_values :: "nat \<Rightarrow> string list \<Rightarrow> (string \<times> nat) list" where
  "enum_values n names = cpp_values (n + 1) names"

text \<open>A line with an enumerator: its first word.\<close>

definition enumerator :: "(string \<Rightarrow> (char \<Rightarrow> bool) \<Rightarrow> string list) \<Rightarrow> string \<Rightarrow> string \<Rightarrow> bool" where
  "enumerator boost_split line name \<longleftrightarrow>
    (case Split boost_split line ('' ,'' @ [tab]) False of [] \<Rightarrow> False | w # _ \<Rightarrow> w = name) \<and>
    name \<noteq> [] \<and> CHR ''}'' \<notin> set name \<and> name \<noteq> NAMESPACE_KEYWORD \<and> name \<noteq> ENUM_KEYWORD"

lemma convert_enumerator:
  assumes "current_keyword st = ENUM_KEYWORD" "enumerator boost_split line name"
  shows "convert_line boost_split line st =
    Some (st\<lparr>line_count := line_count st + 1, java_file := java_file st @ java_constant name (line_count st + 1)\<rparr>)"
  using assms by (auto simp: convert_line_def enumerator_def Let_def NAMESPACE_KEYWORD_def ENUM_KEYWORD_def split: list.splits)

text \<open>C39.  The constants for Java have the values of C++: for an enumeration whose first enumerator is \<open>__LINE__\<close> and whose
  enumerators stand on consecutive lines, the tool writes one constant for each, in order, with the value that
  C++ gives to it.\<close>

theorem cpp2java_enum_values:
  assumes "current_keyword st = ENUM_KEYWORD" "list_all2 (enumerator boost_split) ls names"
  shows "\<exists>st'. convert_lines boost_split ls st = Some st' \<and> line_count st' = line_count st + length ls \<and> current_keyword st' = ENUM_KEYWORD \<and>
    java_file st' = java_file st @ concat (map (\<lambda>(name, v). java_constant name v) (enum_values (line_count st) names))"
  using assms(2,1)
proof (induction arbitrary: st rule: list_all2_induct)
  case (Cons l ls name names)
  show ?case
    using Cons.IH [of "st\<lparr>line_count := line_count st + 1, java_file := java_file st @ java_constant name (line_count st + 1)\<rparr>"] Cons
    by (auto simp: convert_enumerator enum_values_def)
qed (simp add: enum_values_def)

text \<open>The events of \<open>logic_define.h\<close>, after line 25.\<close>

theorem cpp2java_enum_values_witness:
  "\<exists>st'. convert_lines cut_at [''    kEventLogin = __LINE__,'', ''    kEventLogout'']
      \<lparr>line_count = 25, current_keyword = ENUM_KEYWORD, java_file = []\<rparr> = Some st' \<and>
    java_file st' = java_constant ''kEventLogin'' 26 @ java_constant ''kEventLogout'' 27"
proof -
  have "enumerator cut_at ''    kEventLogin = __LINE__,'' ''kEventLogin''" "enumerator cut_at ''    kEventLogout'' ''kEventLogout''"
    by code_simp+
  then have "list_all2 (enumerator cut_at) [''    kEventLogin = __LINE__,'', ''    kEventLogout''] [''kEventLogin'', ''kEventLogout'']"
    by simp
  from cpp2java_enum_values [OF _ this, of "\<lparr>line_count = 25, current_keyword = ENUM_KEYWORD, java_file = []\<rparr>"] show ?thesis
    by (auto simp: enum_values_def simp del: convert_lines.simps)
qed

text \<open>A line without an enumerator in between: the values differ.\<close>

lemma cpp2java_blank_line:
  "convert_lines cut_at [''a = __LINE__,'', [], ''b''] \<lparr>line_count = 1, current_keyword = ENUM_KEYWORD, java_file = []\<rparr> =
    Some \<lparr>line_count = 4, current_keyword = ENUM_KEYWORD, java_file = java_constant ''a'' 2 @ java_constant ''b'' 4\<rparr>"
  "enum_values 1 [''a'', ''b''] = [(''a'', 2), (''b'', 3)]"
  by code_simp+

end
