(* ===== verification/Spec2Isabelle.thy ===== *)
theory Spec2Isabelle
  imports HttpHeaderSpec HttpDownloader TlsStreams AuthWire MessageLoop PumpShutdown Dialog JniSpec Services Cpp2Java
begin

text \<open>
  A verification of kingkong, a C++ base library with a demonstration application on it: network connections with proxies and
  TLS, an HTTP client with a parser in C, cryptographic helpers, an authentication client, message loops, a model-view-viewmodel
  framework, and the interface of that framework to Java.  The definitions are translated from the files under \<open>src\<close> and keep their
  names; where a name would clash, the name of the class or of the file is put in front, and the final underscores of
  members are left out.

  \<^bold>\<open>How the program works\<close>

  The application (\<open>src/app\<close>) starts the message loops (\<open>src/base/message_loop\<close>), registers a model and a view model, and opens a
  view.  A view hands events to its view model, which calls the model; the model announces events to the view models that have
  subscribed (\<open>src/mvvm\<close>); on Android the views are Java objects behind the helpers of \<open>src/base/jni_util\<close>.  The network
  library (\<open>src/base/net\<close>) runs on the pump for input and output: a connection resolves a name, connects, passes the SOCKS5
  handshake if there is a proxy, then the TLS and the WebSocket handshake, and then reads and writes through a queue.  The HTTP client
  is a connection and its own delegate; the downloader and the authentication client (\<open>src/base/auth\<close>) are delegates of HTTP clients.

  \<^bold>\<open>Conventions\<close>

  A class is a record, an enumeration a datatype, a machine integer a word of its width where its width matters.  A method is a
  function from states to states; a method that can fail returns a value of a sum or an option type; undefined behaviour,
  a failed assertion and a mutex that is locked twice are faults, which are values too.  An asynchronous operation is an entry
  in the state that says it is in progress, and its completion is a step with an arbitrary result; runs of such
  steps are inductive predicates.  \<open>std::map\<close> is the list of its pairs in the order of the keys (\<open>StdMap\<close>).  Code that is not in the
  repository (Boost, OpenSSL, the Java virtual machine, the system) is a parameter, and what is known of it is a hypothesis.
  \<open>Prelude\<close> has what the components share: words, characters as bytes, lists.

  \<^bold>\<open>The HTTP parser\<close> (\<open>src/base/net/http/http_parser.c\<close>, \<open>http_parser.h\<close>)

  \<^item> \<open>HttpTypes\<close>: enumerations, structures, tables; \<open>HttpChars\<close>: each table is the character class it is meant to be.
  \<^item> \<open>HttpMacros\<close>, \<open>HttpExec\<close>, \<open>HttpHeaders\<close>, \<open>HttpBody\<close>: \<open>http_parser_execute\<close>, one definition for each \<open>case\<close> of its switch, and the small
    functions of the interface.  The main loop is a partial function, so that not returning is the value \<open>None\<close>.
  \<^item> \<open>HttpInv\<close>, \<open>HttpSafe\<close>, \<open>HttpSafeHeaders\<close>, \<open>HttpTotal\<close>, \<open>HttpRun\<close>: for callbacks with the contract \<open>parser_callbacks\<close> every call returns, fails
    no assertion, reads nothing outside its buffer, and keeps the invariant of the parser.
  \<^item> \<open>HttpRequest\<close>, \<open>HttpHeaderSpec\<close>: the automata for methods and header names recognise exactly the words of their tables; lengths do not
    wrap around.  \<open>HttpDelivery\<close>, \<open>HttpChunked\<close>: bodies are delivered completely and in order for every split into buffers, and the
    decoder of chunks inverts the wire format.
  \<^item> \<open>HttpUrl\<close>, \<open>HttpUrlSpec\<close>: \<open>http_parser_parse_url\<close> is safe, and the fields it reports are non-empty parts of the URL.

  \<^bold>\<open>The network\<close> (\<open>src/base/net\<close>)

  \<^item> \<open>Socks5\<close> (\<open>socks5_client.cc\<close>): the handshake is safe in every order of completions, completes against an accepting server
    for every fragmentation, and sends the credentials and the target as configured.
  \<^item> \<open>NetConnection\<close>, \<open>NetConnectionSpec\<close> (\<open>net_connection_impl.cc\<close>, \<open>dns_resolver_impl.cc\<close>, \<open>tcp_client\<close>, \<open>websocket\<close>): success is reported at most
    once and after all layers; writes implement a first-in-first-out queue; a connection is silent after \<open>DisConnect\<close>.
  \<^item> \<open>TlsStreams\<close>: the streams of the three classes with TLS, and that none of them checks its peer.
  \<^item> \<open>HttpClient\<close>, \<open>HttpConnection\<close> (\<open>net.cc\<close>, \<open>http_connection_base.h\<close>): the target of a URL; one request after all layers are set up; the response
    reaches the delegate once and in order.  The locales \<open>body_delegate\<close> and \<open>quiet_delegate\<close> are the contract of a delegate.
  \<^item> \<open>HttpDownloader\<close> (\<open>http_downloader_impl.cc\<close>): a download ends with the whole body in the file.

  \<^bold>\<open>Messages and authentication\<close> (\<open>src/base/crypto_util.cc\<close>, \<open>src/base/auth\<close>, \<open>src/third_party/protobuf-3.11.4\<close>)

  \<^item> \<open>Crypto\<close>: RSA in blocks and AES-GCM in pieces are inverted by their counterparts.  \<open>Decimal\<close>: numbers written to streams.
  \<^item> \<open>WireFormat\<close>: the variable-length integers, tags, sizes and strings of protocol buffers; reading inverts writing, and the sizes
    computed by multiplication are exact.
  \<^item> \<open>Messages\<close>, \<open>MessagesSpec\<close> (\<open>auth.pb.cc\<close>, \<open>MvvmBasicParam.pb.cc\<close>): the generated messages; sizes are exact, parsing inverts serialization.
  \<^item> \<open>Auth\<close> (\<open>auth_util.cc\<close>): status 200 is told exactly for a verified response.  \<open>AuthWire\<close>: with the generated messages in place
    of the parameters, a genuine response is accepted.

  \<^bold>\<open>Loops, views, Java\<close>

  \<^item> \<open>MessagePump\<close> (\<open>message_pump_impl.cc\<close> and the three back ends): the back end is due in time for the first task, by the locale \<open>pump_backend\<close>, which
    all three back ends interpret.  \<open>PumpShutdown\<close>: a stopped default pump runs everything it has accepted, and its threads can end.
  \<^item> \<open>MessageLoop\<close> (\<open>message_loop_impl.cc\<close>): which pumps can be had, and that a stopped pump refuses tasks.
  \<^item> \<open>Mvvm\<close>, \<open>MvvmSpec\<close> (\<open>src/mvvm\<close>): an event reaches exactly the subscribed functions, never those of a destroyed view model.  \<open>AppLogic\<close>
    (\<open>src/app/logic\<close>), \<open>Dialog\<close> (\<open>src/app/ui\<close>): what a session of the application does.
  \<^item> \<open>JniEnv\<close>, \<open>VarCache\<close>, \<open>JniUtil\<close>, \<open>JniSpec\<close> (\<open>src/base/jni_util\<close>, \<open>src/mvvm/jni\<close>): for every virtual machine with the rules of \<open>java_ok\<close>, notifications
    balance their local references and leave no exception; loaded classes are cached.
  \<^item> \<open>StringUtil\<close> (\<open>string_util.cc\<close>): hexadecimal and URL encoding are inverted.  \<open>Services\<close>: exit callbacks, semaphore, TCP server.
    \<open>Cpp2Java\<close> (\<open>src/tool/cpp2java\<close>): the constants written for an enumeration have its values.

  \<^bold>\<open>Bounds\<close>

  The parser is the strict one with headers of at most 80 KiB, as the header has it without definitions by a build file.  URLs are shorter
  than 65536 bytes where the 16-bit fields of the result matter.  Inputs of the cryptographic helpers are shorter than
  \<open>2 ^ 31\<close> bytes.  Delays of tasks are below \<open>2 ^ 40\<close> milliseconds (34 years) and clocks below \<open>2 ^ 62\<close>, so that sums do not wrap.
  A message has at most \<open>INT_MAX - 16\<close> bytes, the limit of the library; the bound on the number of fields in \<open>InternalParse\<close> is the number
  of bytes, and lemma \<open>InternalParse_bound\<close> shows that a higher one gives the same result.

  \<^bold>\<open>Not modelled\<close>

  \<^item> Logging, names of threads, clocks, and the creation of threads, windows and timer descriptors: calls of the system.
  \<^item> The conversions between character sets, the menus, icons and painting of the dialog: calls of libraries.
  \<^item> The event bus, whose functions are empty; the caches of methods and fields for Java, which no build compiles; and
    \<open>NativeHandleEvent\<close>, which names events and messages that are not in the repository.
  \<^item> Reflection, descriptors, arenas and swapping of the generated messages, the parser of unknown fields, and what a
    message holds after a failed parse.
  \<^item> The other copies of libraries under \<open>src/third_party\<close>, and the test programs, which need live servers.
\<close>

end
